theory Spec2Isabelle
  imports Complex_Main "HOL-Library.List_Lexorder" "HOL-Library.Char_ord" "HOL-Library.Multiset"
begin

section \<open>Values read from the traffic graph\<close>

subsection \<open>float64\<close>

text \<open>
  A float64 is a NaN, an infinity, the negative zero, or a finite number, given by the
  real it denotes (\<open>Finite 0\<close> is the positive zero). A value that the metadata holds is
  taken as it is; arithmetic follows IEEE 754 as Go does: the exact result is rounded to
  the nearest number with a significand of 53 bits, ties to even, with exponents from
  -1022 to 1023, subnormal numbers below, and an infinity from \<open>2 ^ 1024\<close> on.
\<close>

datatype float64 = Finite real | NegZero | PosInf | NegInf | NaN

fun num :: "float64 \<Rightarrow> real" where
  "num (Finite x) = x"
| "num _ = 0"

fun signbit :: "float64 \<Rightarrow> bool" where
  "signbit (Finite x) = (x < 0)"
| "signbit NegZero = True"
| "signbit NegInf = True"
| "signbit _ = False"

fun isZero :: "float64 \<Rightarrow> bool" where
  "isZero (Finite x) = (x = 0)"
| "isZero NegZero = True"
| "isZero _ = False"

fun isInf :: "float64 \<Rightarrow> bool" where
  "isInf PosInf = True"
| "isInf NegInf = True"
| "isInf _ = False"

definition signed_inf :: "bool \<Rightarrow> float64" where
  "signed_inf negative = (if negative then NegInf else PosInf)"

definition signed_zero :: "bool \<Rightarrow> float64" where
  "signed_zero negative = (if negative then NegZero else Finite 0)"

fun flt :: "float64 \<Rightarrow> float64 \<Rightarrow> bool" where
  "flt NaN _ = False"
| "flt _ NaN = False"
| "flt PosInf _ = False"
| "flt _ NegInf = False"
| "flt _ PosInf = True"
| "flt NegInf _ = True"
| "flt a b = (num a < num b)"

definition fgt :: "float64 \<Rightarrow> float64 \<Rightarrow> bool" where
  "fgt a b = flt b a"

text \<open>
  \<open>binade a\<close> is the exponent of the power of two at or below \<open>a\<close>, kept between -1022
  (where the subnormal numbers begin) and 1024 (where the infinity begins); the spacing of
  the float64 numbers around \<open>a\<close> is \<open>pow2 (binade a - 52)\<close>.
\<close>

definition pow2 :: "int \<Rightarrow> real" where
  "pow2 k = (if 0 \<le> k then 2 ^ nat k else 1 / 2 ^ nat (- k))"

fun binade_up :: "nat \<Rightarrow> real \<Rightarrow> int \<Rightarrow> int" where
  "binade_up 0 a e = e"
| "binade_up (Suc fuel) a e = (if pow2 (e + 1) \<le> a then binade_up fuel a (e + 1) else e)"

fun binade_down :: "nat \<Rightarrow> real \<Rightarrow> int \<Rightarrow> int" where
  "binade_down 0 a e = e"
| "binade_down (Suc fuel) a e = (if pow2 e \<le> a then e else binade_down fuel a (e - 1))"

definition binade :: "real \<Rightarrow> int" where
  "binade a = (if 1 \<le> a then binade_up 1024 a 0 else binade_down 1021 a (- 1))"

definition round_half_even :: "real \<Rightarrow> nat" where
  "round_half_even x =
     (let f = \<lfloor>x\<rfloor>; d = x - of_int f
      in nat (if d < 1 / 2 then f else if 1 / 2 < d then f + 1 else if even f then f else f + 1))"

definition round64 :: "real \<Rightarrow> float64" where
  "round64 x =
     (if x = 0 then Finite 0
      else let ulp = pow2 (binade \<bar>x\<bar> - 52);
               r = real (round_half_even (\<bar>x\<bar> / ulp)) * ulp
           in if r = 0 then signed_zero (x < 0)
              else if pow2 1024 \<le> r then signed_inf (x < 0)
              else Finite (if x < 0 then - r else r))"

definition fadd :: "float64 \<Rightarrow> float64 \<Rightarrow> float64" where
  "fadd a b =
     (if a = NaN \<or> b = NaN then NaN
      else if isInf a then (if isInf b \<and> signbit a \<noteq> signbit b then NaN else a)
      else if isInf b then b
      else if isZero a \<and> isZero b then signed_zero (signbit a \<and> signbit b)
      else round64 (num a + num b))"

definition fmul :: "float64 \<Rightarrow> float64 \<Rightarrow> float64" where
  "fmul a b =
     (if a = NaN \<or> b = NaN then NaN
      else if isInf a \<or> isInf b then
        (if isZero a \<or> isZero b then NaN else signed_inf (signbit a \<noteq> signbit b))
      else if isZero a \<or> isZero b then signed_zero (signbit a \<noteq> signbit b)
      else round64 (num a * num b))"

definition fdiv :: "float64 \<Rightarrow> float64 \<Rightarrow> float64" where
  "fdiv a b =
     (if a = NaN \<or> b = NaN then NaN
      else if isInf a then (if isInf b then NaN else signed_inf (signbit a \<noteq> signbit b))
      else if isInf b then signed_zero (signbit a \<noteq> signbit b)
      else if isZero b then (if isZero a then NaN else signed_inf (signbit a \<noteq> signbit b))
      else if isZero a then signed_zero (signbit a \<noteq> signbit b)
      else round64 (num a / num b))"

text \<open>
  The conversions \<^verbatim>\<open>float64(i)\<close> of an integer, which rounds, and \<^verbatim>\<open>int64(f)\<close> of a
  finite float64, which drops the fraction.
\<close>

definition float64_of_int :: "int \<Rightarrow> float64" where
  "float64_of_int i = round64 (of_int i)"

definition int64_of_float64 :: "float64 \<Rightarrow> int" where
  "int64_of_float64 f = (if num f < 0 then - \<lfloor>- num f\<rfloor> else \<lfloor>num f\<rfloor>)"

subsection \<open>fmt.Sprintf with the verb %.Nf\<close>

text \<open>
  The decimal expansion of the number, rounded to \<open>p\<close> digits after the point, ties to
  even, behind the sign.
\<close>

definition digit :: "nat \<Rightarrow> char" where
  "digit d = ''0123456789'' ! d"

fun digits :: "nat \<Rightarrow> string" where
  "digits n = (if n < 10 then [digit n] else digits (n div 10) @ [digit (n mod 10)])"

declare digits.simps [simp del]

fun frac_digits :: "nat \<Rightarrow> nat \<Rightarrow> string" where
  "frac_digits 0 k = []"
| "frac_digits (Suc p) k = frac_digits p (k div 10) @ [digit (k mod 10)]"

definition Sprintf_f :: "nat \<Rightarrow> float64 \<Rightarrow> string" where
  "Sprintf_f p v =
     (if v = NaN then ''NaN''
      else if isInf v then (if signbit v then ''-Inf'' else ''+Inf'')
      else let m = round_half_even (\<bar>num v\<bar> * 10 ^ p)
           in (if signbit v then ''-'' else '''') @ digits (m div 10 ^ p)
              @ (if p = 0 then '''' else ''.'' @ frac_digits p (m mod 10 ^ p)))"

subsection \<open>interface{} values and type assertions\<close>

text \<open>
  A metadata value is an \<^verbatim>\<open>interface{}\<close>: nil, or a value of some dynamic type. \<open>Int\<close>
  stands for the dynamic types the transformation never asserts.
\<close>

datatype dyn =
    Nil
  | Float64 float64
  | Bool bool
  | String string
  | MapStringBool "string \<rightharpoonup> bool"
  | Int int

datatype panic = TypeAssertion | NilDereference

definition andThen :: "panic + 'a \<Rightarrow> ('a \<Rightarrow> panic + 'b) \<Rightarrow> panic + 'b" where
  "andThen m f = (case m of Inl e \<Rightarrow> Inl e | Inr x \<Rightarrow> f x)"

definition assert_float64 :: "dyn \<Rightarrow> panic + float64" where
  "assert_float64 v = (case v of Float64 x \<Rightarrow> Inr x | _ \<Rightarrow> Inl TypeAssertion)"

definition assert_bool :: "dyn \<Rightarrow> panic + bool" where
  "assert_bool v = (case v of Bool b \<Rightarrow> Inr b | _ \<Rightarrow> Inl TypeAssertion)"

definition assert_string :: "dyn \<Rightarrow> panic + string" where
  "assert_string v = (case v of String s \<Rightarrow> Inr s | _ \<Rightarrow> Inl TypeAssertion)"

definition assert_map :: "dyn \<Rightarrow> panic + (string \<rightharpoonup> bool)" where
  "assert_map v = (case v of MapStringBool m \<Rightarrow> Inr m | _ \<Rightarrow> Inl TypeAssertion)"

section \<open>The graph and options packages\<close>

text \<open>
  Modelled from the spec: the declarations of the packages graph and options are not part
  of this source tree. The traffic map is \<^verbatim>\<open>map[string]*Node\<close>; nodes are reached through
  pointers, which are addresses into a heap of nodes (an address the heap does not map is
  a nil pointer). The edges of a node are a \<^verbatim>\<open>[]*Edge\<close>: each element is the edge it
  points to, or \<open>None\<close> for a nil pointer. A traffic map is given as the list of its
  entries in the order in which \<^verbatim>\<open>range\<close> visits them; Go leaves that order open, so one
  map is any of the permutations of its entries. Only the fields the transformation reads
  are kept.
\<close>

type_synonym addr = nat

record Edge =
  Source :: addr
  Dest :: addr
  Metadata :: "string \<rightharpoonup> dyn"

record Node =
  ID :: string
  NodeType :: string
  Namespace :: string
  Workload :: string
  App :: string
  Version :: string
  Service :: string
  Edges :: "Edge option list"
  Metadata :: "string \<rightharpoonup> dyn"

type_synonym heap = "addr \<rightharpoonup> Node"

type_synonym TrafficMap = "(string \<times> addr) list"

text \<open>
  Modelled from the spec: the constants of the packages graph and options. The grouping
  modes are the values that the comment on \<^verbatim>\<open>IsGroup\<close> lists.
\<close>

definition NodeTypeApp :: string where "NodeTypeApp = ''app''"
definition GraphTypeService :: string where "GraphTypeService = ''service''"
definition GraphTypeVersionedApp :: string where "GraphTypeVersionedApp = ''versionedApp''"
definition GroupByApp :: string where "GroupByApp = ''app''"
definition GroupByVersion :: string where "GroupByVersion = ''version''"

text \<open>
  Modelled from the spec: \<^verbatim>\<open>options.VendorOptions\<close>. \<open>Duration\<close> is a
  \<^verbatim>\<open>time.Duration\<close>, a count of nanoseconds in an int64. \<open>Seconds\<close> is
  \<^verbatim>\<open>int64(d.Seconds())\<close>: the standard library splits the count with the integer
  division and remainder of Go, which truncate towards zero, adds the two parts as
  float64 numbers, \<^verbatim>\<open>float64(sec) + float64(nsec)/1e9\<close>, and the conversion drops the
  fraction.
\<close>

record VendorOptions =
  GroupBy :: string
  GraphType :: string
  Duration :: int
  QueryTime :: int

definition quo :: "int \<Rightarrow> int \<Rightarrow> int" where
  "quo a b = sgn a * sgn b * (\<bar>a\<bar> div \<bar>b\<bar>)"

definition rem :: "int \<Rightarrow> int \<Rightarrow> int" where
  "rem a b = sgn a * (\<bar>a\<bar> mod \<bar>b\<bar>)"

definition Seconds :: "int \<Rightarrow> int" where
  "Seconds d =
     (let sec = quo d 1000000000; nsec = rem d 1000000000
      in int64_of_float64
           (fadd (float64_of_int sec) (fdiv (float64_of_int nsec) (Finite 1000000000))))"

section \<open>The Cytoscape model\<close>

record NodeData =
  Id :: string
  Parent :: string
  NodeType :: string
  Namespace :: string
  Workload :: string
  App :: string
  Version :: string
  Service :: string
  DestServices :: "string \<rightharpoonup> bool"
  HttpIn :: string
  HttpIn3xx :: string
  HttpIn4xx :: string
  HttpIn5xx :: string
  HttpOut :: string
  TcpIn :: string
  TcpOut :: string
  HasCB :: bool
  HasMissingSC :: bool
  HasVS :: bool
  IsDead :: bool
  IsGroup :: string
  IsInaccessible :: bool
  IsMisconfigured :: string
  IsOutside :: bool
  IsRoot :: bool
  IsServiceEntry :: string
  IsUnused :: bool

record EdgeData =
  Id :: string
  Source :: string
  Target :: string
  Http :: string
  Http3xx :: string
  Http4xx :: string
  Http5xx :: string
  HttpPercentErr :: string
  HttpPercentReq :: string
  ResponseTime :: string
  IsMTLS :: bool
  IsUnused :: bool
  Tcp :: string

text \<open>
  A \<^verbatim>\<open>NodeWrapper\<close> (\<^verbatim>\<open>EdgeWrapper\<close>) holds nothing but the pointer \<^verbatim>\<open>Data\<close>; the
  collections keep the record it points to in its place. The position in the node
  collection stands for the pointer: the grouping pass writes through it.
\<close>

record Elements =
  Nodes :: "NodeData list"
  Edges :: "EdgeData list"

record Config =
  Timestamp :: int
  Duration :: int
  GraphType :: string
  Elements :: Elements

text \<open>
  The zero value of the structs: what a composite literal leaves in the fields it does
  not name. With \<^verbatim>\<open>omitempty\<close> a field is left out of the JSON document exactly when it
  holds its zero value (the empty string, false, the nil map).
\<close>

definition zeroNodeData :: NodeData where
  "zeroNodeData =
     \<lparr>NodeData.Id = [], Parent = [], NodeType = [], Namespace = [], Workload = [], App = [],
      Version = [], Service = [], DestServices = Map.empty, HttpIn = [], HttpIn3xx = [],
      HttpIn4xx = [], HttpIn5xx = [], HttpOut = [], TcpIn = [], TcpOut = [], HasCB = False,
      HasMissingSC = False, HasVS = False, IsDead = False, IsGroup = [],
      IsInaccessible = False, IsMisconfigured = [], IsOutside = False, IsRoot = False,
      IsServiceEntry = [], IsUnused = False\<rparr>"

definition zeroEdgeData :: EdgeData where
  "zeroEdgeData =
     \<lparr>EdgeData.Id = [], Source = [], Target = [], Http = [], Http3xx = [], Http4xx = [],
      Http5xx = [], HttpPercentErr = [], HttpPercentReq = [], ResponseTime = [],
      IsMTLS = False, IsUnused = False, Tcp = []\<rparr>"

subsection \<open>Identity hashes\<close>

text \<open>
  \<^verbatim>\<open>crypto/md5\<close> is the standard library's: the lower-case hexadecimal digest
  \<^verbatim>\<open>fmt.Sprintf("%x", md5.Sum([]byte(s)))\<close> is a parameter of every function that hashes.
\<close>

type_synonym md5hex = "string \<Rightarrow> string"

definition nodeHash :: "md5hex \<Rightarrow> string \<Rightarrow> string" where
  "nodeHash md5 ident = md5 ident"

definition edgeHash :: "md5hex \<Rightarrow> string \<Rightarrow> string \<Rightarrow> string \<Rightarrow> string" where
  "edgeHash md5 from to protocol = md5 (from @ ''.'' @ to @ ''.'' @ protocol)"

subsection \<open>Telemetry\<close>

definition getRate :: "(string \<rightharpoonup> dyn) \<Rightarrow> string \<Rightarrow> panic + float64" where
  "getRate md k = (case md k of Some rate \<Rightarrow> assert_float64 rate | None \<Rightarrow> Inr (Finite 0))"

definition addNodeTelemetry :: "Node \<Rightarrow> NodeData \<Rightarrow> panic + NodeData" where
  "addNodeTelemetry s nd =
     andThen (getRate (Node.Metadata s) ''httpIn'') (\<lambda>httpIn.
     andThen
       (if fgt httpIn (Finite 0) then
          andThen (getRate (Node.Metadata s) ''httpIn3xx'') (\<lambda>httpIn3xx.
          andThen (getRate (Node.Metadata s) ''httpIn4xx'') (\<lambda>httpIn4xx.
          andThen (getRate (Node.Metadata s) ''httpIn5xx'') (\<lambda>httpIn5xx.
          let nd = nd\<lparr>HttpIn := Sprintf_f 2 httpIn\<rparr>;
              nd = (if fgt httpIn3xx (Finite 0) then nd\<lparr>HttpIn3xx := Sprintf_f 2 httpIn3xx\<rparr> else nd);
              nd = (if fgt httpIn4xx (Finite 0) then nd\<lparr>HttpIn4xx := Sprintf_f 2 httpIn4xx\<rparr> else nd);
              nd = (if fgt httpIn5xx (Finite 0) then nd\<lparr>HttpIn5xx := Sprintf_f 2 httpIn5xx\<rparr> else nd)
          in Inr nd)))
        else Inr nd) (\<lambda>nd.
     andThen (getRate (Node.Metadata s) ''httpOut'') (\<lambda>httpOut.
     let nd = (if fgt httpOut (Finite 0) then nd\<lparr>HttpOut := Sprintf_f 2 httpOut\<rparr> else nd)
     in
     andThen (getRate (Node.Metadata s) ''tcpIn'') (\<lambda>tcpIn.
     andThen (getRate (Node.Metadata s) ''tcpOut'') (\<lambda>tcpOut.
     let nd = (if fgt tcpIn (Finite 0) then nd\<lparr>TcpIn := Sprintf_f 2 tcpIn\<rparr> else nd);
         nd = (if fgt tcpOut (Finite 0) then nd\<lparr>TcpOut := Sprintf_f 2 tcpOut\<rparr> else nd)
     in Inr nd)))))"

text \<open>
  The idiom \<^verbatim>\<open>if val, ok := md[k]; ok { x.F = val.(T) }\<close>: nothing happens for a key that
  is absent, the assertion runs (and may panic) for a key that is present.
\<close>

definition whenPresent ::
  "(string \<rightharpoonup> dyn) \<Rightarrow> string \<Rightarrow> (dyn \<Rightarrow> panic + 'v) \<Rightarrow> ('v \<Rightarrow> 'r \<Rightarrow> 'r) \<Rightarrow> 'r \<Rightarrow> panic + 'r" where
  "whenPresent md k assert assign x =
     (case md k of None \<Rightarrow> Inr x | Some val \<Rightarrow> andThen (assert val) (\<lambda>v. Inr (assign v x)))"

definition addEdgeTelemetry :: "heap \<Rightarrow> EdgeData \<Rightarrow> Edge \<Rightarrow> VendorOptions \<Rightarrow> panic + EdgeData" where
  "addEdgeTelemetry h ed e opts =
     andThen (getRate (Edge.Metadata e) ''http'') (\<lambda>http.
     andThen
       (if fgt http (Finite 0) then
          andThen (getRate (Edge.Metadata e) ''http3xx'') (\<lambda>http3xx.
          andThen (getRate (Edge.Metadata e) ''http4xx'') (\<lambda>http4xx.
          andThen (getRate (Edge.Metadata e) ''http5xx'') (\<lambda>http5xx.
          let httpErr = fadd http4xx http5xx;
              httpPercentErr = fmul (fdiv httpErr http) (Finite 100);
              ed = ed\<lparr>Http := Sprintf_f 2 http\<rparr>;
              ed = (if fgt http3xx (Finite 0) then ed\<lparr>Http3xx := Sprintf_f 2 http3xx\<rparr> else ed);
              ed = (if fgt http4xx (Finite 0) then ed\<lparr>Http4xx := Sprintf_f 2 http4xx\<rparr> else ed);
              ed = (if fgt http5xx (Finite 0) then ed\<lparr>Http5xx := Sprintf_f 2 http5xx\<rparr> else ed);
              ed = (if fgt httpPercentErr (Finite 0)
                    then ed\<lparr>HttpPercentErr := Sprintf_f 1 httpPercentErr\<rparr> else ed)
          in
          andThen (whenPresent (Edge.Metadata e) ''responseTime'' assert_float64
                     (\<lambda>responseTime ed. ed\<lparr>ResponseTime := Sprintf_f 0 responseTime\<rparr>) ed) (\<lambda>ed.
          case h (Edge.Source e) of
            None \<Rightarrow> Inl NilDereference
          | Some source \<Rightarrow>
              andThen (getRate (Node.Metadata source) ''httpOut'') (\<lambda>httpOut.
              let httpPercentReq = fmul (fdiv http httpOut) (Finite 100)
              in Inr (if flt httpPercentReq (Finite 100)
                      then ed\<lparr>HttpPercentReq := Sprintf_f 1 httpPercentReq\<rparr> else ed))))))
        else
          (case h (Edge.Source e) of
             None \<Rightarrow> Inl NilDereference
           | Some source \<Rightarrow>
               whenPresent (Node.Metadata source) ''isUnused'' assert_bool
                 (\<lambda>val ed. ed\<lparr>EdgeData.IsUnused := val\<rparr>) ed)) (\<lambda>ed.
     andThen (whenPresent (Edge.Metadata e) ''isMTLS'' assert_bool
                (\<lambda>val ed. ed\<lparr>IsMTLS := val\<rparr>) ed) (\<lambda>ed.
     andThen (getRate (Edge.Metadata e) ''tcp'') (\<lambda>tcp.
     Inr (if fgt tcp (Finite 0) then ed\<lparr>Tcp := Sprintf_f 2 tcp\<rparr> else ed)))))"

subsection \<open>buildConfig\<close>

text \<open>The body of the loop over the traffic map, up to the node record it appends.\<close>

definition buildNode :: "md5hex \<Rightarrow> string \<Rightarrow> Node \<Rightarrow> panic + NodeData" where
  "buildNode md5 ident n =
     (let nodeId = nodeHash md5 ident;
          nd = zeroNodeData\<lparr>NodeData.Id := nodeId, NodeData.NodeType := Node.NodeType n,
                 NodeData.Namespace := Node.Namespace n, NodeData.Workload := Node.Workload n,
                 NodeData.App := Node.App n, NodeData.Version := Node.Version n,
                 NodeData.Service := Node.Service n\<rparr>
      in
      andThen (addNodeTelemetry n nd) (\<lambda>nd.
      andThen (whenPresent (Node.Metadata n) ''isDead'' assert_bool
                 (\<lambda>val nd. nd\<lparr>IsDead := val\<rparr>) nd) (\<lambda>nd.
      andThen (whenPresent (Node.Metadata n) ''isRoot'' assert_bool
                 (\<lambda>val nd. nd\<lparr>IsRoot := val\<rparr>) nd) (\<lambda>nd.
      andThen (whenPresent (Node.Metadata n) ''isUnused'' assert_bool
                 (\<lambda>val nd. nd\<lparr>NodeData.IsUnused := val\<rparr>) nd) (\<lambda>nd.
      andThen (whenPresent (Node.Metadata n) ''isInaccessible'' assert_bool
                 (\<lambda>val nd. nd\<lparr>IsInaccessible := val\<rparr>) nd) (\<lambda>nd.
      andThen (whenPresent (Node.Metadata n) ''hasCB'' assert_bool
                 (\<lambda>val nd. nd\<lparr>HasCB := val\<rparr>) nd) (\<lambda>nd.
      andThen (whenPresent (Node.Metadata n) ''hasVS'' assert_bool
                 (\<lambda>val nd. nd\<lparr>HasVS := val\<rparr>) nd) (\<lambda>nd.
      andThen (whenPresent (Node.Metadata n) ''hasMissingSC'' assert_bool
                 (\<lambda>val nd. nd\<lparr>HasMissingSC := val\<rparr>) nd) (\<lambda>nd.
      andThen (whenPresent (Node.Metadata n) ''isMisconfigured'' assert_string
                 (\<lambda>val nd. nd\<lparr>IsMisconfigured := val\<rparr>) nd) (\<lambda>nd.
      andThen (whenPresent (Node.Metadata n) ''isOutside'' assert_bool
                 (\<lambda>val nd. nd\<lparr>IsOutside := val\<rparr>) nd) (\<lambda>nd.
      andThen (whenPresent (Node.Metadata n) ''destServices'' assert_map
                 (\<lambda>val nd. nd\<lparr>DestServices := val\<rparr>) nd) (\<lambda>nd.
      whenPresent (Node.Metadata n) ''isServiceEntry'' assert_string
        (\<lambda>val nd. nd\<lparr>IsServiceEntry := val\<rparr>) nd))))))))))))"

text \<open>
  The body of the loop over the edges of the node \<open>n\<close>, up to the edge record, for an
  element that points to the edge \<open>e\<close>; the loop panics at \<^verbatim>\<open>e.Dest\<close> on a nil element.
\<close>

definition buildEdge :: "md5hex \<Rightarrow> heap \<Rightarrow> Node \<Rightarrow> Edge \<Rightarrow> VendorOptions \<Rightarrow> panic + EdgeData" where
  "buildEdge md5 h n e opts =
     (let sourceIdHash = nodeHash md5 (Node.ID n)
      in case h (Edge.Dest e) of
           None \<Rightarrow> Inl NilDereference
         | Some dest \<Rightarrow>
             (let destIdHash = nodeHash md5 (Node.ID dest)
              in andThen
                   (case Edge.Metadata e ''protocol'' of
                      None \<Rightarrow> Inr []
                    | Some Nil \<Rightarrow> Inr []
                    | Some val \<Rightarrow> assert_string val) (\<lambda>protocol.
                 let edgeId = edgeHash md5 sourceIdHash destIdHash protocol;
                     ed = zeroEdgeData\<lparr>EdgeData.Id := edgeId, EdgeData.Source := sourceIdHash,
                            Target := destIdHash\<rparr>
                 in addEdgeTelemetry h ed e opts)))"

fun buildEdges ::
  "md5hex \<Rightarrow> heap \<Rightarrow> Node \<Rightarrow> Edge option list \<Rightarrow> EdgeData list \<Rightarrow> VendorOptions
     \<Rightarrow> panic + EdgeData list" where
  "buildEdges md5 h n [] edges opts = Inr edges"
| "buildEdges md5 h n (None # es) edges opts = Inl NilDereference"
| "buildEdges md5 h n (Some e # es) edges opts =
     andThen (buildEdge md5 h n e opts) (\<lambda>ew. buildEdges md5 h n es (edges @ [ew]) opts)"

fun buildConfig ::
  "md5hex \<Rightarrow> heap \<Rightarrow> TrafficMap \<Rightarrow> NodeData list \<Rightarrow> EdgeData list \<Rightarrow> VendorOptions
     \<Rightarrow> panic + NodeData list \<times> EdgeData list" where
  "buildConfig md5 h [] nodes edges opts = Inr (nodes, edges)"
| "buildConfig md5 h ((ident, a) # trafficMap) nodes edges opts =
     (case h a of
        None \<Rightarrow> Inl NilDereference
      | Some n \<Rightarrow>
          andThen (buildNode md5 ident n) (\<lambda>nw.
          andThen (buildEdges md5 h n (Node.Edges n) edges opts) (\<lambda>edges.
          buildConfig md5 h trafficMap (nodes @ [nw]) edges opts)))"

subsection \<open>Compound nodes\<close>

text \<open>
  \<open>appBox\<close> is a \<^verbatim>\<open>map[string][]*NodeData\<close>: an association list from the key to its
  members, each member the position of the record in the node collection.
\<close>

type_synonym appBox = "(string \<times> nat list) list"

definition boxKey :: "NodeData \<Rightarrow> string" where
  "boxKey nd = ''box_'' @ NodeData.Namespace nd @ ''_'' @ NodeData.App nd"

fun appendMember :: "string \<Rightarrow> nat \<Rightarrow> appBox \<Rightarrow> appBox" where
  "appendMember k i [] = [(k, [i])]"
| "appendMember k i ((k', members) # appBox) =
     (if k' = k then (k', members @ [i]) # appBox else (k', members) # appendMember k i appBox)"

fun assignMembers :: "string \<Rightarrow> nat list \<Rightarrow> NodeData list \<Rightarrow> NodeData \<Rightarrow> NodeData list \<times> NodeData" where
  "assignMembers nodeId [] nodes nd = (nodes, nd)"
| "assignMembers nodeId (i # members) nodes nd =
     (let n = (nodes ! i)\<lparr>Parent := nodeId\<rparr>
      in assignMembers nodeId members (nodes[i := n])
           (nd\<lparr>HasMissingSC := HasMissingSC nd \<or> HasMissingSC n,
               IsInaccessible := IsInaccessible nd \<or> IsInaccessible n,
               IsOutside := IsOutside nd \<or> IsOutside n\<rparr>))"

fun generateGroupCompoundNodes :: "md5hex \<Rightarrow> appBox \<Rightarrow> NodeData list \<Rightarrow> string \<Rightarrow> NodeData list" where
  "generateGroupCompoundNodes md5 [] nodes groupBy = nodes"
| "generateGroupCompoundNodes md5 ((k, members) # appBox) nodes groupBy =
     generateGroupCompoundNodes md5 appBox
       (if 1 < length members then
          (let nodeId = nodeHash md5 k;
               nd = zeroNodeData\<lparr>NodeData.Id := nodeId, NodeData.NodeType := NodeTypeApp,
                      NodeData.Namespace := NodeData.Namespace (nodes ! (members ! 0)),
                      NodeData.App := NodeData.App (nodes ! (members ! 0)),
                      NodeData.Version := [], IsGroup := groupBy\<rparr>;
               nd = nd\<lparr>HasMissingSC := False, IsInaccessible := False, IsOutside := False\<rparr>;
               (nodes, nd) = assignMembers nodeId members nodes nd
           in nodes @ [nd])
        else nodes)
       groupBy"

text \<open>
  The order in which \<^verbatim>\<open>range\<close> visits \<open>appBox\<close> is the runtime's choice: \<open>rangeOrder\<close>
  rearranges the entries into it.
\<close>

definition groupByVersion :: "md5hex \<Rightarrow> (appBox \<Rightarrow> appBox) \<Rightarrow> NodeData list \<Rightarrow> NodeData list" where
  "groupByVersion md5 rangeOrder nodes =
     (let appBox = foldl (\<lambda>appBox (i, nw).
                      if NodeData.NodeType nw = NodeTypeApp then appendMember (boxKey nw) i appBox
                      else appBox) [] (enumerate 0 nodes)
      in generateGroupCompoundNodes md5 (rangeOrder appBox) nodes GroupByVersion)"

definition groupByApp :: "md5hex \<Rightarrow> (appBox \<Rightarrow> appBox) \<Rightarrow> NodeData list \<Rightarrow> NodeData list" where
  "groupByApp md5 rangeOrder nodes =
     (let appBox = foldl (\<lambda>appBox (i, nw).
                      if NodeData.App nw \<noteq> ''unknown'' \<and> NodeData.App nw \<noteq> [] then
                        appendMember (boxKey nw) i appBox
                      else appBox) [] (enumerate 0 nodes)
      in generateGroupCompoundNodes md5 (rangeOrder appBox) nodes GroupByApp)"

subsection \<open>NewConfig\<close>

text \<open>
  \<^verbatim>\<open>sort.Slice\<close> is the standard library's and promises a permutation in the order of
  the less function, not a stable one. It is modelled by the insertion sort that the
  library runs on a slice of up to six elements: the sorted part is held last element
  first, and the next element moves down while it is less than its neighbour. On a longer
  slice the library may leave elements that compare equal in another order; what is proved
  below for every input rests only on the result being a permutation in the order of the
  less function.
\<close>

fun insertion :: "('a \<Rightarrow> 'a \<Rightarrow> bool) \<Rightarrow> 'a list \<Rightarrow> 'a \<Rightarrow> 'a list" where
  "insertion lessFn [] x = [x]"
| "insertion lessFn (y # placed) x =
     (if lessFn x y then y # insertion lessFn placed x else x # y # placed)"

definition sort_Slice :: "('a \<Rightarrow> 'a \<Rightarrow> bool) \<Rightarrow> 'a list \<Rightarrow> 'a list" where
  "sort_Slice lessFn xs = rev (foldl (insertion lessFn) [] xs)"

definition nodeLess :: "NodeData \<Rightarrow> NodeData \<Rightarrow> bool" where
  "nodeLess a b =
     (if NodeData.Namespace a \<noteq> NodeData.Namespace b then NodeData.Namespace a < NodeData.Namespace b
      else if IsGroup a \<noteq> IsGroup b then IsGroup b < IsGroup a
      else if NodeData.App a \<noteq> NodeData.App b then NodeData.App a < NodeData.App b
      else if NodeData.Version a \<noteq> NodeData.Version b then NodeData.Version a < NodeData.Version b
      else if NodeData.Service a \<noteq> NodeData.Service b then NodeData.Service a < NodeData.Service b
      else NodeData.Workload a < NodeData.Workload b)"

definition edgeLess :: "EdgeData \<Rightarrow> EdgeData \<Rightarrow> bool" where
  "edgeLess a b =
     (if EdgeData.Source a < EdgeData.Source b then True
      else if EdgeData.Source b < EdgeData.Source a then False
      else Target a < Target b)"

definition NewConfig ::
  "md5hex \<Rightarrow> (appBox \<Rightarrow> appBox) \<Rightarrow> heap \<Rightarrow> TrafficMap \<Rightarrow> VendorOptions \<Rightarrow> panic + Config" where
  "NewConfig md5 rangeOrder h trafficMap opts =
     andThen (buildConfig md5 h trafficMap [] [] opts) (\<lambda>(nodes, edges).
     let nodes =
           (if GroupBy opts = GroupByApp then
              (if VendorOptions.GraphType opts \<noteq> GraphTypeService
               then groupByApp md5 rangeOrder nodes else nodes)
            else if GroupBy opts = GroupByVersion then
              (if VendorOptions.GraphType opts = GraphTypeVersionedApp
               then groupByVersion md5 rangeOrder nodes else nodes)
            else nodes);
         nodes = sort_Slice nodeLess nodes;
         edges = sort_Slice edgeLess edges;
         elements = \<lparr>Nodes = nodes, Edges = edges\<rparr>
     in Inr \<lparr>Timestamp = QueryTime opts, Duration = Seconds (VendorOptions.Duration opts),
             GraphType = VendorOptions.GraphType opts, Elements = elements\<rparr>)"

section \<open>Notions of the specification\<close>

text \<open>
  The rule of the specification for a rate field: the two-decimal string when the
  metadata value under the key is strictly greater than zero, left out otherwise.
\<close>

definition positiveRate :: "(string \<rightharpoonup> dyn) \<Rightarrow> string \<Rightarrow> bool" where
  "positiveRate md k = (case md k of Some (Float64 v) \<Rightarrow> fgt v (Finite 0) | _ \<Rightarrow> False)"

definition rateField :: "(string \<rightharpoonup> dyn) \<Rightarrow> string \<Rightarrow> string" where
  "rateField md k = (if positiveRate md k then
                       (case md k of Some (Float64 v) \<Rightarrow> Sprintf_f 2 v | _ \<Rightarrow> [])
                     else [])"

text \<open>
  The rate that the metadata holds under a key: the number there, zero when there is
  none. The percent-of-parent-request value of an edge with the source node \<open>source\<close>:
  the rate of the edge divided by the outbound rate of the source, times 100.
\<close>

definition rate :: "(string \<rightharpoonup> dyn) \<Rightarrow> string \<Rightarrow> float64" where
  "rate md k = (case md k of Some (Float64 v) \<Rightarrow> v | _ \<Rightarrow> Finite 0)"

definition percentOfSource :: "Edge \<Rightarrow> Node \<Rightarrow> float64" where
  "percentOfSource e source =
     fmul (fdiv (rate (Edge.Metadata e) ''http'') (rate (Node.Metadata source) ''httpOut''))
       (Finite 100)"

text \<open>
  The protocol label of an edge: the string under the key protocol, empty when there is
  none.
\<close>

definition protocolLabel :: "Edge \<Rightarrow> string" where
  "protocolLabel e = (case Edge.Metadata e ''protocol'' of Some (String s) \<Rightarrow> s | _ \<Rightarrow> [])"

text \<open>
  A metadata value of an unexpected dynamic type: \<open>typedAs is_type md k\<close> holds when the
  value under \<open>k\<close>, if there is one, has the type.
\<close>

definition typedAs :: "(dyn \<Rightarrow> bool) \<Rightarrow> (string \<rightharpoonup> dyn) \<Rightarrow> string \<Rightarrow> bool" where
  "typedAs is_type md k = (case md k of None \<Rightarrow> True | Some v \<Rightarrow> is_type v)"

definition isFloat64 :: "dyn \<Rightarrow> bool" where
  "isFloat64 v = (case v of Float64 _ \<Rightarrow> True | _ \<Rightarrow> False)"

definition isBool :: "dyn \<Rightarrow> bool" where
  "isBool v = (case v of Bool _ \<Rightarrow> True | _ \<Rightarrow> False)"

definition isString :: "dyn \<Rightarrow> bool" where
  "isString v = (case v of String _ \<Rightarrow> True | _ \<Rightarrow> False)"

definition isMapStringBool :: "dyn \<Rightarrow> bool" where
  "isMapStringBool v = (case v of MapStringBool _ \<Rightarrow> True | _ \<Rightarrow> False)"

text \<open>
  The inputs on which no value of an unexpected type is met. For a node: the rates and
  flags, labels and services under the expected keys, where the three rates by status
  class count only for a node with a positive httpIn. For an edge: its rates, its flag
  and its protocol, where the rates by status class, the response time and the httpOut
  of the source node count only for an edge with a positive http, and the isUnused of
  the source node only for an edge without; and the two nodes of the edge are there. For
  a graph: every entry of the traffic map points to such a node, and every element of
  its edges to such an edge.
\<close>

definition typedWhereRead :: "Node \<Rightarrow> bool" where
  "typedWhereRead n \<longleftrightarrow>
     list_all (typedAs isFloat64 (Node.Metadata n)) [''httpIn'', ''httpOut'', ''tcpIn'', ''tcpOut''] \<and>
     (positiveRate (Node.Metadata n) ''httpIn'' \<longrightarrow>
        list_all (typedAs isFloat64 (Node.Metadata n)) [''httpIn3xx'', ''httpIn4xx'', ''httpIn5xx'']) \<and>
     list_all (typedAs isBool (Node.Metadata n))
       [''isDead'', ''isRoot'', ''isUnused'', ''isInaccessible'', ''hasCB'', ''hasVS'',
        ''hasMissingSC'', ''isOutside''] \<and>
     list_all (typedAs isString (Node.Metadata n)) [''isMisconfigured'', ''isServiceEntry''] \<and>
     typedAs isMapStringBool (Node.Metadata n) ''destServices''"

definition edgeTypedWhereRead :: "heap \<Rightarrow> Edge \<Rightarrow> bool" where
  "edgeTypedWhereRead h e \<longleftrightarrow>
     list_all (typedAs isFloat64 (Edge.Metadata e)) [''http'', ''tcp''] \<and>
     typedAs isBool (Edge.Metadata e) ''isMTLS'' \<and>
     typedAs (\<lambda>v. v = Nil \<or> isString v) (Edge.Metadata e) ''protocol'' \<and>
     h (Edge.Dest e) \<noteq> None \<and>
     (case h (Edge.Source e) of
        None \<Rightarrow> False
      | Some source \<Rightarrow>
          if positiveRate (Edge.Metadata e) ''http'' then
            list_all (typedAs isFloat64 (Edge.Metadata e))
              [''http3xx'', ''http4xx'', ''http5xx'', ''responseTime''] \<and>
            typedAs isFloat64 (Node.Metadata source) ''httpOut''
          else typedAs isBool (Node.Metadata source) ''isUnused'')"

definition graphTypedWhereRead :: "heap \<Rightarrow> TrafficMap \<Rightarrow> bool" where
  "graphTypedWhereRead h trafficMap \<longleftrightarrow>
     list_all (\<lambda>(ident, a).
        case h a of
          None \<Rightarrow> False
        | Some n \<Rightarrow>
            typedWhereRead n \<and>
            list_all (\<lambda>e. case e of None \<Rightarrow> False | Some e \<Rightarrow> edgeTypedWhereRead h e)
              (Node.Edges n)) trafficMap"

text \<open>
  The candidates of the two grouping modes, and the candidate key of the specification:
  the namespace, a stroke, and the app.
\<close>

definition candidateApp :: "NodeData \<Rightarrow> bool" where
  "candidateApp nw \<longleftrightarrow> NodeData.App nw \<noteq> ''unknown'' \<and> NodeData.App nw \<noteq> []"

definition candidateVersion :: "NodeData \<Rightarrow> bool" where
  "candidateVersion nw \<longleftrightarrow> NodeData.NodeType nw = NodeTypeApp"

definition candidateKey :: "NodeData \<Rightarrow> string" where
  "candidateKey nw = NodeData.Namespace nw @ ''/'' @ NodeData.App nw"

text \<open>
  What \<^verbatim>\<open>sort.Slice\<close> asks of its less function: a strict weak ordering.
\<close>

definition strictWeak :: "('a \<Rightarrow> 'a \<Rightarrow> bool) \<Rightarrow> bool" where
  "strictWeak lessFn \<longleftrightarrow>
     (\<forall>a b. lessFn a b \<longrightarrow> \<not> lessFn b a) \<and> (\<forall>a b c. lessFn a c \<longrightarrow> lessFn a b \<or> lessFn b c)"

section \<open>The boxes of the grouping pass\<close>

text \<open>
  The grouping pass collects the records under the strings that \<open>boxKey\<close> forms. The box
  that the loop over the node collection fills, and the members of a box: the positions
  of the candidates whose \<open>boxKey\<close> is \<open>k\<close>, in the order of the collection.
\<close>

definition collectBoxes :: "(NodeData \<Rightarrow> bool) \<Rightarrow> NodeData list \<Rightarrow> appBox" where
  "collectBoxes candidate nodes =
     foldl (\<lambda>appBox (i, nw). if candidate nw then appendMember (boxKey nw) i appBox else appBox)
       [] (enumerate 0 nodes)"

definition boxMembers :: "(NodeData \<Rightarrow> bool) \<Rightarrow> NodeData list \<Rightarrow> string \<Rightarrow> nat list" where
  "boxMembers candidate nodes k =
     filter (\<lambda>i. candidate (nodes ! i) \<and> boxKey (nodes ! i) = k) [0..<length nodes]"

text \<open>
  What a grouping pass that takes \<open>nodes\<close> to \<open>out\<close> does to the boxes: the records of
  \<open>nodes\<close> keep their positions; a candidate whose box has two or more members gets the
  hash of the \<open>boxKey\<close> as parent and nothing else changes; every record appended is a
  group node whose id is the hash of its \<open>boxKey\<close>; and a box has one appended group node
  when it has two or more members, none otherwise.
\<close>

definition boxesGrouped ::
  "md5hex \<Rightarrow> (NodeData \<Rightarrow> bool) \<Rightarrow> string \<Rightarrow> NodeData list \<Rightarrow> NodeData list \<Rightarrow> bool" where
  "boxesGrouped md5 candidate groupBy nodes out \<longleftrightarrow>
     length nodes \<le> length out \<and>
     (\<forall>i < length nodes.
        out ! i = (if candidate (nodes ! i) \<and> 2 \<le> length (boxMembers candidate nodes (boxKey (nodes ! i)))
                   then (nodes ! i)\<lparr>Parent := nodeHash md5 (boxKey (nodes ! i))\<rparr>
                   else nodes ! i)) \<and>
     (\<forall>g \<in> set (drop (length nodes) out).
        IsGroup g = groupBy \<and> NodeData.Id g = nodeHash md5 (boxKey g)) \<and>
     (\<forall>k. length (filter (\<lambda>g. boxKey g = k) (drop (length nodes) out)) =
            (if 2 \<le> length (boxMembers candidate nodes k) then 1 else 0))"

text \<open>
  One turn of the loop of generateGroupCompoundNodes for a box with more than one member:
  the collection with the members' parent set, and the compound node to append.
\<close>

definition compound ::
  "md5hex \<Rightarrow> string \<Rightarrow> string \<Rightarrow> nat list \<Rightarrow> NodeData list \<Rightarrow> NodeData list \<times> NodeData" where
  "compound md5 groupBy k ms nodes =
     assignMembers (nodeHash md5 k) ms nodes
       (zeroNodeData\<lparr>NodeData.Id := nodeHash md5 k, NodeData.NodeType := NodeTypeApp,
          NodeData.Namespace := NodeData.Namespace (nodes ! (ms ! 0)),
          NodeData.App := NodeData.App (nodes ! (ms ! 0)),
          NodeData.Version := [], IsGroup := groupBy,
          HasMissingSC := False, IsInaccessible := False, IsOutside := False\<rparr>)"

section \<open>Example graphs\<close>

text \<open>
  The inputs at which the theorems below are evaluated. \<open>exampleDigest\<close> stands in for the
  MD5 digest there; no example depends on what the digest of a string is.
\<close>

definition exampleDigest :: md5hex where
  "exampleDigest s = ''#'' @ s"

definition exOpts :: VendorOptions where
  "exOpts = \<lparr>GroupBy = ''app'', GraphType = ''versionedApp'', Duration = 60000000000, QueryTime = 1\<rparr>"

definition halfEdge :: Edge where
  "halfEdge = \<lparr>Edge.Source = 1, Dest = 2, Edge.Metadata = [''http'' \<mapsto> Float64 (Finite 5)]\<rparr>"

definition wholeEdge :: Edge where
  "wholeEdge = \<lparr>Edge.Source = 1, Dest = 2, Edge.Metadata = [''http'' \<mapsto> Float64 (Finite 10)]\<rparr>"

definition busyNode :: Node where
  "busyNode = \<lparr>ID = ''a'', Node.NodeType = ''app'', Node.Namespace = ''ns1'', Node.Workload = [],
      Node.App = ''svcA'', Node.Version = [], Node.Service = [], Node.Edges = [Some halfEdge, Some wholeEdge],
      Node.Metadata = [''httpOut'' \<mapsto> Float64 (Finite 10)]\<rparr>"

definition idleNode :: Node where
  "idleNode = \<lparr>ID = ''b'', Node.NodeType = ''app'', Node.Namespace = ''ns1'', Node.Workload = [],
      Node.App = ''svcB'', Node.Version = [], Node.Service = [], Node.Edges = [],
      Node.Metadata = Map.empty\<rparr>"

definition exHeap :: heap where
  "exHeap = [1 \<mapsto> busyNode, 2 \<mapsto> idleNode]"

definition exMap :: TrafficMap where
  "exMap = [(''a'', 1), (''b'', 2)]"

definition halfRecord :: EdgeData where
  "halfRecord = zeroEdgeData\<lparr>EdgeData.Id := ''##a.#b.'', EdgeData.Source := ''#a'', Target := ''#b'',
     Http := ''5.00'', HttpPercentReq := ''50.0''\<rparr>"

definition wholeRecord :: EdgeData where
  "wholeRecord = zeroEdgeData\<lparr>EdgeData.Id := ''##a.#b.'', EdgeData.Source := ''#a'', Target := ''#b'',
     Http := ''10.00''\<rparr>"

definition busyRecord :: NodeData where
  "busyRecord = zeroNodeData\<lparr>NodeData.Id := ''#a'', NodeData.NodeType := ''app'',
     NodeData.Namespace := ''ns1'', NodeData.App := ''svcA'', HttpOut := ''10.00''\<rparr>"

definition idleRecord :: NodeData where
  "idleRecord = zeroNodeData\<lparr>NodeData.Id := ''#b'', NodeData.NodeType := ''app'',
     NodeData.Namespace := ''ns1'', NodeData.App := ''svcB''\<rparr>"

definition exConfig :: Config where
  "exConfig = \<lparr>Timestamp = 1, Duration = 60, GraphType = ''versionedApp'',
     Elements = \<lparr>Nodes = [busyRecord, idleRecord], Edges = [halfRecord, wholeRecord]\<rparr>\<rparr>"

definition unusedNode :: Node where
  "unusedNode = \<lparr>ID = ''u'', Node.NodeType = ''app'', Node.Namespace = ''ns1'', Node.Workload = [],
      Node.App = ''svcU'', Node.Version = [], Node.Service = [], Node.Edges = [],
      Node.Metadata = [''isUnused'' \<mapsto> Bool True]\<rparr>"

definition quietEdge :: Edge where
  "quietEdge = \<lparr>Edge.Source = 3, Dest = 2, Edge.Metadata = Map.empty\<rparr>"

definition unusedHeap :: heap where
  "unusedHeap = [2 \<mapsto> idleNode, 3 \<mapsto> unusedNode]"

definition redirectNode :: Node where
  "redirectNode = \<lparr>ID = ''r'', Node.NodeType = ''app'', Node.Namespace = ''ns1'', Node.Workload = [],
      Node.App = ''svcR'', Node.Version = [], Node.Service = [], Node.Edges = [],
      Node.Metadata = [''httpIn3xx'' \<mapsto> Float64 (Finite 1)]\<rparr>"

definition redirectRecord :: NodeData where
  "redirectRecord = zeroNodeData\<lparr>NodeData.Id := ''#r'', NodeData.NodeType := ''app'',
     NodeData.Namespace := ''ns1'', NodeData.App := ''svcR''\<rparr>"

definition servingNode :: Node where
  "servingNode = \<lparr>ID = ''s'', Node.NodeType = ''app'', Node.Namespace = ''ns1'', Node.Workload = [],
      Node.App = ''svcS'', Node.Version = [], Node.Service = [], Node.Edges = [],
      Node.Metadata = [''httpIn'' \<mapsto> Float64 (Finite 10), ''httpIn4xx'' \<mapsto> Float64 (Finite 1)]\<rparr>"

definition servingRecord :: NodeData where
  "servingRecord = zeroNodeData\<lparr>NodeData.Id := ''#s'', NodeData.NodeType := ''app'',
     NodeData.Namespace := ''ns1'', NodeData.App := ''svcS'', HttpIn := ''10.00'',
     HttpIn4xx := ''1.00''\<rparr>"

definition garbledNode :: Node where
  "garbledNode = \<lparr>ID = ''g'', Node.NodeType = ''app'', Node.Namespace = ''ns1'', Node.Workload = [],
      Node.App = ''svcG'', Node.Version = [], Node.Service = [], Node.Edges = [],
      Node.Metadata = [''httpIn'' \<mapsto> String ''fast'']\<rparr>"

definition garbledHeap :: heap where
  "garbledHeap = [1 \<mapsto> garbledNode]"

definition garbledMap :: TrafficMap where
  "garbledMap = [(''g'', 1)]"

definition v1Node :: Node where
  "v1Node = \<lparr>ID = ''a1'', Node.NodeType = ''app'', Node.Namespace = ''ns1'', Node.Workload = [],
      Node.App = ''svcA'', Node.Version = ''v1'', Node.Service = [], Node.Edges = [],
      Node.Metadata = Map.empty\<rparr>"

definition v2Node :: Node where
  "v2Node = \<lparr>ID = ''a2'', Node.NodeType = ''app'', Node.Namespace = ''ns1'', Node.Workload = [],
      Node.App = ''svcA'', Node.Version = ''v2'', Node.Service = [], Node.Edges = [],
      Node.Metadata = Map.empty\<rparr>"

definition pairHeap :: heap where
  "pairHeap = [1 \<mapsto> v1Node, 2 \<mapsto> v2Node, 3 \<mapsto> idleNode]"

definition pairMap :: TrafficMap where
  "pairMap = [(''a1'', 1), (''a2'', 2), (''b'', 3)]"

definition v1Record :: NodeData where
  "v1Record = zeroNodeData\<lparr>NodeData.Id := ''#a1'', NodeData.NodeType := ''app'',
     NodeData.Namespace := ''ns1'', NodeData.App := ''svcA'', NodeData.Version := ''v1''\<rparr>"

definition v2Record :: NodeData where
  "v2Record = zeroNodeData\<lparr>NodeData.Id := ''#a2'', NodeData.NodeType := ''app'',
     NodeData.Namespace := ''ns1'', NodeData.App := ''svcA'', NodeData.Version := ''v2''\<rparr>"

definition groupRecord :: NodeData where
  "groupRecord = zeroNodeData\<lparr>NodeData.Id := ''#box_ns1_svcA'', NodeData.NodeType := ''app'',
     NodeData.Namespace := ''ns1'', NodeData.App := ''svcA'', IsGroup := ''app''\<rparr>"

definition serviceOpts :: VendorOptions where
  "serviceOpts = \<lparr>GroupBy = ''app'', GraphType = ''service'', Duration = 60000000000, QueryTime = 1\<rparr>"

definition ungroupedConfig :: Config where
  "ungroupedConfig = \<lparr>Timestamp = 1, Duration = 60, GraphType = ''service'',
     Elements = \<lparr>Nodes = [v1Record, v2Record, idleRecord], Edges = []\<rparr>\<rparr>"

definition groupedConfig :: Config where
  "groupedConfig = \<lparr>Timestamp = 1, Duration = 60, GraphType = ''versionedApp'',
     Elements = \<lparr>Nodes = [groupRecord, v1Record\<lparr>Parent := ''#box_ns1_svcA''\<rparr>,
                           v2Record\<lparr>Parent := ''#box_ns1_svcA''\<rparr>, idleRecord],
                  Edges = []\<rparr>\<rparr>"

definition plainOpts :: VendorOptions where
  "plainOpts = \<lparr>GroupBy = ''none'', GraphType = ''workload'', Duration = 60000000000, QueryTime = 1\<rparr>"

definition leftNode :: Node where
  "leftNode = \<lparr>ID = ''l'', Node.NodeType = ''app'', Node.Namespace = ''ns1'', Node.Workload = [],
      Node.App = ''svcA'', Node.Version = [], Node.Service = [], Node.Edges = [],
      Node.Metadata = Map.empty\<rparr>"

definition rightNode :: Node where
  "rightNode = \<lparr>ID = ''r'', Node.NodeType = ''service'', Node.Namespace = ''ns1'', Node.Workload = [],
      Node.App = ''svcA'', Node.Version = [], Node.Service = [], Node.Edges = [],
      Node.Metadata = Map.empty\<rparr>"

definition tieHeap :: heap where
  "tieHeap = [1 \<mapsto> leftNode, 2 \<mapsto> rightNode]"

definition leftRecord :: NodeData where
  "leftRecord = zeroNodeData\<lparr>NodeData.Id := ''#l'', NodeData.NodeType := ''app'',
     NodeData.Namespace := ''ns1'', NodeData.App := ''svcA''\<rparr>"

definition rightRecord :: NodeData where
  "rightRecord = zeroNodeData\<lparr>NodeData.Id := ''#r'', NodeData.NodeType := ''service'',
     NodeData.Namespace := ''ns1'', NodeData.App := ''svcA''\<rparr>"

definition leftFirstConfig :: Config where
  "leftFirstConfig = \<lparr>Timestamp = 1, Duration = 60, GraphType = ''workload'',
     Elements = \<lparr>Nodes = [leftRecord, rightRecord], Edges = []\<rparr>\<rparr>"

definition rightFirstConfig :: Config where
  "rightFirstConfig = \<lparr>Timestamp = 1, Duration = 60, GraphType = ''workload'',
     Elements = \<lparr>Nodes = [rightRecord, leftRecord], Edges = []\<rparr>\<rparr>"

definition underNode :: Node where
  "underNode = \<lparr>ID = ''c'', Node.NodeType = ''app'', Node.Namespace = ''a_b'', Node.Workload = [],
      Node.App = ''c'', Node.Version = [], Node.Service = [], Node.Edges = [],
      Node.Metadata = Map.empty\<rparr>"

definition overNode :: Node where
  "overNode = \<lparr>ID = ''d'', Node.NodeType = ''app'', Node.Namespace = ''a'', Node.Workload = [],
      Node.App = ''b_c'', Node.Version = [], Node.Service = [], Node.Edges = [],
      Node.Metadata = Map.empty\<rparr>"

definition clashHeap :: heap where
  "clashHeap = [1 \<mapsto> underNode, 2 \<mapsto> overNode]"

definition clashMap :: TrafficMap where
  "clashMap = [(''c'', 1), (''d'', 2)]"

definition underRecord :: NodeData where
  "underRecord = zeroNodeData\<lparr>NodeData.Id := ''#c'', Parent := ''#box_a_b_c'',
     NodeData.NodeType := ''app'', NodeData.Namespace := ''a_b'', NodeData.App := ''c''\<rparr>"

definition overRecord :: NodeData where
  "overRecord = zeroNodeData\<lparr>NodeData.Id := ''#d'', Parent := ''#box_a_b_c'',
     NodeData.NodeType := ''app'', NodeData.Namespace := ''a'', NodeData.App := ''b_c''\<rparr>"

definition clashGroup :: NodeData where
  "clashGroup = zeroNodeData\<lparr>NodeData.Id := ''#box_a_b_c'', NodeData.NodeType := ''app'',
     NodeData.Namespace := ''a_b'', NodeData.App := ''c'', IsGroup := ''app''\<rparr>"

definition clashConfig :: Config where
  "clashConfig = \<lparr>Timestamp = 1, Duration = 60, GraphType = ''versionedApp'',
     Elements = \<lparr>Nodes = [overRecord, clashGroup, underRecord], Edges = []\<rparr>\<rparr>"

definition shareEdge :: Edge where
  "shareEdge = \<lparr>Edge.Source = 1, Dest = 2, Edge.Metadata = [''http'' \<mapsto> Float64 (Finite 23)]\<rparr>"

definition shareNode :: Node where
  "shareNode = \<lparr>ID = ''a'', Node.NodeType = ''app'', Node.Namespace = ''ns1'', Node.Workload = [],
      Node.App = ''svcA'', Node.Version = [], Node.Service = [], Node.Edges = [Some shareEdge],
      Node.Metadata = [''httpOut'' \<mapsto> Float64 (Finite 80)]\<rparr>"

definition shareHeap :: heap where
  "shareHeap = [1 \<mapsto> shareNode, 2 \<mapsto> idleNode]"

definition shareRecord :: EdgeData where
  "shareRecord = zeroEdgeData\<lparr>EdgeData.Id := ''##a.#b.'', EdgeData.Source := ''#a'', Target := ''#b'',
     Http := ''23.00'', HttpPercentReq := ''28.7''\<rparr>"

definition busyEdge :: Edge where
  "busyEdge = \<lparr>Edge.Source = 3, Dest = 2, Edge.Metadata = [''http'' \<mapsto> Float64 (Finite 5)]\<rparr>"

definition busyEdgeRecord :: EdgeData where
  "busyEdgeRecord = zeroEdgeData\<lparr>EdgeData.Id := ''##u.#b.'', EdgeData.Source := ''#u'', Target := ''#b'',
     Http := ''5.00''\<rparr>"

definition quietRecord :: EdgeData where
  "quietRecord = zeroEdgeData\<lparr>EdgeData.Id := ''##u.#b.'', EdgeData.Source := ''#u'', Target := ''#b'',
     EdgeData.IsUnused := True\<rparr>"

definition sloppyEdge :: Edge where
  "sloppyEdge = \<lparr>Edge.Source = 1, Dest = 2,
     Edge.Metadata = [''http3xx'' \<mapsto> Bool True, ''responseTime'' \<mapsto> String ''slow'']\<rparr>"

definition sloppyNode :: Node where
  "sloppyNode = \<lparr>ID = ''g'', Node.NodeType = ''app'', Node.Namespace = ''ns1'', Node.Workload = [],
      Node.App = ''svcG'', Node.Version = [], Node.Service = [], Node.Edges = [Some sloppyEdge],
      Node.Metadata = [''httpIn3xx'' \<mapsto> String ''fast'']\<rparr>"

definition sloppyHeap :: heap where
  "sloppyHeap = [1 \<mapsto> sloppyNode, 2 \<mapsto> idleNode]"

definition sloppyMap :: TrafficMap where
  "sloppyMap = [(''g'', 1), (''b'', 2)]"

definition sloppyRecord :: NodeData where
  "sloppyRecord = zeroNodeData\<lparr>NodeData.Id := ''#g'', NodeData.NodeType := ''app'',
     NodeData.Namespace := ''ns1'', NodeData.App := ''svcG''\<rparr>"

definition sloppyEdgeRecord :: EdgeData where
  "sloppyEdgeRecord =
     zeroEdgeData\<lparr>EdgeData.Id := ''##g.#b.'', EdgeData.Source := ''#g'', Target := ''#b''\<rparr>"

definition sloppyConfig :: Config where
  "sloppyConfig = \<lparr>Timestamp = 1, Duration = 60, GraphType = ''workload'',
     Elements = \<lparr>Nodes = [idleRecord, sloppyRecord], Edges = [sloppyEdgeRecord]\<rparr>\<rparr>"

definition versionOpts :: VendorOptions where
  "versionOpts = \<lparr>GroupBy = ''version'', GraphType = ''versionedApp'', Duration = 60000000000,
     QueryTime = 1\<rparr>"

definition shopNode :: Node where
  "shopNode = \<lparr>ID = ''s'', Node.NodeType = ''app'', Node.Namespace = ''shop_eu'', Node.Workload = [],
      Node.App = ''cart'', Node.Version = ''v1'', Node.Service = [], Node.Edges = [],
      Node.Metadata = Map.empty\<rparr>"

definition cartNode :: Node where
  "cartNode = \<lparr>ID = ''t'', Node.NodeType = ''app'', Node.Namespace = ''shop'', Node.Workload = [],
      Node.App = ''eu_cart'', Node.Version = ''v1'', Node.Service = [], Node.Edges = [],
      Node.Metadata = Map.empty\<rparr>"

definition shopHeap :: heap where
  "shopHeap = [1 \<mapsto> shopNode, 2 \<mapsto> cartNode]"

definition shopMap :: TrafficMap where
  "shopMap = [(''s'', 1), (''t'', 2)]"

definition shopRecord :: NodeData where
  "shopRecord = zeroNodeData\<lparr>NodeData.Id := ''#s'', Parent := ''#box_shop_eu_cart'',
     NodeData.NodeType := ''app'', NodeData.Namespace := ''shop_eu'', NodeData.App := ''cart'',
     NodeData.Version := ''v1''\<rparr>"

definition cartRecord :: NodeData where
  "cartRecord = zeroNodeData\<lparr>NodeData.Id := ''#t'', Parent := ''#box_shop_eu_cart'',
     NodeData.NodeType := ''app'', NodeData.Namespace := ''shop'', NodeData.App := ''eu_cart'',
     NodeData.Version := ''v1''\<rparr>"

definition shopGroup :: NodeData where
  "shopGroup = zeroNodeData\<lparr>NodeData.Id := ''#box_shop_eu_cart'', NodeData.NodeType := ''app'',
     NodeData.Namespace := ''shop_eu'', NodeData.App := ''cart'', IsGroup := ''version''\<rparr>"

definition shopConfig :: Config where
  "shopConfig = \<lparr>Timestamp = 1, Duration = 60, GraphType = ''versionedApp'',
     Elements = \<lparr>Nodes = [cartRecord, shopGroup, shopRecord], Edges = []\<rparr>\<rparr>"

section \<open>Sequencing, formatting and type assertions\<close>

lemma andThen_Inr [simp]: "andThen (Inr x) f = f x"
  by (simp add: andThen_def)

lemma andThen_Inl [simp]: "andThen (Inl e) f = Inl e"
  by (simp add: andThen_def)

lemma andThen_eq_Inr: "andThen m f = Inr y \<longleftrightarrow> (\<exists>x. m = Inr x \<and> f x = Inr y)"
  by (cases m) simp_all

lemma digits_not_Nil: "digits n \<noteq> []"
  by (subst digits.simps) simp

lemma Sprintf_f_not_Nil: "Sprintf_f p v \<noteq> []"
  by (simp add: Sprintf_f_def Let_def digits_not_Nil)

lemma getRate_absent: "md k = None \<Longrightarrow> getRate md k = Inr (Finite 0)"
  by (simp add: getRate_def)

lemma getRate_Float64: "md k = Some (Float64 x) \<Longrightarrow> getRate md k = Inr x"
  by (simp add: getRate_def assert_float64_def)

lemma assert_float64_eq_Inr: "assert_float64 v = Inr x \<longleftrightarrow> v = Float64 x"
  by (cases v) (simp_all add: assert_float64_def)

lemma assert_bool_eq_Inr: "assert_bool v = Inr b \<longleftrightarrow> v = Bool b"
  by (cases v) (simp_all add: assert_bool_def)

lemma assert_string_eq_Inr: "assert_string v = Inr s \<longleftrightarrow> v = String s"
  by (cases v) (simp_all add: assert_string_def)

lemma assert_map_eq_Inr: "assert_map v = Inr m \<longleftrightarrow> v = MapStringBool m"
  by (cases v) (simp_all add: assert_map_def)

lemma whenPresent_eq_Inr:
  "whenPresent md k assert assign x = Inr y \<longleftrightarrow>
     (md k = None \<and> y = x) \<or> (\<exists>val v. md k = Some val \<and> assert val = Inr v \<and> y = assign v x)"
  by (auto simp: whenPresent_def andThen_eq_Inr split: option.splits)

lemma getRate_typed: "getRate md k = Inr v \<Longrightarrow> typedAs isFloat64 md k"
  by (auto simp: getRate_def typedAs_def isFloat64_def assert_float64_def
      split: option.splits dyn.splits)

lemma whenPresent_typed:
  assumes "whenPresent md k assert assign x = Inr y"
    and "\<And>val v. assert val = Inr v \<Longrightarrow> is_type val"
  shows "typedAs is_type md k"
  using assms by (auto simp: whenPresent_eq_Inr typedAs_def)

lemma assert_typed:
  "assert_float64 val = Inr x \<Longrightarrow> isFloat64 val"
  "assert_bool val = Inr b \<Longrightarrow> isBool val"
  "assert_string val = Inr s \<Longrightarrow> isString val"
  "assert_map val = Inr m \<Longrightarrow> isMapStringBool val"
  by (simp_all add: assert_float64_eq_Inr assert_bool_eq_Inr assert_string_eq_Inr
        assert_map_eq_Inr isFloat64_def isBool_def isString_def isMapStringBool_def)

section \<open>The loops of buildConfig and the sort\<close>

lemma buildEdges_all2:
  "buildEdges md5 h n es edges opts = Inr edges' \<Longrightarrow>
     \<exists>ews. edges' = edges @ ews \<and>
       list_all2 (\<lambda>e ew. \<exists>edge. e = Some edge \<and> buildEdge md5 h n edge opts = Inr ew) es ews"
proof (induction es arbitrary: edges)
  case Nil
  then show ?case by simp
next
  case (Cons e es)
  from Cons.prems obtain edge ew where e: "e = Some edge"
    and ew: "buildEdge md5 h n edge opts = Inr ew"
    and rest: "buildEdges md5 h n es (edges @ [ew]) opts = Inr edges'"
    by (cases e) (auto simp: andThen_eq_Inr)
  from Cons.IH [OF rest] obtain ews where "edges' = (edges @ [ew]) @ ews"
    and "list_all2 (\<lambda>e ew. \<exists>edge. e = Some edge \<and> buildEdge md5 h n edge opts = Inr ew) es ews"
    by blast
  with e ew show ?case
    by (intro exI [of _ "ew # ews"]) simp
qed

lemma buildConfig_result:
  "buildConfig md5 h tm nodes edges opts = Inr (nodes', edges') \<Longrightarrow>
     \<exists>nws ewss. nodes' = nodes @ nws \<and> edges' = edges @ concat ewss \<and>
       list_all2 (\<lambda>(ident, a) nw. \<exists>n. h a = Some n \<and> buildNode md5 ident n = Inr nw) tm nws \<and>
       list_all2 (\<lambda>(ident, a) ews. \<exists>n. h a = Some n \<and>
          list_all2 (\<lambda>e ew. \<exists>edge. e = Some edge \<and> buildEdge md5 h n edge opts = Inr ew)
            (Node.Edges n) ews) tm ewss"
proof (induction tm arbitrary: nodes edges)
  case Nil
  then show ?case by simp
next
  case (Cons entry tm)
  obtain k b where entry: "entry = (k, b)" by (cases entry)
  from Cons.prems(1) entry obtain m nw es where m: "h b = Some m"
    and nw: "buildNode md5 k m = Inr nw"
    and es: "buildEdges md5 h m (Node.Edges m) edges opts = Inr es"
    and rest: "buildConfig md5 h tm (nodes @ [nw]) es opts = Inr (nodes', edges')"
    by (auto simp: andThen_eq_Inr split: option.splits)
  from buildEdges_all2 [OF es] obtain ews where ews: "es = edges @ ews"
    and all2: "list_all2 (\<lambda>e ew. \<exists>edge. e = Some edge \<and> buildEdge md5 h m edge opts = Inr ew)
                 (Node.Edges m) ews"
    by blast
  from Cons.IH [OF rest] obtain nws ewss where
    "nodes' = (nodes @ [nw]) @ nws" "edges' = es @ concat ewss"
    "list_all2 (\<lambda>(ident, a) nw. \<exists>n. h a = Some n \<and> buildNode md5 ident n = Inr nw) tm nws"
    "list_all2 (\<lambda>(ident, a) ews. \<exists>n. h a = Some n \<and>
          list_all2 (\<lambda>e ew. \<exists>edge. e = Some edge \<and> buildEdge md5 h n edge opts = Inr ew)
            (Node.Edges n) ews) tm ewss"
    by blast
  with entry m nw ews all2 show ?case
    by (intro exI [of _ "nw # nws"] exI [of _ "ews # ewss"]) simp
qed

lemma mset_insertion: "mset (insertion lessFn placed x) = add_mset x (mset placed)"
  by (induction placed) simp_all

lemma mset_foldl_insertion: "mset (foldl (insertion lessFn) placed xs) = mset placed + mset xs"
  by (induction xs arbitrary: placed) (simp_all add: mset_insertion)

lemma mset_sort_Slice: "mset (sort_Slice lessFn xs) = mset xs"
  by (simp add: sort_Slice_def mset_foldl_insertion)

lemma set_sort_Slice: "set (sort_Slice lessFn xs) = set xs"
  using mset_sort_Slice [of lessFn xs] by (metis set_mset_mset)

section \<open>Edge records\<close>

lemmas edge_field_if =
  if_distrib [of EdgeData.Id] if_distrib [of EdgeData.Source] if_distrib [of Target]
  if_distrib [of HttpPercentReq] if_distrib [of EdgeData.IsUnused]
  if_distrib [of Http3xx] if_distrib [of Http4xx] if_distrib [of Http5xx]
  if_distrib [of ResponseTime]

lemma addEdgeTelemetry_http:
  assumes "addEdgeTelemetry h ed e opts = Inr ed'"
    and "getRate (Edge.Metadata e) ''http'' = Inr http" and "fgt http (Finite 0)"
  shows "\<exists>source httpOut. h (Edge.Source e) = Some source \<and>
           getRate (Node.Metadata source) ''httpOut'' = Inr httpOut \<and>
           HttpPercentReq ed' =
             (if flt (fmul (fdiv http httpOut) (Finite 100)) (Finite 100)
              then Sprintf_f 1 (fmul (fdiv http httpOut) (Finite 100)) else HttpPercentReq ed) \<and>
           EdgeData.IsUnused ed' = EdgeData.IsUnused ed \<and>
           EdgeData.Id ed' = EdgeData.Id ed \<and> EdgeData.Source ed' = EdgeData.Source ed \<and>
           Target ed' = Target ed \<and>
           list_all (typedAs isFloat64 (Edge.Metadata e))
             [''http3xx'', ''http4xx'', ''http5xx'', ''responseTime'', ''tcp''] \<and>
           typedAs isBool (Edge.Metadata e) ''isMTLS''"
proof -
  from assms obtain ed1 ed2 tcp where
    ed1: "andThen (getRate (Edge.Metadata e) ''http3xx'') (\<lambda>http3xx.
          andThen (getRate (Edge.Metadata e) ''http4xx'') (\<lambda>http4xx.
          andThen (getRate (Edge.Metadata e) ''http5xx'') (\<lambda>http5xx.
          let httpErr = fadd http4xx http5xx;
              httpPercentErr = fmul (fdiv httpErr http) (Finite 100);
              ed = ed\<lparr>Http := Sprintf_f 2 http\<rparr>;
              ed = (if fgt http3xx (Finite 0) then ed\<lparr>Http3xx := Sprintf_f 2 http3xx\<rparr> else ed);
              ed = (if fgt http4xx (Finite 0) then ed\<lparr>Http4xx := Sprintf_f 2 http4xx\<rparr> else ed);
              ed = (if fgt http5xx (Finite 0) then ed\<lparr>Http5xx := Sprintf_f 2 http5xx\<rparr> else ed);
              ed = (if fgt httpPercentErr (Finite 0)
                    then ed\<lparr>HttpPercentErr := Sprintf_f 1 httpPercentErr\<rparr> else ed)
          in
          andThen (whenPresent (Edge.Metadata e) ''responseTime'' assert_float64
                     (\<lambda>responseTime ed. ed\<lparr>ResponseTime := Sprintf_f 0 responseTime\<rparr>) ed) (\<lambda>ed.
          case h (Edge.Source e) of
            None \<Rightarrow> Inl NilDereference
          | Some source \<Rightarrow>
              andThen (getRate (Node.Metadata source) ''httpOut'') (\<lambda>httpOut.
              let httpPercentReq = fmul (fdiv http httpOut) (Finite 100)
              in Inr (if flt httpPercentReq (Finite 100)
                      then ed\<lparr>HttpPercentReq := Sprintf_f 1 httpPercentReq\<rparr> else ed)))))) = Inr ed1"
    and ed2: "whenPresent (Edge.Metadata e) ''isMTLS'' assert_bool
                (\<lambda>val ed. ed\<lparr>IsMTLS := val\<rparr>) ed1 = Inr ed2"
    and tcp: "getRate (Edge.Metadata e) ''tcp'' = Inr tcp"
    and ed': "ed' = (if fgt tcp (Finite 0) then ed2\<lparr>Tcp := Sprintf_f 2 tcp\<rparr> else ed2)"
    unfolding addEdgeTelemetry_def by (simp add: andThen_eq_Inr) blast
  from ed1 obtain http3xx http4xx http5xx ed0 ed3 source httpOut where
    r3: "getRate (Edge.Metadata e) ''http3xx'' = Inr http3xx"
    and r4: "getRate (Edge.Metadata e) ''http4xx'' = Inr http4xx"
    and r5: "getRate (Edge.Metadata e) ''http5xx'' = Inr http5xx"
    and ed0: "ed0 = (let httpErr = fadd http4xx http5xx;
              httpPercentErr = fmul (fdiv httpErr http) (Finite 100);
              ed = ed\<lparr>Http := Sprintf_f 2 http\<rparr>;
              ed = (if fgt http3xx (Finite 0) then ed\<lparr>Http3xx := Sprintf_f 2 http3xx\<rparr> else ed);
              ed = (if fgt http4xx (Finite 0) then ed\<lparr>Http4xx := Sprintf_f 2 http4xx\<rparr> else ed);
              ed = (if fgt http5xx (Finite 0) then ed\<lparr>Http5xx := Sprintf_f 2 http5xx\<rparr> else ed)
              in (if fgt httpPercentErr (Finite 0)
                    then ed\<lparr>HttpPercentErr := Sprintf_f 1 httpPercentErr\<rparr> else ed))"
    and ed3: "whenPresent (Edge.Metadata e) ''responseTime'' assert_float64
                     (\<lambda>responseTime ed. ed\<lparr>ResponseTime := Sprintf_f 0 responseTime\<rparr>) ed0 = Inr ed3"
    and src: "h (Edge.Source e) = Some source"
    and out: "getRate (Node.Metadata source) ''httpOut'' = Inr httpOut"
    and ed1': "ed1 = (if flt (fmul (fdiv http httpOut) (Finite 100)) (Finite 100)
                      then ed3\<lparr>HttpPercentReq := Sprintf_f 1 (fmul (fdiv http httpOut) (Finite 100))\<rparr> else ed3)"
    by (auto simp: andThen_eq_Inr Let_def split: option.splits)
  have f0: "HttpPercentReq ed0 = HttpPercentReq ed \<and> EdgeData.IsUnused ed0 = EdgeData.IsUnused ed \<and>
           EdgeData.Id ed0 = EdgeData.Id ed \<and> EdgeData.Source ed0 = EdgeData.Source ed \<and>
           Target ed0 = Target ed"
    unfolding ed0 Let_def by (simp add: edge_field_if cong: if_cong)
  have f3: "HttpPercentReq ed3 = HttpPercentReq ed0 \<and> EdgeData.IsUnused ed3 = EdgeData.IsUnused ed0 \<and>
           EdgeData.Id ed3 = EdgeData.Id ed0 \<and> EdgeData.Source ed3 = EdgeData.Source ed0 \<and>
           Target ed3 = Target ed0"
    using ed3 by (auto simp: whenPresent_eq_Inr)
  have f2: "HttpPercentReq ed2 = HttpPercentReq ed1 \<and> EdgeData.IsUnused ed2 = EdgeData.IsUnused ed1 \<and>
           EdgeData.Id ed2 = EdgeData.Id ed1 \<and> EdgeData.Source ed2 = EdgeData.Source ed1 \<and>
           Target ed2 = Target ed1"
    using ed2 by (auto simp: whenPresent_eq_Inr)
  have f': "HttpPercentReq ed' = HttpPercentReq ed2 \<and> EdgeData.IsUnused ed' = EdgeData.IsUnused ed2 \<and>
           EdgeData.Id ed' = EdgeData.Id ed2 \<and> EdgeData.Source ed' = EdgeData.Source ed2 \<and>
           Target ed' = Target ed2"
    unfolding ed' by simp
  have typed: "list_all (typedAs isFloat64 (Edge.Metadata e))
             [''http3xx'', ''http4xx'', ''http5xx'', ''responseTime'', ''tcp''] \<and>
           typedAs isBool (Edge.Metadata e) ''isMTLS''"
    using getRate_typed [OF r3] getRate_typed [OF r4] getRate_typed [OF r5] getRate_typed [OF tcp]
      whenPresent_typed [OF ed3 assert_typed(1)] whenPresent_typed [OF ed2 assert_typed(2)]
    by simp
  from f0 f3 f2 f' src out typed show ?thesis
    unfolding ed1' by simp
qed

lemma addEdgeTelemetry_no_http:
  assumes "addEdgeTelemetry h ed e opts = Inr ed'"
    and "getRate (Edge.Metadata e) ''http'' = Inr http" and "\<not> fgt http (Finite 0)"
  shows "\<exists>source. h (Edge.Source e) = Some source \<and>
           (case Node.Metadata source ''isUnused'' of
              None \<Rightarrow> EdgeData.IsUnused ed' = EdgeData.IsUnused ed
            | Some val \<Rightarrow> val = Bool (EdgeData.IsUnused ed')) \<and>
           HttpPercentReq ed' = HttpPercentReq ed \<and>
           EdgeData.Id ed' = EdgeData.Id ed \<and> EdgeData.Source ed' = EdgeData.Source ed \<and>
           Target ed' = Target ed \<and>
           Http3xx ed' = Http3xx ed \<and> Http4xx ed' = Http4xx ed \<and> Http5xx ed' = Http5xx ed \<and>
           ResponseTime ed' = ResponseTime ed \<and>
           typedAs isBool (Node.Metadata source) ''isUnused'' \<and>
           typedAs isFloat64 (Edge.Metadata e) ''tcp'' \<and>
           typedAs isBool (Edge.Metadata e) ''isMTLS''"
proof -
  from assms obtain source ed1 ed2 tcp where
    src: "h (Edge.Source e) = Some source"
    and ed1: "whenPresent (Node.Metadata source) ''isUnused'' assert_bool
                 (\<lambda>val ed. ed\<lparr>EdgeData.IsUnused := val\<rparr>) ed = Inr ed1"
    and ed2: "whenPresent (Edge.Metadata e) ''isMTLS'' assert_bool
                (\<lambda>val ed. ed\<lparr>IsMTLS := val\<rparr>) ed1 = Inr ed2"
    and tcp: "getRate (Edge.Metadata e) ''tcp'' = Inr tcp"
    and ed': "ed' = (if fgt tcp (Finite 0) then ed2\<lparr>Tcp := Sprintf_f 2 tcp\<rparr> else ed2)"
    unfolding addEdgeTelemetry_def by (auto simp: andThen_eq_Inr split: option.splits)
  have f1: "(case Node.Metadata source ''isUnused'' of
              None \<Rightarrow> EdgeData.IsUnused ed1 = EdgeData.IsUnused ed
            | Some val \<Rightarrow> val = Bool (EdgeData.IsUnused ed1)) \<and>
           HttpPercentReq ed1 = HttpPercentReq ed \<and>
           EdgeData.Id ed1 = EdgeData.Id ed \<and> EdgeData.Source ed1 = EdgeData.Source ed \<and>
           Target ed1 = Target ed \<and>
           Http3xx ed1 = Http3xx ed \<and> Http4xx ed1 = Http4xx ed \<and> Http5xx ed1 = Http5xx ed \<and>
           ResponseTime ed1 = ResponseTime ed"
    using ed1 by (auto simp: whenPresent_eq_Inr assert_bool_eq_Inr)
  have f2: "HttpPercentReq ed2 = HttpPercentReq ed1 \<and> EdgeData.IsUnused ed2 = EdgeData.IsUnused ed1 \<and>
           EdgeData.Id ed2 = EdgeData.Id ed1 \<and> EdgeData.Source ed2 = EdgeData.Source ed1 \<and>
           Target ed2 = Target ed1 \<and>
           Http3xx ed2 = Http3xx ed1 \<and> Http4xx ed2 = Http4xx ed1 \<and> Http5xx ed2 = Http5xx ed1 \<and>
           ResponseTime ed2 = ResponseTime ed1"
    using ed2 by (auto simp: whenPresent_eq_Inr)
  have f': "HttpPercentReq ed' = HttpPercentReq ed2 \<and> EdgeData.IsUnused ed' = EdgeData.IsUnused ed2 \<and>
           EdgeData.Id ed' = EdgeData.Id ed2 \<and> EdgeData.Source ed' = EdgeData.Source ed2 \<and>
           Target ed' = Target ed2 \<and>
           Http3xx ed' = Http3xx ed2 \<and> Http4xx ed' = Http4xx ed2 \<and> Http5xx ed' = Http5xx ed2 \<and>
           ResponseTime ed' = ResponseTime ed2"
    unfolding ed' by simp
  have typed: "typedAs isBool (Node.Metadata source) ''isUnused'' \<and>
           typedAs isFloat64 (Edge.Metadata e) ''tcp'' \<and>
           typedAs isBool (Edge.Metadata e) ''isMTLS''"
    using whenPresent_typed [OF ed1 assert_typed(2)] whenPresent_typed [OF ed2 assert_typed(2)]
      getRate_typed [OF tcp]
    by simp
  from f1 f2 f' src typed show ?thesis
    by (simp split: option.splits)
qed

lemma addEdgeTelemetry_getRate:
  "addEdgeTelemetry h ed e opts = Inr ed' \<Longrightarrow> \<exists>http. getRate (Edge.Metadata e) ''http'' = Inr http"
  unfolding addEdgeTelemetry_def by (auto simp: andThen_eq_Inr)

lemma addEdgeTelemetry_ident:
  assumes "addEdgeTelemetry h ed e opts = Inr ed'"
  shows "EdgeData.Id ed' = EdgeData.Id ed \<and> EdgeData.Source ed' = EdgeData.Source ed
           \<and> Target ed' = Target ed"
proof -
  from addEdgeTelemetry_getRate [OF assms] obtain http
    where http: "getRate (Edge.Metadata e) ''http'' = Inr http" ..
  show ?thesis
  proof (cases "fgt http (Finite 0)")
    case True
    from addEdgeTelemetry_http [OF assms http True] show ?thesis by blast
  next
    case False
    from addEdgeTelemetry_no_http [OF assms http False] show ?thesis by blast
  qed
qed

lemma buildEdge_eq_Inr:
  assumes "buildEdge md5 h n e opts = Inr ed"
  shows "\<exists>dest protocol. h (Edge.Dest e) = Some dest \<and>
           (case Edge.Metadata e ''protocol'' of
              None \<Rightarrow> Inr [] | Some Nil \<Rightarrow> Inr [] | Some val \<Rightarrow> assert_string val) = Inr protocol \<and>
           addEdgeTelemetry h
             (zeroEdgeData\<lparr>EdgeData.Id := edgeHash md5 (nodeHash md5 (Node.ID n)) (nodeHash md5 (Node.ID dest)) protocol,
                EdgeData.Source := nodeHash md5 (Node.ID n), Target := nodeHash md5 (Node.ID dest)\<rparr>) e opts = Inr ed"
  using assms unfolding buildEdge_def Let_def
  by (cases "h (Edge.Dest e)") (simp_all add: andThen_eq_Inr)

lemma buildEdge_ident:
  assumes "buildEdge md5 h n e opts = Inr ed"
  shows "\<exists>dest protocol. h (Edge.Dest e) = Some dest \<and>
           (case Edge.Metadata e ''protocol'' of
              None \<Rightarrow> Inr [] | Some Nil \<Rightarrow> Inr [] | Some val \<Rightarrow> assert_string val) = Inr protocol \<and>
           EdgeData.Id ed = edgeHash md5 (nodeHash md5 (Node.ID n)) (nodeHash md5 (Node.ID dest)) protocol \<and>
           EdgeData.Source ed = nodeHash md5 (Node.ID n) \<and> Target ed = nodeHash md5 (Node.ID dest)"
proof -
  from buildEdge_eq_Inr [OF assms] obtain dest protocol where
    "h (Edge.Dest e) = Some dest"
    "(case Edge.Metadata e ''protocol'' of
              None \<Rightarrow> Inr [] | Some Nil \<Rightarrow> Inr [] | Some val \<Rightarrow> assert_string val) = Inr protocol"
    and tel: "addEdgeTelemetry h
             (zeroEdgeData\<lparr>EdgeData.Id := edgeHash md5 (nodeHash md5 (Node.ID n)) (nodeHash md5 (Node.ID dest)) protocol,
                EdgeData.Source := nodeHash md5 (Node.ID n), Target := nodeHash md5 (Node.ID dest)\<rparr>) e opts = Inr ed"
    by blast
  with addEdgeTelemetry_ident [OF tel] show ?thesis by simp
qed

lemma nth_pair_subset_mset:
  assumes "i < j" and "j < length xs"
  shows "{#xs ! i, xs ! j#} \<subseteq># mset xs"
proof -
  have "xs ! i = take j xs ! i" and "i < length (take j xs)"
    using assms by simp_all
  then have "xs ! i \<in> set (take j xs)"
    by (metis nth_mem)
  then have a: "{#xs ! i#} \<subseteq># mset (take j xs)"
    by simp
  have "drop j xs = xs ! j # drop (Suc j) xs"
    using assms by (simp add: Cons_nth_drop_Suc)
  then have b: "{#xs ! j#} \<subseteq># mset (drop j xs)"
    by simp
  have "mset xs = mset (take j xs) + mset (drop j xs)"
    by (metis append_take_drop_id mset_append)
  with subset_mset.add_mono [OF a b] show ?thesis
    by (simp add: add_mset_commute)
qed

subsection \<open>The percentage of the requests of the source\<close>

lemma binade_up_numeral:
  "binade_up (numeral k) a e =
     (if pow2 (e + 1) \<le> a then binade_up (pred_numeral k) a (e + 1) else e)"
  by (simp add: numeral_eq_Suc)

lemma binade_down_numeral:
  "binade_down (numeral k) a e = (if pow2 e \<le> a then e else binade_down (pred_numeral k) a (e - 1))"
  by (simp add: numeral_eq_Suc)

lemmas round64_eval = round64_def binade_def binade_up_numeral binade_down_numeral pow2_def
  round_half_even_def Let_def signed_zero_def signed_inf_def

lemma round64_1: "round64 1 = Finite 1"
  by (simp add: round64_eval)

lemma round64_100: "round64 100 = Finite 100"
  by (simp add: round64_eval)

lemma fdiv_self_not_lt:
  assumes "fgt http (Finite 0)"
  shows "\<not> flt (fmul (fdiv http http) (Finite 100)) (Finite 100)"
proof (cases http)
  case (Finite x)
  with assms have "0 < x"
    by (simp add: fgt_def)
  then have "fdiv http http = Finite 1"
    by (simp add: Finite fdiv_def round64_1)
  then show ?thesis
    by (simp add: fmul_def round64_100)
qed (use assms in \<open>simp_all add: fgt_def fdiv_def fmul_def\<close>)

lemma getRate_rate: "getRate md k = Inr v \<Longrightarrow> rate md k = v"
  by (auto simp: getRate_def rate_def assert_float64_def split: option.splits dyn.splits)

lemma positiveRate_getRate:
  assumes "positiveRate md k"
  shows "getRate md k = Inr (rate md k)" and "fgt (rate md k) (Finite 0)"
  using assms
  by (auto simp: positiveRate_def getRate_def rate_def assert_float64_def
      split: option.splits dyn.splits)

text \<open>
  C6. For an edge whose HTTP rate is strictly greater than zero, the field httpPercentReq
  is in the edge record exactly when the computed value, the rate of the edge divided by
  the httpOut rate of its source node, times 100, is strictly less than 100, and holds
  that value with one decimal; an edge whose rate equals the httpOut rate of its source
  has no such field.
\<close>

theorem httpPercentReq_present_iff:
  assumes "buildEdge md5 h n e opts = Inr ed"
    and "positiveRate (Edge.Metadata e) ''http''"
  shows "\<exists>source. h (Edge.Source e) = Some source \<and>
           (HttpPercentReq ed \<noteq> [] \<longleftrightarrow> flt (percentOfSource e source) (Finite 100)) \<and>
           (HttpPercentReq ed \<noteq> [] \<longrightarrow>
              HttpPercentReq ed = Sprintf_f 1 (percentOfSource e source)) \<and>
           (rate (Edge.Metadata e) ''http'' = rate (Node.Metadata source) ''httpOut'' \<longrightarrow>
              HttpPercentReq ed = [])"
proof -
  from buildEdge_eq_Inr [OF assms(1)] obtain dest :: Node and protocol where
    tel: "addEdgeTelemetry h
             (zeroEdgeData\<lparr>EdgeData.Id := edgeHash md5 (nodeHash md5 (Node.ID n)) (nodeHash md5 (Node.ID dest)) protocol,
                EdgeData.Source := nodeHash md5 (Node.ID n), Target := nodeHash md5 (Node.ID dest)\<rparr>) e opts = Inr ed"
    by auto
  let ?http = "rate (Edge.Metadata e) ''http''"
  note http = positiveRate_getRate [OF assms(2)]
  from addEdgeTelemetry_http [OF tel http] obtain source httpOut where
    src: "h (Edge.Source e) = Some source"
    and out: "getRate (Node.Metadata source) ''httpOut'' = Inr httpOut"
    and req: "HttpPercentReq ed =
             (if flt (fmul (fdiv ?http httpOut) (Finite 100)) (Finite 100)
              then Sprintf_f 1 (fmul (fdiv ?http httpOut) (Finite 100)) else [])"
    by (auto simp: zeroEdgeData_def)
  from out have httpOut: "httpOut = rate (Node.Metadata source) ''httpOut''"
    by (simp add: getRate_rate)
  from req have field: "HttpPercentReq ed =
             (if flt (percentOfSource e source) (Finite 100)
              then Sprintf_f 1 (percentOfSource e source) else [])"
    by (simp add: httpOut percentOfSource_def)
  have "\<not> flt (percentOfSource e source) (Finite 100)"
    if "?http = rate (Node.Metadata source) ''httpOut''"
    using fdiv_self_not_lt [OF http(2)] that by (simp add: percentOfSource_def)
  with field have "?http = rate (Node.Metadata source) ''httpOut'' \<longrightarrow> HttpPercentReq ed = []"
    by simp
  with src field show ?thesis
    by (simp add: Sprintf_f_not_Nil)
qed

lemmas telemetry_defs =
  getRate_def whenPresent_def assert_float64_def assert_bool_def assert_string_def assert_map_def
  fgt_def Let_def

lemmas Sprintf_f_eval = Sprintf_f_def round_half_even_def digits.simps digit_def numeral_2_eq_2

lemmas float64_eval = fadd_def fmul_def fdiv_def round64_eval

lemma halfEdge_built:
  "buildEdge exampleDigest exHeap busyNode halfEdge exOpts = Inr halfRecord"
  by (simp add: buildEdge_def addEdgeTelemetry_def telemetry_defs float64_eval Sprintf_f_eval
        exHeap_def halfEdge_def busyNode_def idleNode_def nodeHash_def edgeHash_def
        exampleDigest_def halfRecord_def)

lemma shareEdge_built:
  "buildEdge exampleDigest shareHeap shareNode shareEdge exOpts = Inr shareRecord"
  by (simp add: buildEdge_def addEdgeTelemetry_def telemetry_defs float64_eval Sprintf_f_eval
        shareHeap_def shareEdge_def shareNode_def idleNode_def nodeHash_def edgeHash_def
        exampleDigest_def shareRecord_def)

text \<open>
  Against a source whose httpOut is the negative zero the quotient is the negative
  infinity, which is less than 100 and is printed.
\<close>

lemma percent_of_negative_zero:
  "flt (fmul (fdiv (Finite 23) NegZero) (Finite 100)) (Finite 100)
   \<and> Sprintf_f 1 (fmul (fdiv (Finite 23) NegZero) (Finite 100)) = ''-Inf''"
  by (simp add: fdiv_def fmul_def signed_inf_def Sprintf_f_def)

theorem httpPercentReq_present_iff_witness:
  "buildEdge exampleDigest shareHeap shareNode shareEdge exOpts = Inr shareRecord
   \<and> positiveRate (Edge.Metadata shareEdge) ''http''
   \<and> shareHeap (Edge.Source shareEdge) = Some shareNode
   \<and> percentOfSource shareEdge shareNode = Finite (8092405580431359 / 281474976710656)
   \<and> flt (percentOfSource shareEdge shareNode) (Finite 100)
   \<and> HttpPercentReq shareRecord = ''28.7''
   \<and> Sprintf_f 1 (percentOfSource shareEdge shareNode) = ''28.7''"
proof -
  have pos: "positiveRate (Edge.Metadata shareEdge) ''http''"
    by (simp add: shareEdge_def positiveRate_def fgt_def)
  have src: "shareHeap (Edge.Source shareEdge) = Some shareNode"
    by (simp add: shareHeap_def shareEdge_def)
  have percent: "percentOfSource shareEdge shareNode = Finite (8092405580431359 / 281474976710656)"
    by (simp add: percentOfSource_def rate_def shareEdge_def shareNode_def float64_eval)
  have field: "HttpPercentReq shareRecord = ''28.7''"
    by (simp add: shareRecord_def zeroEdgeData_def)
  from httpPercentReq_present_iff [OF shareEdge_built pos] src field
  have "flt (percentOfSource shareEdge shareNode) (Finite 100)"
    and "Sprintf_f 1 (percentOfSource shareEdge shareNode) = ''28.7''"
    by simp_all
  with shareEdge_built pos src percent field show ?thesis
    by simp
qed

lemma getRate_positiveRate: "getRate md k = Inr v \<Longrightarrow> positiveRate md k = fgt v (Finite 0)"
  by (auto simp: getRate_def positiveRate_def assert_float64_def fgt_def
      split: option.splits dyn.splits)

text \<open>
  C8. For an edge whose HTTP rate is not strictly greater than zero (zero or absent in
  particular), isUnused of the edge record is the value of the entry isUnused in the
  metadata of the edge's source node when that entry is present, and false (left out of
  the document) otherwise; an edge whose HTTP rate is strictly greater than zero never
  gets isUnused.
\<close>

theorem isUnused_copied_from_source:
  assumes "buildEdge md5 h n e opts = Inr ed"
  shows "if positiveRate (Edge.Metadata e) ''http'' then \<not> EdgeData.IsUnused ed
         else (\<exists>source. h (Edge.Source e) = Some source \<and>
                 (case Node.Metadata source ''isUnused'' of
                    None \<Rightarrow> \<not> EdgeData.IsUnused ed
                  | Some val \<Rightarrow> val = Bool (EdgeData.IsUnused ed)))"
proof -
  from buildEdge_eq_Inr [OF assms(1)] obtain dest :: Node and protocol where
    tel: "addEdgeTelemetry h
             (zeroEdgeData\<lparr>EdgeData.Id := edgeHash md5 (nodeHash md5 (Node.ID n)) (nodeHash md5 (Node.ID dest)) protocol,
                EdgeData.Source := nodeHash md5 (Node.ID n), Target := nodeHash md5 (Node.ID dest)\<rparr>) e opts = Inr ed"
    by auto
  from addEdgeTelemetry_getRate [OF tel] obtain http
    where http: "getRate (Edge.Metadata e) ''http'' = Inr http" ..
  note positive = getRate_positiveRate [OF http]
  show ?thesis
  proof (cases "fgt http (Finite 0)")
    case True
    from addEdgeTelemetry_http [OF tel http True] show ?thesis
      using True positive by (auto simp: zeroEdgeData_def)
  next
    case False
    from addEdgeTelemetry_no_http [OF tel http False] show ?thesis
      using False positive by (auto simp: zeroEdgeData_def split: option.splits)
  qed
qed

lemma quietEdge_built:
  "buildEdge exampleDigest unusedHeap unusedNode quietEdge exOpts = Inr quietRecord"
  by (simp add: buildEdge_def addEdgeTelemetry_def telemetry_defs unusedHeap_def quietRecord_def
        quietEdge_def unusedNode_def idleNode_def nodeHash_def edgeHash_def exampleDigest_def)

lemma busyEdge_built:
  "buildEdge exampleDigest unusedHeap unusedNode busyEdge exOpts = Inr busyEdgeRecord"
  by (simp add: buildEdge_def addEdgeTelemetry_def telemetry_defs float64_eval Sprintf_f_eval
        unusedHeap_def busyEdgeRecord_def busyEdge_def unusedNode_def idleNode_def nodeHash_def
        edgeHash_def exampleDigest_def)

theorem isUnused_copied_from_source_witness:
  "buildEdge exampleDigest unusedHeap unusedNode quietEdge exOpts = Inr quietRecord
   \<and> buildEdge exampleDigest unusedHeap unusedNode busyEdge exOpts = Inr busyEdgeRecord
   \<and> Edge.Metadata quietEdge ''http'' = None
   \<and> Edge.Metadata busyEdge ''http'' = Some (Float64 (Finite 5))
   \<and> unusedHeap (Edge.Source quietEdge) = Some unusedNode
   \<and> unusedHeap (Edge.Source busyEdge) = Some unusedNode
   \<and> Node.Metadata unusedNode ''isUnused'' = Some (Bool True)
   \<and> EdgeData.IsUnused quietRecord
   \<and> \<not> EdgeData.IsUnused busyEdgeRecord"
proof -
  have quiet: "\<not> positiveRate (Edge.Metadata quietEdge) ''http''"
    and busy: "positiveRate (Edge.Metadata busyEdge) ''http''"
    by (simp_all add: quietEdge_def busyEdge_def positiveRate_def fgt_def)
  have src: "unusedHeap (Edge.Source quietEdge) = Some unusedNode"
    "unusedHeap (Edge.Source busyEdge) = Some unusedNode"
    by (simp_all add: unusedHeap_def quietEdge_def busyEdge_def)
  have flag: "Node.Metadata unusedNode ''isUnused'' = Some (Bool True)"
    by (simp add: unusedNode_def)
  from isUnused_copied_from_source [OF quietEdge_built] quiet src(1) flag
  have copied: "EdgeData.IsUnused quietRecord"
    by simp
  from isUnused_copied_from_source [OF busyEdge_built] busy
  have skipped: "\<not> EdgeData.IsUnused busyEdgeRecord"
    by simp
  from quietEdge_built busyEdge_built src flag copied skipped show ?thesis
    by (simp add: quietEdge_def busyEdge_def)
qed

lemma NewConfig_eq_Inr:
  assumes "NewConfig md5 rangeOrder h trafficMap opts = Inr cfg"
  shows "\<exists>nodes edges. buildConfig md5 h trafficMap [] [] opts = Inr (nodes, edges) \<and>
        cfg = \<lparr>Timestamp = QueryTime opts, Duration = Seconds (VendorOptions.Duration opts),
                GraphType = VendorOptions.GraphType opts,
                Elements = \<lparr>Nodes = sort_Slice nodeLess
                   (if GroupBy opts = GroupByApp then
                      (if VendorOptions.GraphType opts \<noteq> GraphTypeService
                       then groupByApp md5 rangeOrder nodes else nodes)
                    else if GroupBy opts = GroupByVersion then
                      (if VendorOptions.GraphType opts = GraphTypeVersionedApp
                       then groupByVersion md5 rangeOrder nodes else nodes)
                    else nodes),
                  Edges = sort_Slice edgeLess edges\<rparr>\<rparr>"
proof (cases "buildConfig md5 h trafficMap [] [] opts")
  case (Inl e)
  with assms show ?thesis
    by (simp add: NewConfig_def)
next
  case (Inr p)
  obtain nodes edges where p: "p = (nodes, edges)"
    by (cases p)
  from assms Inr p show ?thesis
    unfolding NewConfig_def Let_def by (simp split del: if_split)
qed

lemma mset_subset_concat: "xs \<in> set xss \<Longrightarrow> mset xs \<subseteq># mset (concat xss)"
proof (induction xss)
  case Nil
  then show ?case by simp
next
  case (Cons ys xss)
  then show ?case
    by (auto intro: subset_mset.add_increasing)
qed

lemma protocol_label:
  assumes "(case Edge.Metadata e ''protocol'' of
              None \<Rightarrow> Inr [] | Some Nil \<Rightarrow> Inr [] | Some val \<Rightarrow> assert_string val) = Inr protocol"
  shows "protocol = protocolLabel e"
  using assms
  by (auto simp: protocolLabel_def assert_string_def split: option.splits dyn.splits)

lemma buildEdge_id:
  assumes "buildEdge md5 h n e opts = Inr ed"
  shows "\<exists>dest. h (Edge.Dest e) = Some dest \<and>
           EdgeData.Id ed =
             edgeHash md5 (nodeHash md5 (Node.ID n)) (nodeHash md5 (Node.ID dest)) (protocolLabel e)"
  using buildEdge_ident [OF assms] by (auto dest: protocol_label)

text \<open>
  C10. Edge ids are not unique: two edges at different positions of one node's edge
  list that have the same destination and the same protocol label (the same string, or
  none for either) give two records of the output document with the same id, the hash
  of the hashed source id, the hashed destination id and the protocol.
\<close>

theorem edge_ids_shared:
  assumes "NewConfig md5 rangeOrder h trafficMap opts = Inr cfg"
    and "(ident, a) \<in> set trafficMap" and "h a = Some n"
    and "i < j" and "j < length (Node.Edges n)"
    and "Node.Edges n ! i = Some e1" and "Node.Edges n ! j = Some e2"
    and "Edge.Dest e1 = Edge.Dest e2"
    and "protocolLabel e1 = protocolLabel e2"
  shows "\<exists>ed1 ed2. buildEdge md5 h n e1 opts = Inr ed1 \<and>
           buildEdge md5 h n e2 opts = Inr ed2 \<and>
           {#ed1, ed2#} \<subseteq># mset (Edges (Elements cfg)) \<and>
           EdgeData.Id ed1 = EdgeData.Id ed2"
proof -
  from assms(1) obtain nodes edges where
    built: "buildConfig md5 h trafficMap [] [] opts = Inr (nodes, edges)"
    and out: "Edges (Elements cfg) = sort_Slice edgeLess edges"
    using NewConfig_eq_Inr [OF assms(1)] by auto
  from buildConfig_result [OF built] obtain ewss where
    edges: "edges = concat ewss"
    and all2: "list_all2 (\<lambda>(ident, a) ews. \<exists>n. h a = Some n \<and>
          list_all2 (\<lambda>e ew. \<exists>edge. e = Some edge \<and> buildEdge md5 h n edge opts = Inr ew)
            (Node.Edges n) ews) trafficMap ewss"
    by auto
  from assms(2) obtain p where p: "p < length trafficMap" "trafficMap ! p = (ident, a)"
    by (auto simp: in_set_conv_nth)
  from all2 p have len: "p < length ewss"
    by (simp add: list_all2_lengthD)
  from list_all2_nthD [OF all2 p(1)] p(2) assms(3)
  have ews: "list_all2 (\<lambda>e ew. \<exists>edge. e = Some edge \<and> buildEdge md5 h n edge opts = Inr ew)
               (Node.Edges n) (ewss ! p)"
    by simp
  let ?ews = "ewss ! p"
  have lens: "length ?ews = length (Node.Edges n)"
    using ews by (simp add: list_all2_lengthD)
  have b1: "buildEdge md5 h n e1 opts = Inr (?ews ! i)"
    using list_all2_nthD [OF ews, of i] assms(4,5,6) by simp
  have b2: "buildEdge md5 h n e2 opts = Inr (?ews ! j)"
    using list_all2_nthD [OF ews, of j] assms(5,7) by simp
  have "{#?ews ! i, ?ews ! j#} \<subseteq># mset ?ews"
    using assms(4,5) lens by (simp add: nth_pair_subset_mset)
  also have "mset ?ews \<subseteq># mset (concat ewss)"
    using len by (simp add: mset_subset_concat)
  finally have sub: "{#?ews ! i, ?ews ! j#} \<subseteq># mset (Edges (Elements cfg))"
    by (simp add: out edges mset_sort_Slice)
  from buildEdge_id [OF b1] buildEdge_id [OF b2] assms(8,9)
  have "EdgeData.Id (?ews ! i) = EdgeData.Id (?ews ! j)"
    by auto
  with b1 b2 sub show ?thesis
    by blast
qed

lemmas build_defs = buildNode_def addNodeTelemetry_def buildEdge_def addEdgeTelemetry_def
  telemetry_defs nodeHash_def edgeHash_def zeroNodeData_def zeroEdgeData_def

lemmas group_defs = groupByApp_def groupByVersion_def boxKey_def enumerate_eq_zip Let_def
  GroupByApp_def GroupByVersion_def GraphTypeService_def GraphTypeVersionedApp_def NodeTypeApp_def

lemmas sort_defs = sort_Slice_def nodeLess_def edgeLess_def

lemma Seconds_minute: "Seconds 60000000000 = 60"
  by (simp add: Seconds_def quo_def rem_def float64_of_int_def int64_of_float64_def float64_eval)

text \<open>
  The sum of the two parts is rounded before the fraction is dropped: one nanosecond
  short of 16777217 seconds is 16777217 seconds.
\<close>

lemma Seconds_rounded: "Seconds 16777216999999999 = 16777217"
proof -
  have sec: "quo 16777216999999999 1000000000 = 16777216"
    and nsec: "rem 16777216999999999 1000000000 = 999999999"
    by (simp_all add: quo_def rem_def)
  have whole: "float64_of_int 16777216 = Finite 16777216"
    by (simp add: float64_of_int_def round64_eval)
  have part: "fdiv (float64_of_int 999999999) (Finite 1000000000) =
                Finite (9007199245733793 / 9007199254740992)"
    by (simp add: float64_of_int_def fdiv_def round64_eval)
  have "fadd (Finite 16777216) (Finite (9007199245733793 / 9007199254740992)) = Finite 16777217"
    by (simp add: fadd_def round64_eval)
  then show ?thesis
    by (simp add: Seconds_def sec nsec whole part int64_of_float64_def)
qed

lemma exConfig_built: "NewConfig exampleDigest id exHeap exMap exOpts = Inr exConfig"
  by (simp add: NewConfig_def build_defs group_defs sort_defs float64_eval Sprintf_f_eval
        Seconds_minute exHeap_def exMap_def busyNode_def idleNode_def halfEdge_def wholeEdge_def
        exOpts_def exampleDigest_def exConfig_def busyRecord_def idleRecord_def halfRecord_def
        wholeRecord_def)

lemma wholeEdge_built:
  "buildEdge exampleDigest exHeap busyNode wholeEdge exOpts = Inr wholeRecord"
  by (simp add: build_defs float64_eval Sprintf_f_eval exHeap_def
        wholeEdge_def busyNode_def idleNode_def exampleDigest_def wholeRecord_def)

theorem edge_ids_shared_witness:
  "NewConfig exampleDigest id exHeap exMap exOpts = Inr exConfig
   \<and> (''a'', 1) \<in> set exMap \<and> exHeap 1 = Some busyNode
   \<and> Node.Edges busyNode = [Some halfEdge, Some wholeEdge]
   \<and> Edge.Dest halfEdge = Edge.Dest wholeEdge
   \<and> protocolLabel halfEdge = protocolLabel wholeEdge
   \<and> {#halfRecord, wholeRecord#} \<subseteq># mset (Edges (Elements exConfig))
   \<and> EdgeData.Id halfRecord = EdgeData.Id wholeRecord"
proof -
  have m: "(''a'', 1) \<in> set exMap"
    by (simp add: exMap_def)
  have n: "exHeap 1 = Some busyNode"
    by (simp add: exHeap_def)
  have es: "Node.Edges busyNode = [Some halfEdge, Some wholeEdge]"
    by (simp add: busyNode_def)
  have e1: "Node.Edges busyNode ! 0 = Some halfEdge" and e2: "Node.Edges busyNode ! 1 = Some wholeEdge"
    by (simp_all add: es)
  have d: "Edge.Dest halfEdge = Edge.Dest wholeEdge"
    by (simp add: halfEdge_def wholeEdge_def)
  have p: "protocolLabel halfEdge = protocolLabel wholeEdge"
    by (simp add: protocolLabel_def halfEdge_def wholeEdge_def)
  have "(0::nat) < 1" and "1 < length (Node.Edges busyNode)"
    by (simp_all add: es)
  from edge_ids_shared [OF exConfig_built m n this e1 e2 d p]
  have "{#halfRecord, wholeRecord#} \<subseteq># mset (Edges (Elements exConfig))
        \<and> EdgeData.Id halfRecord = EdgeData.Id wholeRecord"
    by (simp add: halfEdge_built wholeEdge_built)
  with exConfig_built m n es d p show ?thesis
    by simp
qed

section \<open>Node records\<close>

lemma whenPresent_preserves:
  assumes "whenPresent md k assert assign x = Inr y"
    and "\<And>v z. f (assign v z) = f z"
  shows "f y = f x"
  using assms by (auto simp: whenPresent_eq_Inr)

lemma getRate_rateField:
  assumes "getRate md k = Inr v"
  shows "rateField md k = (if fgt v (Finite 0) then Sprintf_f 2 v else [])"
    and "positiveRate md k = fgt v (Finite 0)"
  using assms
  by (auto simp: getRate_def rateField_def positiveRate_def assert_float64_eq_Inr fgt_def
      split: option.splits)

lemma rateField_present: "rateField md k \<noteq> [] \<longleftrightarrow> positiveRate md k"
  by (auto simp: rateField_def positiveRate_def Sprintf_f_not_Nil split: option.splits dyn.splits)

lemmas node_field_if =
  if_distrib [of NodeData.Id] if_distrib [of Parent] if_distrib [of NodeData.NodeType]
  if_distrib [of NodeData.Namespace] if_distrib [of NodeData.Workload] if_distrib [of NodeData.App]
  if_distrib [of NodeData.Version] if_distrib [of NodeData.Service] if_distrib [of IsGroup]
  if_distrib [of HttpIn] if_distrib [of HttpIn3xx] if_distrib [of HttpIn4xx]
  if_distrib [of HttpIn5xx] if_distrib [of HttpOut] if_distrib [of TcpIn] if_distrib [of TcpOut]

lemma addNodeTelemetry_eq_Inr:
  assumes "addNodeTelemetry s nd = Inr nd'"
  shows "\<exists>httpIn httpOut tcpIn tcpOut.
           getRate (Node.Metadata s) ''httpIn'' = Inr httpIn \<and>
           getRate (Node.Metadata s) ''httpOut'' = Inr httpOut \<and>
           getRate (Node.Metadata s) ''tcpIn'' = Inr tcpIn \<and>
           getRate (Node.Metadata s) ''tcpOut'' = Inr tcpOut \<and>
           HttpIn nd' = (if fgt httpIn (Finite 0) then Sprintf_f 2 httpIn else HttpIn nd) \<and>
           HttpOut nd' = (if fgt httpOut (Finite 0) then Sprintf_f 2 httpOut else HttpOut nd) \<and>
           TcpIn nd' = (if fgt tcpIn (Finite 0) then Sprintf_f 2 tcpIn else TcpIn nd) \<and>
           TcpOut nd' = (if fgt tcpOut (Finite 0) then Sprintf_f 2 tcpOut else TcpOut nd) \<and>
           (if fgt httpIn (Finite 0) then
              (\<exists>httpIn3xx httpIn4xx httpIn5xx.
                 getRate (Node.Metadata s) ''httpIn3xx'' = Inr httpIn3xx \<and>
                 getRate (Node.Metadata s) ''httpIn4xx'' = Inr httpIn4xx \<and>
                 getRate (Node.Metadata s) ''httpIn5xx'' = Inr httpIn5xx \<and>
                 HttpIn3xx nd' = (if fgt httpIn3xx (Finite 0) then Sprintf_f 2 httpIn3xx else HttpIn3xx nd) \<and>
                 HttpIn4xx nd' = (if fgt httpIn4xx (Finite 0) then Sprintf_f 2 httpIn4xx else HttpIn4xx nd) \<and>
                 HttpIn5xx nd' = (if fgt httpIn5xx (Finite 0) then Sprintf_f 2 httpIn5xx else HttpIn5xx nd))
            else HttpIn3xx nd' = HttpIn3xx nd \<and> HttpIn4xx nd' = HttpIn4xx nd \<and>
                 HttpIn5xx nd' = HttpIn5xx nd) \<and>
           NodeData.Id nd' = NodeData.Id nd \<and> Parent nd' = Parent nd \<and>
           NodeData.NodeType nd' = NodeData.NodeType nd \<and>
           NodeData.Namespace nd' = NodeData.Namespace nd \<and>
           NodeData.Workload nd' = NodeData.Workload nd \<and> NodeData.App nd' = NodeData.App nd \<and>
           NodeData.Version nd' = NodeData.Version nd \<and>
           NodeData.Service nd' = NodeData.Service nd \<and> IsGroup nd' = IsGroup nd"
proof -
  from assms obtain httpIn nd1 httpOut tcpIn tcpOut where
    httpIn: "getRate (Node.Metadata s) ''httpIn'' = Inr httpIn"
    and nd1: "(if fgt httpIn (Finite 0) then
          andThen (getRate (Node.Metadata s) ''httpIn3xx'') (\<lambda>httpIn3xx.
          andThen (getRate (Node.Metadata s) ''httpIn4xx'') (\<lambda>httpIn4xx.
          andThen (getRate (Node.Metadata s) ''httpIn5xx'') (\<lambda>httpIn5xx.
          let nd = nd\<lparr>HttpIn := Sprintf_f 2 httpIn\<rparr>;
              nd = (if fgt httpIn3xx (Finite 0) then nd\<lparr>HttpIn3xx := Sprintf_f 2 httpIn3xx\<rparr> else nd);
              nd = (if fgt httpIn4xx (Finite 0) then nd\<lparr>HttpIn4xx := Sprintf_f 2 httpIn4xx\<rparr> else nd);
              nd = (if fgt httpIn5xx (Finite 0) then nd\<lparr>HttpIn5xx := Sprintf_f 2 httpIn5xx\<rparr> else nd)
          in Inr nd)))
        else Inr nd) = Inr nd1"
    and httpOut: "getRate (Node.Metadata s) ''httpOut'' = Inr httpOut"
    and tcpIn: "getRate (Node.Metadata s) ''tcpIn'' = Inr tcpIn"
    and tcpOut: "getRate (Node.Metadata s) ''tcpOut'' = Inr tcpOut"
    and nd': "nd' = (let nd = (if fgt httpOut (Finite 0) then nd1\<lparr>HttpOut := Sprintf_f 2 httpOut\<rparr> else nd1);
                        nd = (if fgt tcpIn (Finite 0) then nd\<lparr>TcpIn := Sprintf_f 2 tcpIn\<rparr> else nd)
                    in (if fgt tcpOut (Finite 0) then nd\<lparr>TcpOut := Sprintf_f 2 tcpOut\<rparr> else nd))"
    unfolding addNodeTelemetry_def by (simp add: andThen_eq_Inr Let_def) blast
  have rest: "HttpIn nd' = HttpIn nd1 \<and>
           HttpOut nd' = (if fgt httpOut (Finite 0) then Sprintf_f 2 httpOut else HttpOut nd1) \<and>
           TcpIn nd' = (if fgt tcpIn (Finite 0) then Sprintf_f 2 tcpIn else TcpIn nd1) \<and>
           TcpOut nd' = (if fgt tcpOut (Finite 0) then Sprintf_f 2 tcpOut else TcpOut nd1) \<and>
           HttpIn3xx nd' = HttpIn3xx nd1 \<and> HttpIn4xx nd' = HttpIn4xx nd1 \<and>
           HttpIn5xx nd' = HttpIn5xx nd1 \<and>
           NodeData.Id nd' = NodeData.Id nd1 \<and> Parent nd' = Parent nd1 \<and>
           NodeData.NodeType nd' = NodeData.NodeType nd1 \<and>
           NodeData.Namespace nd' = NodeData.Namespace nd1 \<and>
           NodeData.Workload nd' = NodeData.Workload nd1 \<and> NodeData.App nd' = NodeData.App nd1 \<and>
           NodeData.Version nd' = NodeData.Version nd1 \<and>
           NodeData.Service nd' = NodeData.Service nd1 \<and> IsGroup nd' = IsGroup nd1"
    unfolding nd' Let_def by (simp add: node_field_if cong: if_cong)
  show ?thesis
  proof (cases "fgt httpIn (Finite 0)")
    case True
    with nd1 obtain httpIn3xx httpIn4xx httpIn5xx where
      r3: "getRate (Node.Metadata s) ''httpIn3xx'' = Inr httpIn3xx"
      and r4: "getRate (Node.Metadata s) ''httpIn4xx'' = Inr httpIn4xx"
      and r5: "getRate (Node.Metadata s) ''httpIn5xx'' = Inr httpIn5xx"
      and nd1': "nd1 = (let nd = nd\<lparr>HttpIn := Sprintf_f 2 httpIn\<rparr>;
              nd = (if fgt httpIn3xx (Finite 0) then nd\<lparr>HttpIn3xx := Sprintf_f 2 httpIn3xx\<rparr> else nd);
              nd = (if fgt httpIn4xx (Finite 0) then nd\<lparr>HttpIn4xx := Sprintf_f 2 httpIn4xx\<rparr> else nd)
              in (if fgt httpIn5xx (Finite 0) then nd\<lparr>HttpIn5xx := Sprintf_f 2 httpIn5xx\<rparr> else nd))"
      by (auto simp: andThen_eq_Inr Let_def)
    have "HttpIn nd1 = Sprintf_f 2 httpIn \<and>
          HttpIn3xx nd1 = (if fgt httpIn3xx (Finite 0) then Sprintf_f 2 httpIn3xx else HttpIn3xx nd) \<and>
          HttpIn4xx nd1 = (if fgt httpIn4xx (Finite 0) then Sprintf_f 2 httpIn4xx else HttpIn4xx nd) \<and>
          HttpIn5xx nd1 = (if fgt httpIn5xx (Finite 0) then Sprintf_f 2 httpIn5xx else HttpIn5xx nd) \<and>
          HttpOut nd1 = HttpOut nd \<and> TcpIn nd1 = TcpIn nd \<and> TcpOut nd1 = TcpOut nd \<and>
          NodeData.Id nd1 = NodeData.Id nd \<and> Parent nd1 = Parent nd \<and>
          NodeData.NodeType nd1 = NodeData.NodeType nd \<and>
          NodeData.Namespace nd1 = NodeData.Namespace nd \<and>
          NodeData.Workload nd1 = NodeData.Workload nd \<and> NodeData.App nd1 = NodeData.App nd \<and>
          NodeData.Version nd1 = NodeData.Version nd \<and>
          NodeData.Service nd1 = NodeData.Service nd \<and> IsGroup nd1 = IsGroup nd"
      unfolding nd1' Let_def by (simp add: node_field_if cong: if_cong)
    with rest True httpIn httpOut tcpIn tcpOut r3 r4 r5 show ?thesis
      by simp
  next
    case False
    with nd1 have "nd1 = nd" by simp
    with rest False httpIn httpOut tcpIn tcpOut show ?thesis
      by simp
  qed
qed

lemma buildNode_eq_Inr:
  assumes "buildNode md5 ident n = Inr nd"
  shows "\<exists>nd1. addNodeTelemetry n
             (zeroNodeData\<lparr>NodeData.Id := nodeHash md5 ident, NodeData.NodeType := Node.NodeType n,
                 NodeData.Namespace := Node.Namespace n, NodeData.Workload := Node.Workload n,
                 NodeData.App := Node.App n, NodeData.Version := Node.Version n,
                 NodeData.Service := Node.Service n\<rparr>) = Inr nd1 \<and>
           HttpIn nd = HttpIn nd1 \<and> HttpIn3xx nd = HttpIn3xx nd1 \<and> HttpIn4xx nd = HttpIn4xx nd1 \<and>
           HttpIn5xx nd = HttpIn5xx nd1 \<and> HttpOut nd = HttpOut nd1 \<and> TcpIn nd = TcpIn nd1 \<and>
           TcpOut nd = TcpOut nd1 \<and>
           NodeData.Id nd = NodeData.Id nd1 \<and> Parent nd = Parent nd1 \<and>
           NodeData.NodeType nd = NodeData.NodeType nd1 \<and>
           NodeData.Namespace nd = NodeData.Namespace nd1 \<and>
           NodeData.Workload nd = NodeData.Workload nd1 \<and> NodeData.App nd = NodeData.App nd1 \<and>
           NodeData.Version nd = NodeData.Version nd1 \<and>
           NodeData.Service nd = NodeData.Service nd1 \<and> IsGroup nd = IsGroup nd1"
proof -
  let ?f = "\<lambda>nd. ((HttpIn nd, HttpIn3xx nd, HttpIn4xx nd, HttpIn5xx nd, HttpOut nd, TcpIn nd, TcpOut nd),
                  (NodeData.Id nd, Parent nd, NodeData.NodeType nd, NodeData.Namespace nd),
                  (NodeData.Workload nd, NodeData.App nd, NodeData.Version nd, NodeData.Service nd,
                   IsGroup nd))"
  from assms obtain nd1 nd2 nd3 nd4 nd5 nd6 nd7 nd8 nd9 nd10 nd11 where
    t: "addNodeTelemetry n
             (zeroNodeData\<lparr>NodeData.Id := nodeHash md5 ident, NodeData.NodeType := Node.NodeType n,
                 NodeData.Namespace := Node.Namespace n, NodeData.Workload := Node.Workload n,
                 NodeData.App := Node.App n, NodeData.Version := Node.Version n,
                 NodeData.Service := Node.Service n\<rparr>) = Inr nd1"
    and s1: "whenPresent (Node.Metadata n) ''isDead'' assert_bool
                 (\<lambda>val nd. nd\<lparr>IsDead := val\<rparr>) nd1 = Inr nd2"
    and s2: "whenPresent (Node.Metadata n) ''isRoot'' assert_bool
                 (\<lambda>val nd. nd\<lparr>IsRoot := val\<rparr>) nd2 = Inr nd3"
    and s3: "whenPresent (Node.Metadata n) ''isUnused'' assert_bool
                 (\<lambda>val nd. nd\<lparr>NodeData.IsUnused := val\<rparr>) nd3 = Inr nd4"
    and s4: "whenPresent (Node.Metadata n) ''isInaccessible'' assert_bool
                 (\<lambda>val nd. nd\<lparr>IsInaccessible := val\<rparr>) nd4 = Inr nd5"
    and s5: "whenPresent (Node.Metadata n) ''hasCB'' assert_bool
                 (\<lambda>val nd. nd\<lparr>HasCB := val\<rparr>) nd5 = Inr nd6"
    and s6: "whenPresent (Node.Metadata n) ''hasVS'' assert_bool
                 (\<lambda>val nd. nd\<lparr>HasVS := val\<rparr>) nd6 = Inr nd7"
    and s7: "whenPresent (Node.Metadata n) ''hasMissingSC'' assert_bool
                 (\<lambda>val nd. nd\<lparr>HasMissingSC := val\<rparr>) nd7 = Inr nd8"
    and s8: "whenPresent (Node.Metadata n) ''isMisconfigured'' assert_string
                 (\<lambda>val nd. nd\<lparr>IsMisconfigured := val\<rparr>) nd8 = Inr nd9"
    and s9: "whenPresent (Node.Metadata n) ''isOutside'' assert_bool
                 (\<lambda>val nd. nd\<lparr>IsOutside := val\<rparr>) nd9 = Inr nd10"
    and s10: "whenPresent (Node.Metadata n) ''destServices'' assert_map
                 (\<lambda>val nd. nd\<lparr>DestServices := val\<rparr>) nd10 = Inr nd11"
    and s11: "whenPresent (Node.Metadata n) ''isServiceEntry'' assert_string
        (\<lambda>val nd. nd\<lparr>IsServiceEntry := val\<rparr>) nd11 = Inr nd"
    unfolding buildNode_def Let_def by (simp add: andThen_eq_Inr) blast
  have "?f nd = ?f nd11" using s11 by (rule whenPresent_preserves) simp
  also have "\<dots> = ?f nd10" using s10 by (rule whenPresent_preserves) simp
  also have "\<dots> = ?f nd9" using s9 by (rule whenPresent_preserves) simp
  also have "\<dots> = ?f nd8" using s8 by (rule whenPresent_preserves) simp
  also have "\<dots> = ?f nd7" using s7 by (rule whenPresent_preserves) simp
  also have "\<dots> = ?f nd6" using s6 by (rule whenPresent_preserves) simp
  also have "\<dots> = ?f nd5" using s5 by (rule whenPresent_preserves) simp
  also have "\<dots> = ?f nd4" using s4 by (rule whenPresent_preserves) simp
  also have "\<dots> = ?f nd3" using s3 by (rule whenPresent_preserves) simp
  also have "\<dots> = ?f nd2" using s2 by (rule whenPresent_preserves) simp
  also have "\<dots> = ?f nd1" using s1 by (rule whenPresent_preserves) simp
  finally have "?f nd = ?f nd1" .
  with t show ?thesis
    by simp
qed

lemma buildNode_ident:
  assumes "buildNode md5 ident n = Inr nd"
  shows "NodeData.Id nd = nodeHash md5 ident" and "Parent nd = []" and "IsGroup nd = []"
    and "NodeData.NodeType nd = Node.NodeType n" and "NodeData.Namespace nd = Node.Namespace n"
    and "NodeData.Workload nd = Node.Workload n" and "NodeData.App nd = Node.App n"
    and "NodeData.Version nd = Node.Version n" and "NodeData.Service nd = Node.Service n"
proof -
  from buildNode_eq_Inr [OF assms] obtain nd1 where
    t: "addNodeTelemetry n
             (zeroNodeData\<lparr>NodeData.Id := nodeHash md5 ident, NodeData.NodeType := Node.NodeType n,
                 NodeData.Namespace := Node.Namespace n, NodeData.Workload := Node.Workload n,
                 NodeData.App := Node.App n, NodeData.Version := Node.Version n,
                 NodeData.Service := Node.Service n\<rparr>) = Inr nd1"
    and eq: "NodeData.Id nd = NodeData.Id nd1" "Parent nd = Parent nd1"
           "NodeData.NodeType nd = NodeData.NodeType nd1"
           "NodeData.Namespace nd = NodeData.Namespace nd1"
           "NodeData.Workload nd = NodeData.Workload nd1" "NodeData.App nd = NodeData.App nd1"
           "NodeData.Version nd = NodeData.Version nd1"
           "NodeData.Service nd = NodeData.Service nd1" "IsGroup nd = IsGroup nd1"
    by blast
  from addNodeTelemetry_eq_Inr [OF t] eq
  show "NodeData.Id nd = nodeHash md5 ident" and "Parent nd = []" and "IsGroup nd = []"
    and "NodeData.NodeType nd = Node.NodeType n" and "NodeData.Namespace nd = Node.Namespace n"
    and "NodeData.Workload nd = Node.Workload n" and "NodeData.App nd = Node.App n"
    and "NodeData.Version nd = Node.Version n" and "NodeData.Service nd = Node.Service n"
    by (auto simp: zeroNodeData_def)
qed

lemma addNodeTelemetry_fresh:
  assumes t: "addNodeTelemetry n nd0 = Inr nd1"
    and z: "HttpIn nd0 = []" "HttpIn3xx nd0 = []" "HttpIn4xx nd0 = []" "HttpIn5xx nd0 = []"
      "HttpOut nd0 = []" "TcpIn nd0 = []" "TcpOut nd0 = []"
  shows "HttpIn nd1 = rateField (Node.Metadata n) ''httpIn''
       \<and> HttpOut nd1 = rateField (Node.Metadata n) ''httpOut''
       \<and> TcpIn nd1 = rateField (Node.Metadata n) ''tcpIn''
       \<and> TcpOut nd1 = rateField (Node.Metadata n) ''tcpOut''
       \<and> HttpIn3xx nd1 = (if positiveRate (Node.Metadata n) ''httpIn''
                         then rateField (Node.Metadata n) ''httpIn3xx'' else [])
       \<and> HttpIn4xx nd1 = (if positiveRate (Node.Metadata n) ''httpIn''
                         then rateField (Node.Metadata n) ''httpIn4xx'' else [])
       \<and> HttpIn5xx nd1 = (if positiveRate (Node.Metadata n) ''httpIn''
                         then rateField (Node.Metadata n) ''httpIn5xx'' else [])"
proof -
  from addNodeTelemetry_eq_Inr [OF t] obtain httpIn httpOut tcpIn tcpOut where
    r: "getRate (Node.Metadata n) ''httpIn'' = Inr httpIn"
       "getRate (Node.Metadata n) ''httpOut'' = Inr httpOut"
       "getRate (Node.Metadata n) ''tcpIn'' = Inr tcpIn"
       "getRate (Node.Metadata n) ''tcpOut'' = Inr tcpOut"
    and f: "HttpIn nd1 = (if fgt httpIn (Finite 0) then Sprintf_f 2 httpIn else HttpIn nd0)"
       "HttpOut nd1 = (if fgt httpOut (Finite 0) then Sprintf_f 2 httpOut else HttpOut nd0)"
       "TcpIn nd1 = (if fgt tcpIn (Finite 0) then Sprintf_f 2 tcpIn else TcpIn nd0)"
       "TcpOut nd1 = (if fgt tcpOut (Finite 0) then Sprintf_f 2 tcpOut else TcpOut nd0)"
    and g: "if fgt httpIn (Finite 0) then
              (\<exists>httpIn3xx httpIn4xx httpIn5xx.
                 getRate (Node.Metadata n) ''httpIn3xx'' = Inr httpIn3xx \<and>
                 getRate (Node.Metadata n) ''httpIn4xx'' = Inr httpIn4xx \<and>
                 getRate (Node.Metadata n) ''httpIn5xx'' = Inr httpIn5xx \<and>
                 HttpIn3xx nd1 = (if fgt httpIn3xx (Finite 0) then Sprintf_f 2 httpIn3xx else HttpIn3xx nd0) \<and>
                 HttpIn4xx nd1 = (if fgt httpIn4xx (Finite 0) then Sprintf_f 2 httpIn4xx else HttpIn4xx nd0) \<and>
                 HttpIn5xx nd1 = (if fgt httpIn5xx (Finite 0) then Sprintf_f 2 httpIn5xx else HttpIn5xx nd0))
            else HttpIn3xx nd1 = HttpIn3xx nd0 \<and> HttpIn4xx nd1 = HttpIn4xx nd0 \<and>
                 HttpIn5xx nd1 = HttpIn5xx nd0"
    by blast
  have plain: "HttpIn nd1 = rateField (Node.Metadata n) ''httpIn''"
      "HttpOut nd1 = rateField (Node.Metadata n) ''httpOut''"
      "TcpIn nd1 = rateField (Node.Metadata n) ''tcpIn''"
      "TcpOut nd1 = rateField (Node.Metadata n) ''tcpOut''"
    using f z by (simp_all add: getRate_rateField(1) [OF r(1)] getRate_rateField(1) [OF r(2)]
        getRate_rateField(1) [OF r(3)] getRate_rateField(1) [OF r(4)])
  have pos: "positiveRate (Node.Metadata n) ''httpIn'' = fgt httpIn (Finite 0)"
    by (rule getRate_rateField(2) [OF r(1)])
  have classes: "HttpIn3xx nd1 = (if positiveRate (Node.Metadata n) ''httpIn''
                         then rateField (Node.Metadata n) ''httpIn3xx'' else [])
       \<and> HttpIn4xx nd1 = (if positiveRate (Node.Metadata n) ''httpIn''
                         then rateField (Node.Metadata n) ''httpIn4xx'' else [])
       \<and> HttpIn5xx nd1 = (if positiveRate (Node.Metadata n) ''httpIn''
                         then rateField (Node.Metadata n) ''httpIn5xx'' else [])"
  proof (cases "fgt httpIn (Finite 0)")
    case True
    with g obtain httpIn3xx httpIn4xx httpIn5xx where
      "getRate (Node.Metadata n) ''httpIn3xx'' = Inr httpIn3xx"
      "getRate (Node.Metadata n) ''httpIn4xx'' = Inr httpIn4xx"
      "getRate (Node.Metadata n) ''httpIn5xx'' = Inr httpIn5xx"
      "HttpIn3xx nd1 = (if fgt httpIn3xx (Finite 0) then Sprintf_f 2 httpIn3xx else HttpIn3xx nd0)"
      "HttpIn4xx nd1 = (if fgt httpIn4xx (Finite 0) then Sprintf_f 2 httpIn4xx else HttpIn4xx nd0)"
      "HttpIn5xx nd1 = (if fgt httpIn5xx (Finite 0) then Sprintf_f 2 httpIn5xx else HttpIn5xx nd0)"
      by auto
    with True pos z show ?thesis
      by (simp add: getRate_rateField(1))
  next
    case False
    with g pos z show ?thesis
      by simp
  qed
  from plain classes show ?thesis
    by simp
qed

text \<open>
  C7 (amended). In every node record the code returns, httpIn, httpOut, tcpIn and tcpOut
  hold the two-decimal string of their metadata value when that value is strictly
  greater than zero and are left out otherwise; httpIn3XX, httpIn4XX and httpIn5XX hold
  the two-decimal string of their value when httpIn and their own value are both
  strictly greater than zero, and are left out otherwise.
\<close>

theorem node_rate_fields:
  assumes "buildNode md5 ident n = Inr nd"
  shows "HttpIn nd = rateField (Node.Metadata n) ''httpIn''
       \<and> HttpOut nd = rateField (Node.Metadata n) ''httpOut''
       \<and> TcpIn nd = rateField (Node.Metadata n) ''tcpIn''
       \<and> TcpOut nd = rateField (Node.Metadata n) ''tcpOut''
       \<and> HttpIn3xx nd = (if positiveRate (Node.Metadata n) ''httpIn''
                         then rateField (Node.Metadata n) ''httpIn3xx'' else [])
       \<and> HttpIn4xx nd = (if positiveRate (Node.Metadata n) ''httpIn''
                         then rateField (Node.Metadata n) ''httpIn4xx'' else [])
       \<and> HttpIn5xx nd = (if positiveRate (Node.Metadata n) ''httpIn''
                         then rateField (Node.Metadata n) ''httpIn5xx'' else [])
       \<and> (HttpIn nd \<noteq> [] \<longleftrightarrow> positiveRate (Node.Metadata n) ''httpIn'')
       \<and> (HttpOut nd \<noteq> [] \<longleftrightarrow> positiveRate (Node.Metadata n) ''httpOut'')
       \<and> (TcpIn nd \<noteq> [] \<longleftrightarrow> positiveRate (Node.Metadata n) ''tcpIn'')
       \<and> (TcpOut nd \<noteq> [] \<longleftrightarrow> positiveRate (Node.Metadata n) ''tcpOut'')
       \<and> (HttpIn3xx nd \<noteq> [] \<longleftrightarrow>
            positiveRate (Node.Metadata n) ''httpIn'' \<and> positiveRate (Node.Metadata n) ''httpIn3xx'')
       \<and> (HttpIn4xx nd \<noteq> [] \<longleftrightarrow>
            positiveRate (Node.Metadata n) ''httpIn'' \<and> positiveRate (Node.Metadata n) ''httpIn4xx'')
       \<and> (HttpIn5xx nd \<noteq> [] \<longleftrightarrow>
            positiveRate (Node.Metadata n) ''httpIn'' \<and> positiveRate (Node.Metadata n) ''httpIn5xx'')"
proof -
  from buildNode_eq_Inr [OF assms] obtain nd1 where
    t: "addNodeTelemetry n
             (zeroNodeData\<lparr>NodeData.Id := nodeHash md5 ident, NodeData.NodeType := Node.NodeType n,
                 NodeData.Namespace := Node.Namespace n, NodeData.Workload := Node.Workload n,
                 NodeData.App := Node.App n, NodeData.Version := Node.Version n,
                 NodeData.Service := Node.Service n\<rparr>) = Inr nd1"
    and eq: "HttpIn nd = HttpIn nd1" "HttpIn3xx nd = HttpIn3xx nd1" "HttpIn4xx nd = HttpIn4xx nd1"
           "HttpIn5xx nd = HttpIn5xx nd1" "HttpOut nd = HttpOut nd1" "TcpIn nd = TcpIn nd1"
           "TcpOut nd = TcpOut nd1"
    by blast
  have "HttpIn nd1 = rateField (Node.Metadata n) ''httpIn''
       \<and> HttpOut nd1 = rateField (Node.Metadata n) ''httpOut''
       \<and> TcpIn nd1 = rateField (Node.Metadata n) ''tcpIn''
       \<and> TcpOut nd1 = rateField (Node.Metadata n) ''tcpOut''
       \<and> HttpIn3xx nd1 = (if positiveRate (Node.Metadata n) ''httpIn''
                         then rateField (Node.Metadata n) ''httpIn3xx'' else [])
       \<and> HttpIn4xx nd1 = (if positiveRate (Node.Metadata n) ''httpIn''
                         then rateField (Node.Metadata n) ''httpIn4xx'' else [])
       \<and> HttpIn5xx nd1 = (if positiveRate (Node.Metadata n) ''httpIn''
                         then rateField (Node.Metadata n) ''httpIn5xx'' else [])"
    by (rule addNodeTelemetry_fresh [OF t]) (simp_all add: zeroNodeData_def)
  with eq
  have fields: "HttpIn nd = rateField (Node.Metadata n) ''httpIn''
       \<and> HttpOut nd = rateField (Node.Metadata n) ''httpOut''
       \<and> TcpIn nd = rateField (Node.Metadata n) ''tcpIn''
       \<and> TcpOut nd = rateField (Node.Metadata n) ''tcpOut''
       \<and> HttpIn3xx nd = (if positiveRate (Node.Metadata n) ''httpIn''
                         then rateField (Node.Metadata n) ''httpIn3xx'' else [])
       \<and> HttpIn4xx nd = (if positiveRate (Node.Metadata n) ''httpIn''
                         then rateField (Node.Metadata n) ''httpIn4xx'' else [])
       \<and> HttpIn5xx nd = (if positiveRate (Node.Metadata n) ''httpIn''
                         then rateField (Node.Metadata n) ''httpIn5xx'' else [])"
    by simp
  then show ?thesis
    by (simp add: rateField_present)
qed

lemma redirectNode_built: "buildNode exampleDigest ''r'' redirectNode = Inr redirectRecord"
  by (simp add: build_defs redirectNode_def redirectRecord_def exampleDigest_def)

text \<open>
  C7 as stated fails: the node r carries httpIn3xx = 1 and no httpIn, and its record has
  no httpIn3XX.
\<close>

theorem status_class_rate_left_out:
  "buildNode exampleDigest ''r'' redirectNode = Inr redirectRecord
   \<and> Node.Metadata redirectNode ''httpIn3xx'' = Some (Float64 (Finite 1))
   \<and> fgt (Finite 1) (Finite 0)
   \<and> HttpIn3xx redirectRecord = []
   \<and> HttpIn3xx redirectRecord \<noteq> rateField (Node.Metadata redirectNode) ''httpIn3xx''"
  by (simp add: redirectNode_built)
     (simp add: redirectNode_def redirectRecord_def zeroNodeData_def rateField_def positiveRate_def
        fgt_def Sprintf_f_not_Nil [THEN not_sym])

lemma servingNode_built: "buildNode exampleDigest ''s'' servingNode = Inr servingRecord"
  by (simp add: build_defs Sprintf_f_eval servingNode_def servingRecord_def exampleDigest_def)

theorem node_rate_fields_witness:
  "buildNode exampleDigest ''s'' servingNode = Inr servingRecord
   \<and> rateField (Node.Metadata servingNode) ''httpIn'' = ''10.00''
   \<and> rateField (Node.Metadata servingNode) ''httpIn4xx'' = ''1.00''
   \<and> positiveRate (Node.Metadata servingNode) ''httpIn''
   \<and> \<not> positiveRate (Node.Metadata servingNode) ''httpIn5xx''"
proof -
  from node_rate_fields [OF servingNode_built]
  have "rateField (Node.Metadata servingNode) ''httpIn'' = ''10.00''"
    and "positiveRate (Node.Metadata servingNode) ''httpIn''"
    and "rateField (Node.Metadata servingNode) ''httpIn4xx'' = ''1.00''"
    and "\<not> positiveRate (Node.Metadata servingNode) ''httpIn5xx''"
    by (simp_all add: servingRecord_def zeroNodeData_def split: if_splits)
  with servingNode_built show ?thesis
    by simp
qed

section \<open>Type assertions and completion\<close>

lemma andThen_total:
  assumes "\<exists>x. m = Inr x" and "\<And>x. \<exists>y. f x = Inr y"
  shows "\<exists>y. andThen m f = Inr y"
  using assms by (auto simp: andThen_eq_Inr)

lemma andThen_total_at:
  assumes "m = Inr x" and "\<exists>y. f x = Inr y"
  shows "\<exists>y. andThen m f = Inr y"
  using assms by simp

lemma Inr_total: "\<exists>y. Inr x = Inr y"
  by simp

lemma getRate_total:
  assumes "typedAs isFloat64 md k"
  shows "\<exists>v. getRate md k = Inr v"
  using assms
  by (auto simp: typedAs_def isFloat64_def getRate_def assert_float64_def
      split: option.splits dyn.splits)

lemma whenPresent_total:
  assumes "typedAs is_type md k" and "\<And>v. is_type v \<Longrightarrow> \<exists>x. assert v = Inr x"
  shows "\<exists>y. whenPresent md k assert assign x = Inr y"
proof (cases "md k")
  case None
  then show ?thesis by (simp add: whenPresent_def)
next
  case (Some val)
  with assms(1) have "is_type val" by (simp add: typedAs_def)
  from assms(2) [OF this] obtain v where "assert val = Inr v" ..
  with Some show ?thesis by (simp add: whenPresent_def)
qed

lemma assert_total:
  "isFloat64 v \<Longrightarrow> \<exists>x. assert_float64 v = Inr x"
  "isBool v \<Longrightarrow> \<exists>x. assert_bool v = Inr x"
  "isString v \<Longrightarrow> \<exists>x. assert_string v = Inr x"
  "isMapStringBool v \<Longrightarrow> \<exists>x. assert_map v = Inr x"
  by (cases v; simp add: isFloat64_def isBool_def isString_def isMapStringBool_def
        assert_float64_def assert_bool_def assert_string_def assert_map_def)+

subsection \<open>Values of the asserted types are enough\<close>

lemma addNodeTelemetry_total:
  assumes "typedWhereRead n"
  shows "\<exists>nd'. addNodeTelemetry n nd = Inr nd'"
proof -
  from assms have
    "\<exists>v. getRate (Node.Metadata n) ''httpIn'' = Inr v"
    "\<exists>v. getRate (Node.Metadata n) ''httpOut'' = Inr v"
    "\<exists>v. getRate (Node.Metadata n) ''tcpIn'' = Inr v"
    "\<exists>v. getRate (Node.Metadata n) ''tcpOut'' = Inr v"
    by (simp_all add: typedWhereRead_def getRate_total)
  then obtain httpIn httpOut tcpIn tcpOut where r:
    "getRate (Node.Metadata n) ''httpIn'' = Inr httpIn"
    "getRate (Node.Metadata n) ''httpOut'' = Inr httpOut"
    "getRate (Node.Metadata n) ''tcpIn'' = Inr tcpIn"
    "getRate (Node.Metadata n) ''tcpOut'' = Inr tcpOut"
    by blast
  show ?thesis
  proof (cases "fgt httpIn (Finite 0)")
    case True
    then have "positiveRate (Node.Metadata n) ''httpIn''"
      by (simp add: getRate_positiveRate [OF r(1)])
    with assms have
      "\<exists>v. getRate (Node.Metadata n) ''httpIn3xx'' = Inr v"
      "\<exists>v. getRate (Node.Metadata n) ''httpIn4xx'' = Inr v"
      "\<exists>v. getRate (Node.Metadata n) ''httpIn5xx'' = Inr v"
      by (simp_all add: typedWhereRead_def getRate_total)
    then obtain httpIn3xx httpIn4xx httpIn5xx where
      "getRate (Node.Metadata n) ''httpIn3xx'' = Inr httpIn3xx"
      "getRate (Node.Metadata n) ''httpIn4xx'' = Inr httpIn4xx"
      "getRate (Node.Metadata n) ''httpIn5xx'' = Inr httpIn5xx"
      by blast
    with r True show ?thesis
      unfolding addNodeTelemetry_def by (simp add: Let_def)
  next
    case False
    with r show ?thesis
      unfolding addNodeTelemetry_def by (simp add: Let_def)
  qed
qed

lemma buildNode_total:
  assumes "typedWhereRead n"
  shows "\<exists>nd. buildNode md5 ident n = Inr nd"
proof -
  have flag: "\<exists>y. whenPresent (Node.Metadata n) k assert_bool assign x = Inr y"
    if "typedAs isBool (Node.Metadata n) k" for k assign and x :: NodeData
    using that by (rule whenPresent_total) (rule assert_total)
  have label: "\<exists>y. whenPresent (Node.Metadata n) k assert_string assign x = Inr y"
    if "typedAs isString (Node.Metadata n) k" for k assign and x :: NodeData
    using that by (rule whenPresent_total) (rule assert_total)
  have services: "\<exists>y. whenPresent (Node.Metadata n) ''destServices'' assert_map assign x = Inr y"
    for assign and x :: NodeData
    using assms by (intro whenPresent_total [where is_type = isMapStringBool] assert_total)
      (simp add: typedWhereRead_def)
  from assms have b: "typedAs isBool (Node.Metadata n) ''isDead''"
    "typedAs isBool (Node.Metadata n) ''isRoot''" "typedAs isBool (Node.Metadata n) ''isUnused''"
    "typedAs isBool (Node.Metadata n) ''isInaccessible''" "typedAs isBool (Node.Metadata n) ''hasCB''"
    "typedAs isBool (Node.Metadata n) ''hasVS''" "typedAs isBool (Node.Metadata n) ''hasMissingSC''"
    "typedAs isBool (Node.Metadata n) ''isOutside''"
    and s: "typedAs isString (Node.Metadata n) ''isMisconfigured''"
    "typedAs isString (Node.Metadata n) ''isServiceEntry''"
    by (simp_all add: typedWhereRead_def)
  show ?thesis
    unfolding buildNode_def Let_def andThen_eq_Inr
    by (meson addNodeTelemetry_total [OF assms] flag [OF b(1)] flag [OF b(2)] flag [OF b(3)]
        flag [OF b(4)] flag [OF b(5)] flag [OF b(6)] flag [OF b(7)] flag [OF b(8)]
        label [OF s(1)] label [OF s(2)] services)
qed

lemma addEdgeTelemetry_total:
  assumes "edgeTypedWhereRead h e"
  shows "\<exists>ed'. addEdgeTelemetry h ed e opts = Inr ed'"
proof -
  from assms have "\<exists>v. getRate (Edge.Metadata e) ''http'' = Inr v"
    and tcp: "\<exists>v. getRate (Edge.Metadata e) ''tcp'' = Inr v"
    by (simp_all add: edgeTypedWhereRead_def getRate_total)
  then obtain http where http: "getRate (Edge.Metadata e) ''http'' = Inr http"
    by blast
  from assms obtain source where src: "h (Edge.Source e) = Some source"
    by (auto simp: edgeTypedWhereRead_def split: option.splits)
  have mtls: "\<exists>y. whenPresent (Edge.Metadata e) ''isMTLS'' assert_bool assign x = Inr y"
    for assign and x :: EdgeData
    using assms by (intro whenPresent_total [where is_type = isBool] assert_total)
      (simp add: edgeTypedWhereRead_def)
  show ?thesis
  proof (cases "fgt http (Finite 0)")
    case True
    then have "positiveRate (Edge.Metadata e) ''http''"
      by (simp add: getRate_positiveRate [OF http])
    with assms src have typed: "typedAs isFloat64 (Edge.Metadata e) ''http3xx''"
      "typedAs isFloat64 (Edge.Metadata e) ''http4xx''"
      "typedAs isFloat64 (Edge.Metadata e) ''http5xx''"
      "typedAs isFloat64 (Edge.Metadata e) ''responseTime''"
      "typedAs isFloat64 (Node.Metadata source) ''httpOut''"
      by (simp_all add: edgeTypedWhereRead_def)
    note rates = typed(1,2,3,5) [THEN getRate_total]
    have time: "\<exists>y. whenPresent (Edge.Metadata e) ''responseTime'' assert_float64 assign x = Inr y"
      for assign and x :: EdgeData
      using typed(4) by (intro whenPresent_total [where is_type = isFloat64] assert_total)
    show ?thesis
      unfolding addEdgeTelemetry_def Let_def src option.case
      apply (rule andThen_total_at [OF http])
      apply (simp only: True if_True)
      apply (intro andThen_total Inr_total rates time mtls tcp)
      done
  next
    case False
    then have "\<not> positiveRate (Edge.Metadata e) ''http''"
      by (simp add: getRate_positiveRate [OF http])
    with assms src have "typedAs isBool (Node.Metadata source) ''isUnused''"
      by (simp add: edgeTypedWhereRead_def)
    then have unused:
      "\<exists>y. whenPresent (Node.Metadata source) ''isUnused'' assert_bool assign x = Inr y"
      for assign and x :: EdgeData
      by (intro whenPresent_total [where is_type = isBool] assert_total)
    show ?thesis
      unfolding addEdgeTelemetry_def Let_def src option.case
      apply (rule andThen_total_at [OF http])
      apply (simp only: False if_False)
      apply (intro andThen_total Inr_total unused mtls tcp)
      done
  qed
qed

lemma buildEdge_total:
  assumes "edgeTypedWhereRead h e"
  shows "\<exists>ed. buildEdge md5 h n e opts = Inr ed"
proof -
  from assms obtain dest where dest: "h (Edge.Dest e) = Some dest"
    by (auto simp: edgeTypedWhereRead_def)
  from assms have "typedAs (\<lambda>v. v = Nil \<or> isString v) (Edge.Metadata e) ''protocol''"
    by (simp add: edgeTypedWhereRead_def)
  then have "\<exists>protocol. (case Edge.Metadata e ''protocol'' of
                      None \<Rightarrow> Inr []
                    | Some Nil \<Rightarrow> Inr []
                    | Some val \<Rightarrow> assert_string val) = Inr protocol"
    by (auto simp: typedAs_def isString_def assert_string_def split: option.splits dyn.splits)
  then obtain protocol where "(case Edge.Metadata e ''protocol'' of
                      None \<Rightarrow> Inr []
                    | Some Nil \<Rightarrow> Inr []
                    | Some val \<Rightarrow> assert_string val) = Inr protocol" ..
  with dest addEdgeTelemetry_total [OF assms] show ?thesis
    unfolding buildEdge_def Let_def by simp
qed

lemma buildEdges_total:
  assumes "list_all (\<lambda>e. case e of None \<Rightarrow> False | Some e \<Rightarrow> edgeTypedWhereRead h e) es"
  shows "\<exists>edges'. buildEdges md5 h n es edges opts = Inr edges'"
  using assms
proof (induction es arbitrary: edges)
  case Nil
  then show ?case by simp
next
  case (Cons e es)
  then obtain edge where e: "e = Some edge" and typed: "edgeTypedWhereRead h edge"
    and rest: "list_all (\<lambda>e. case e of None \<Rightarrow> False | Some e \<Rightarrow> edgeTypedWhereRead h e) es"
    by (cases e) simp_all
  from buildEdge_total [OF typed] obtain ew where "buildEdge md5 h n edge opts = Inr ew" ..
  with Cons.IH [OF rest] e show ?case
    by simp
qed

lemma buildConfig_total:
  assumes "graphTypedWhereRead h trafficMap"
  shows "\<exists>r. buildConfig md5 h trafficMap nodes edges opts = Inr r"
  using assms
proof (induction trafficMap arbitrary: nodes edges)
  case Nil
  then show ?case by simp
next
  case (Cons entry trafficMap)
  obtain ident a where entry: "entry = (ident, a)"
    by (cases entry)
  from Cons.prems entry obtain n where n: "h a = Some n" and typed: "typedWhereRead n"
    and es: "list_all (\<lambda>e. case e of None \<Rightarrow> False | Some e \<Rightarrow> edgeTypedWhereRead h e)
               (Node.Edges n)"
    and rest: "graphTypedWhereRead h trafficMap"
    by (auto simp: graphTypedWhereRead_def split: option.splits)
  from buildNode_total [OF typed] obtain nw where nw: "buildNode md5 ident n = Inr nw" ..
  from buildEdges_total [OF es] obtain edges'
    where edges': "buildEdges md5 h n (Node.Edges n) edges opts = Inr edges'" ..
  from Cons.IH [OF rest] entry n nw edges' show ?case
    by simp
qed

subsection \<open>Every value that is read is asserted\<close>

lemma addNodeTelemetry_typed:
  assumes "addNodeTelemetry n nd = Inr nd'"
  shows "list_all (typedAs isFloat64 (Node.Metadata n)) [''httpIn'', ''httpOut'', ''tcpIn'', ''tcpOut'']"
    and "positiveRate (Node.Metadata n) ''httpIn'' \<Longrightarrow>
           list_all (typedAs isFloat64 (Node.Metadata n)) [''httpIn3xx'', ''httpIn4xx'', ''httpIn5xx'']"
proof -
  from addNodeTelemetry_eq_Inr [OF assms] obtain httpIn httpOut tcpIn tcpOut where
    r: "getRate (Node.Metadata n) ''httpIn'' = Inr httpIn"
       "getRate (Node.Metadata n) ''httpOut'' = Inr httpOut"
       "getRate (Node.Metadata n) ''tcpIn'' = Inr tcpIn"
       "getRate (Node.Metadata n) ''tcpOut'' = Inr tcpOut"
    and g: "if fgt httpIn (Finite 0) then
              (\<exists>httpIn3xx httpIn4xx httpIn5xx.
                 getRate (Node.Metadata n) ''httpIn3xx'' = Inr httpIn3xx \<and>
                 getRate (Node.Metadata n) ''httpIn4xx'' = Inr httpIn4xx \<and>
                 getRate (Node.Metadata n) ''httpIn5xx'' = Inr httpIn5xx \<and>
                 HttpIn3xx nd' = (if fgt httpIn3xx (Finite 0) then Sprintf_f 2 httpIn3xx else HttpIn3xx nd) \<and>
                 HttpIn4xx nd' = (if fgt httpIn4xx (Finite 0) then Sprintf_f 2 httpIn4xx else HttpIn4xx nd) \<and>
                 HttpIn5xx nd' = (if fgt httpIn5xx (Finite 0) then Sprintf_f 2 httpIn5xx else HttpIn5xx nd))
            else HttpIn3xx nd' = HttpIn3xx nd \<and> HttpIn4xx nd' = HttpIn4xx nd \<and>
                 HttpIn5xx nd' = HttpIn5xx nd"
    by blast
  from r show "list_all (typedAs isFloat64 (Node.Metadata n))
                 [''httpIn'', ''httpOut'', ''tcpIn'', ''tcpOut'']"
    by (simp add: getRate_typed)
  assume "positiveRate (Node.Metadata n) ''httpIn''"
  then have "fgt httpIn (Finite 0)"
    by (simp add: getRate_positiveRate [OF r(1)])
  with g obtain httpIn3xx httpIn4xx httpIn5xx where
    "getRate (Node.Metadata n) ''httpIn3xx'' = Inr httpIn3xx"
    "getRate (Node.Metadata n) ''httpIn4xx'' = Inr httpIn4xx"
    "getRate (Node.Metadata n) ''httpIn5xx'' = Inr httpIn5xx"
    by auto
  then show "list_all (typedAs isFloat64 (Node.Metadata n))
                 [''httpIn3xx'', ''httpIn4xx'', ''httpIn5xx'']"
    by (simp add: getRate_typed)
qed

lemma buildNode_typed:
  assumes "buildNode md5 ident n = Inr nd"
  shows "typedWhereRead n"
proof -
  from assms obtain nd0 nd1 nd2 nd3 nd4 nd5 nd6 nd7 nd8 nd9 nd10 nd11 where
    t: "addNodeTelemetry n nd0 = Inr nd1"
    and s1: "whenPresent (Node.Metadata n) ''isDead'' assert_bool
                 (\<lambda>val nd. nd\<lparr>IsDead := val\<rparr>) nd1 = Inr nd2"
    and s2: "whenPresent (Node.Metadata n) ''isRoot'' assert_bool
                 (\<lambda>val nd. nd\<lparr>IsRoot := val\<rparr>) nd2 = Inr nd3"
    and s3: "whenPresent (Node.Metadata n) ''isUnused'' assert_bool
                 (\<lambda>val nd. nd\<lparr>NodeData.IsUnused := val\<rparr>) nd3 = Inr nd4"
    and s4: "whenPresent (Node.Metadata n) ''isInaccessible'' assert_bool
                 (\<lambda>val nd. nd\<lparr>IsInaccessible := val\<rparr>) nd4 = Inr nd5"
    and s5: "whenPresent (Node.Metadata n) ''hasCB'' assert_bool
                 (\<lambda>val nd. nd\<lparr>HasCB := val\<rparr>) nd5 = Inr nd6"
    and s6: "whenPresent (Node.Metadata n) ''hasVS'' assert_bool
                 (\<lambda>val nd. nd\<lparr>HasVS := val\<rparr>) nd6 = Inr nd7"
    and s7: "whenPresent (Node.Metadata n) ''hasMissingSC'' assert_bool
                 (\<lambda>val nd. nd\<lparr>HasMissingSC := val\<rparr>) nd7 = Inr nd8"
    and s8: "whenPresent (Node.Metadata n) ''isMisconfigured'' assert_string
                 (\<lambda>val nd. nd\<lparr>IsMisconfigured := val\<rparr>) nd8 = Inr nd9"
    and s9: "whenPresent (Node.Metadata n) ''isOutside'' assert_bool
                 (\<lambda>val nd. nd\<lparr>IsOutside := val\<rparr>) nd9 = Inr nd10"
    and s10: "whenPresent (Node.Metadata n) ''destServices'' assert_map
                 (\<lambda>val nd. nd\<lparr>DestServices := val\<rparr>) nd10 = Inr nd11"
    and s11: "whenPresent (Node.Metadata n) ''isServiceEntry'' assert_string
        (\<lambda>val nd. nd\<lparr>IsServiceEntry := val\<rparr>) nd11 = Inr nd"
    unfolding buildNode_def Let_def by (simp add: andThen_eq_Inr) blast
  note flags = s1 s2 s3 s4 s5 s6 s7 s9
  note labels = s8 s11
  from addNodeTelemetry_typed [OF t] flags [THEN whenPresent_typed, OF assert_typed(2)]
    labels [THEN whenPresent_typed, OF assert_typed(3)] whenPresent_typed [OF s10 assert_typed(4)]
  show ?thesis
    unfolding typedWhereRead_def by simp
qed

lemma buildEdge_typed:
  assumes "buildEdge md5 h n e opts = Inr ed"
  shows "edgeTypedWhereRead h e"
proof -
  from buildEdge_eq_Inr [OF assms] obtain dest :: Node and protocol where
    dest: "h (Edge.Dest e) = Some dest"
    and protocol: "(case Edge.Metadata e ''protocol'' of
              None \<Rightarrow> Inr [] | Some Nil \<Rightarrow> Inr [] | Some val \<Rightarrow> assert_string val) = Inr protocol"
    and tel: "addEdgeTelemetry h
             (zeroEdgeData\<lparr>EdgeData.Id := edgeHash md5 (nodeHash md5 (Node.ID n)) (nodeHash md5 (Node.ID dest)) protocol,
                EdgeData.Source := nodeHash md5 (Node.ID n), Target := nodeHash md5 (Node.ID dest)\<rparr>) e opts = Inr ed"
    by auto
  from protocol have label: "typedAs (\<lambda>v. v = Nil \<or> isString v) (Edge.Metadata e) ''protocol''"
    by (auto simp: typedAs_def isString_def assert_string_def split: option.splits dyn.splits)
  from addEdgeTelemetry_getRate [OF tel] obtain http
    where http: "getRate (Edge.Metadata e) ''http'' = Inr http" ..
  note positive = getRate_positiveRate [OF http]
  show ?thesis
  proof (cases "fgt http (Finite 0)")
    case True
    from addEdgeTelemetry_http [OF tel http True] obtain source httpOut where
      "h (Edge.Source e) = Some source"
      "getRate (Node.Metadata source) ''httpOut'' = Inr httpOut"
      "list_all (typedAs isFloat64 (Edge.Metadata e))
             [''http3xx'', ''http4xx'', ''http5xx'', ''responseTime'', ''tcp'']"
      "typedAs isBool (Edge.Metadata e) ''isMTLS''"
      by blast
    with True positive dest label getRate_typed [OF http] show ?thesis
      unfolding edgeTypedWhereRead_def by (simp add: getRate_typed)
  next
    case False
    from addEdgeTelemetry_no_http [OF tel http False] obtain source where
      "h (Edge.Source e) = Some source"
      "typedAs isBool (Node.Metadata source) ''isUnused''"
      "typedAs isFloat64 (Edge.Metadata e) ''tcp''"
      "typedAs isBool (Edge.Metadata e) ''isMTLS''"
      by blast
    with False positive dest label getRate_typed [OF http] show ?thesis
      unfolding edgeTypedWhereRead_def by simp
  qed
qed

lemma buildConfig_typed:
  assumes "buildConfig md5 h trafficMap nodes edges opts = Inr r"
  shows "graphTypedWhereRead h trafficMap"
proof -
  obtain nodes' edges' where "r = (nodes', edges')"
    by (cases r)
  with buildConfig_result [of md5 h trafficMap nodes edges opts nodes' edges'] assms
  obtain nws ewss where
    nws: "list_all2 (\<lambda>(ident, a) nw. \<exists>n. h a = Some n \<and> buildNode md5 ident n = Inr nw)
            trafficMap nws"
    and ewss: "list_all2 (\<lambda>(ident, a) ews. \<exists>n. h a = Some n \<and>
          list_all2 (\<lambda>e ew. \<exists>edge. e = Some edge \<and> buildEdge md5 h n edge opts = Inr ew)
            (Node.Edges n) ews) trafficMap ewss"
    by blast
  have "case h a of None \<Rightarrow> False
        | Some n \<Rightarrow> typedWhereRead n \<and>
            list_all (\<lambda>e. case e of None \<Rightarrow> False | Some e \<Rightarrow> edgeTypedWhereRead h e) (Node.Edges n)"
    if "(ident, a) \<in> set trafficMap" for ident a
  proof -
    from that obtain p where p: "p < length trafficMap" "trafficMap ! p = (ident, a)"
      by (auto simp: in_set_conv_nth)
    from list_all2_nthD [OF nws p(1)] p(2) obtain n where n: "h a = Some n"
      and "buildNode md5 ident n = Inr (nws ! p)"
      by auto
    then have node: "typedWhereRead n"
      by (auto dest: buildNode_typed)
    from list_all2_nthD [OF ewss p(1)] p(2) n
    have "list_all2 (\<lambda>e ew. \<exists>edge. e = Some edge \<and> buildEdge md5 h n edge opts = Inr ew)
            (Node.Edges n) (ewss ! p)"
      by simp
    then have built: "\<exists>edge ew. Node.Edges n ! i = Some edge \<and> buildEdge md5 h n edge opts = Inr ew"
      if "i < length (Node.Edges n)" for i
      using that by (auto simp: list_all2_conv_all_nth)
    have "\<exists>edge. e = Some edge \<and> edgeTypedWhereRead h edge" if "e \<in> set (Node.Edges n)" for e
    proof -
      from that obtain i where "i < length (Node.Edges n)" "e = Node.Edges n ! i"
        by (auto simp: in_set_conv_nth)
      with built [of i] obtain edge ew where "e = Some edge" "buildEdge md5 h n edge opts = Inr ew"
        by auto
      with buildEdge_typed [of md5 h n edge opts ew] show ?thesis
        by simp
    qed
    then have "list_all (\<lambda>e. case e of None \<Rightarrow> False | Some e \<Rightarrow> edgeTypedWhereRead h e) (Node.Edges n)"
      unfolding list_all_iff by (fastforce split: option.splits)
    with n node show ?thesis
      by simp
  qed
  then show ?thesis
    unfolding graphTypedWhereRead_def by (auto simp: list_all_iff)
qed

subsection \<open>A value that is not read leaves its field out\<close>

lemma buildNode_unread:
  assumes "buildNode md5 ident n = Inr nd" and "\<not> positiveRate (Node.Metadata n) ''httpIn''"
  shows "HttpIn3xx nd = [] \<and> HttpIn4xx nd = [] \<and> HttpIn5xx nd = []"
proof -
  from buildNode_eq_Inr [OF assms(1)] obtain nd1 where
    t: "addNodeTelemetry n
             (zeroNodeData\<lparr>NodeData.Id := nodeHash md5 ident, NodeData.NodeType := Node.NodeType n,
                 NodeData.Namespace := Node.Namespace n, NodeData.Workload := Node.Workload n,
                 NodeData.App := Node.App n, NodeData.Version := Node.Version n,
                 NodeData.Service := Node.Service n\<rparr>) = Inr nd1"
    and eq: "HttpIn3xx nd = HttpIn3xx nd1" "HttpIn4xx nd = HttpIn4xx nd1"
           "HttpIn5xx nd = HttpIn5xx nd1"
    by blast
  have "HttpIn nd1 = rateField (Node.Metadata n) ''httpIn''
       \<and> HttpOut nd1 = rateField (Node.Metadata n) ''httpOut''
       \<and> TcpIn nd1 = rateField (Node.Metadata n) ''tcpIn''
       \<and> TcpOut nd1 = rateField (Node.Metadata n) ''tcpOut''
       \<and> HttpIn3xx nd1 = (if positiveRate (Node.Metadata n) ''httpIn''
                         then rateField (Node.Metadata n) ''httpIn3xx'' else [])
       \<and> HttpIn4xx nd1 = (if positiveRate (Node.Metadata n) ''httpIn''
                         then rateField (Node.Metadata n) ''httpIn4xx'' else [])
       \<and> HttpIn5xx nd1 = (if positiveRate (Node.Metadata n) ''httpIn''
                         then rateField (Node.Metadata n) ''httpIn5xx'' else [])"
    by (rule addNodeTelemetry_fresh [OF t]) (simp_all add: zeroNodeData_def)
  with eq assms(2) show ?thesis
    by simp
qed

lemma buildEdge_unread:
  assumes "buildEdge md5 h n e opts = Inr ed"
  shows "if positiveRate (Edge.Metadata e) ''http'' then \<not> EdgeData.IsUnused ed
         else Http3xx ed = [] \<and> Http4xx ed = [] \<and> Http5xx ed = [] \<and> ResponseTime ed = [] \<and>
              HttpPercentReq ed = []"
proof -
  from buildEdge_eq_Inr [OF assms] obtain dest :: Node and protocol where
    tel: "addEdgeTelemetry h
             (zeroEdgeData\<lparr>EdgeData.Id := edgeHash md5 (nodeHash md5 (Node.ID n)) (nodeHash md5 (Node.ID dest)) protocol,
                EdgeData.Source := nodeHash md5 (Node.ID n), Target := nodeHash md5 (Node.ID dest)\<rparr>) e opts = Inr ed"
    by auto
  from addEdgeTelemetry_getRate [OF tel] obtain http
    where http: "getRate (Edge.Metadata e) ''http'' = Inr http" ..
  note positive = getRate_positiveRate [OF http]
  show ?thesis
  proof (cases "fgt http (Finite 0)")
    case True
    from addEdgeTelemetry_http [OF tel http True] have "\<not> EdgeData.IsUnused ed"
      by (auto simp: zeroEdgeData_def)
    with True positive show ?thesis
      by simp
  next
    case False
    from addEdgeTelemetry_no_http [OF tel http False]
    have "Http3xx ed = [] \<and> Http4xx ed = [] \<and> Http5xx ed = [] \<and> ResponseTime ed = [] \<and>
          HttpPercentReq ed = []"
      by (auto simp: zeroEdgeData_def)
    with False positive show ?thesis
      by simp
  qed
qed

text \<open>
  C4 (amended). The transformation completes and returns a full document exactly for
  the input graphs in which every metadata value that it reads has the dynamic type it
  asserts and every node and edge pointer that it follows is not nil; for every other
  input it aborts. A value of an unexpected type that is not read leaves the record that
  is built without the corresponding field: httpIn3xx, httpIn4xx or httpIn5xx of a node
  whose httpIn is not strictly greater than zero; http3xx, http4xx, http5xx or
  responseTime of an edge whose http is not strictly greater than zero, and httpOut of
  the source node of such an edge; isUnused of the source node of an edge whose http is
  strictly greater than zero.
\<close>

theorem completes_iff_read_values_typed:
  "((\<exists>cfg. NewConfig md5 rangeOrder h trafficMap opts = Inr cfg) \<longleftrightarrow>
      graphTypedWhereRead h trafficMap) \<and>
   (\<forall>ident n nd. buildNode md5 ident n = Inr nd \<longrightarrow>
      (\<not> typedAs isFloat64 (Node.Metadata n) ''httpIn3xx'' \<longrightarrow> HttpIn3xx nd = []) \<and>
      (\<not> typedAs isFloat64 (Node.Metadata n) ''httpIn4xx'' \<longrightarrow> HttpIn4xx nd = []) \<and>
      (\<not> typedAs isFloat64 (Node.Metadata n) ''httpIn5xx'' \<longrightarrow> HttpIn5xx nd = [])) \<and>
   (\<forall>n e ed source. buildEdge md5 h n e opts = Inr ed \<longrightarrow> h (Edge.Source e) = Some source \<longrightarrow>
      (\<not> typedAs isFloat64 (Edge.Metadata e) ''http3xx'' \<longrightarrow> Http3xx ed = []) \<and>
      (\<not> typedAs isFloat64 (Edge.Metadata e) ''http4xx'' \<longrightarrow> Http4xx ed = []) \<and>
      (\<not> typedAs isFloat64 (Edge.Metadata e) ''http5xx'' \<longrightarrow> Http5xx ed = []) \<and>
      (\<not> typedAs isFloat64 (Edge.Metadata e) ''responseTime'' \<longrightarrow> ResponseTime ed = []) \<and>
      (\<not> typedAs isFloat64 (Node.Metadata source) ''httpOut'' \<longrightarrow> HttpPercentReq ed = []) \<and>
      (\<not> typedAs isBool (Node.Metadata source) ''isUnused'' \<longrightarrow> \<not> EdgeData.IsUnused ed))"
proof (intro conjI allI impI)
  show "(\<exists>cfg. NewConfig md5 rangeOrder h trafficMap opts = Inr cfg) \<longleftrightarrow>
          graphTypedWhereRead h trafficMap"
  proof
    assume "\<exists>cfg. NewConfig md5 rangeOrder h trafficMap opts = Inr cfg"
    then obtain cfg where "NewConfig md5 rangeOrder h trafficMap opts = Inr cfg" ..
    from NewConfig_eq_Inr [OF this] obtain r
      where "buildConfig md5 h trafficMap [] [] opts = Inr r"
      by blast
    then show "graphTypedWhereRead h trafficMap"
      by (rule buildConfig_typed)
  next
    assume "graphTypedWhereRead h trafficMap"
    from buildConfig_total [OF this] obtain nodes edges
      where "buildConfig md5 h trafficMap [] [] opts = Inr (nodes, edges)"
      by (metis surj_pair)
    then show "\<exists>cfg. NewConfig md5 rangeOrder h trafficMap opts = Inr cfg"
      unfolding NewConfig_def Let_def by simp
  qed
next
  fix ident n nd
  assume built: "buildNode md5 ident n = Inr nd"
  from buildNode_typed [OF built]
  have read: "positiveRate (Node.Metadata n) ''httpIn'' \<longrightarrow>
        list_all (typedAs isFloat64 (Node.Metadata n)) [''httpIn3xx'', ''httpIn4xx'', ''httpIn5xx'']"
    by (simp add: typedWhereRead_def)
  {
    assume "\<not> typedAs isFloat64 (Node.Metadata n) ''httpIn3xx''"
    with read buildNode_unread [OF built] show "HttpIn3xx nd = []"
      by auto
  next
    assume "\<not> typedAs isFloat64 (Node.Metadata n) ''httpIn4xx''"
    with read buildNode_unread [OF built] show "HttpIn4xx nd = []"
      by auto
  next
    assume "\<not> typedAs isFloat64 (Node.Metadata n) ''httpIn5xx''"
    with read buildNode_unread [OF built] show "HttpIn5xx nd = []"
      by auto
  }
next
  fix n e ed source
  assume built: "buildEdge md5 h n e opts = Inr ed" and src: "h (Edge.Source e) = Some source"
  from buildEdge_typed [OF built] src
  have read: "if positiveRate (Edge.Metadata e) ''http'' then
            list_all (typedAs isFloat64 (Edge.Metadata e))
              [''http3xx'', ''http4xx'', ''http5xx'', ''responseTime''] \<and>
            typedAs isFloat64 (Node.Metadata source) ''httpOut''
          else typedAs isBool (Node.Metadata source) ''isUnused''"
    by (auto simp: edgeTypedWhereRead_def split: if_splits)
  note unread = buildEdge_unread [OF built]
  {
    assume "\<not> typedAs isFloat64 (Edge.Metadata e) ''http3xx''"
    with read unread show "Http3xx ed = []"
      by (auto split: if_splits)
  next
    assume "\<not> typedAs isFloat64 (Edge.Metadata e) ''http4xx''"
    with read unread show "Http4xx ed = []"
      by (auto split: if_splits)
  next
    assume "\<not> typedAs isFloat64 (Edge.Metadata e) ''http5xx''"
    with read unread show "Http5xx ed = []"
      by (auto split: if_splits)
  next
    assume "\<not> typedAs isFloat64 (Edge.Metadata e) ''responseTime''"
    with read unread show "ResponseTime ed = []"
      by (auto split: if_splits)
  next
    assume "\<not> typedAs isFloat64 (Node.Metadata source) ''httpOut''"
    with read unread show "HttpPercentReq ed = []"
      by (auto split: if_splits)
  next
    assume "\<not> typedAs isBool (Node.Metadata source) ''isUnused''"
    with read unread show "\<not> EdgeData.IsUnused ed"
      by (auto split: if_splits)
  }
qed

text \<open>
  C4 as stated fails: the node g carries the string "fast" under the rate key httpIn, and
  the transformation panics on the type assertion of getRate.
\<close>

theorem malformed_metadata_aborts:
  "Node.Metadata garbledNode ''httpIn'' = Some (String ''fast'')
   \<and> NewConfig exampleDigest id garbledHeap garbledMap exOpts = Inl TypeAssertion"
  by (simp add: NewConfig_def build_defs garbledHeap_def garbledMap_def garbledNode_def)

lemma sloppyNode_built: "buildNode exampleDigest ''g'' sloppyNode = Inr sloppyRecord"
  by (simp add: build_defs sloppyNode_def sloppyRecord_def exampleDigest_def)

lemma sloppyEdge_built:
  "buildEdge exampleDigest sloppyHeap sloppyNode sloppyEdge plainOpts = Inr sloppyEdgeRecord"
  by (simp add: build_defs sloppyHeap_def sloppyNode_def sloppyEdge_def idleNode_def
        sloppyEdgeRecord_def exampleDigest_def)

lemma sloppyConfig_built:
  "NewConfig exampleDigest id sloppyHeap sloppyMap plainOpts = Inr sloppyConfig"
  by (simp add: NewConfig_def build_defs group_defs sort_defs Seconds_minute sloppyHeap_def
        sloppyMap_def sloppyNode_def sloppyEdge_def idleNode_def plainOpts_def exampleDigest_def
        sloppyConfig_def sloppyRecord_def sloppyEdgeRecord_def idleRecord_def)

theorem completes_iff_read_values_typed_witness:
  "graphTypedWhereRead sloppyHeap sloppyMap
   \<and> NewConfig exampleDigest id sloppyHeap sloppyMap plainOpts = Inr sloppyConfig
   \<and> Node.Metadata sloppyNode ''httpIn3xx'' = Some (String ''fast'')
   \<and> Edge.Metadata sloppyEdge ''responseTime'' = Some (String ''slow'')
   \<and> buildNode exampleDigest ''g'' sloppyNode = Inr sloppyRecord
   \<and> buildEdge exampleDigest sloppyHeap sloppyNode sloppyEdge plainOpts = Inr sloppyEdgeRecord
   \<and> HttpIn3xx sloppyRecord = []
   \<and> ResponseTime sloppyEdgeRecord = []
   \<and> \<not> graphTypedWhereRead garbledHeap garbledMap"
proof -
  have given: "Node.Metadata sloppyNode ''httpIn3xx'' = Some (String ''fast'')"
    "Edge.Metadata sloppyEdge ''responseTime'' = Some (String ''slow'')"
    by (simp_all add: sloppyNode_def sloppyEdge_def)
  then have odd: "\<not> typedAs isFloat64 (Node.Metadata sloppyNode) ''httpIn3xx''"
    "\<not> typedAs isFloat64 (Edge.Metadata sloppyEdge) ''responseTime''"
    by (simp_all add: typedAs_def isFloat64_def)
  have src: "sloppyHeap (Edge.Source sloppyEdge) = Some sloppyNode"
    by (simp add: sloppyHeap_def sloppyEdge_def)
  from completes_iff_read_values_typed [of exampleDigest id sloppyHeap sloppyMap plainOpts] sloppyConfig_built
  have typed: "graphTypedWhereRead sloppyHeap sloppyMap"
    by blast
  from completes_iff_read_values_typed [of exampleDigest id sloppyHeap sloppyMap plainOpts] sloppyNode_built odd(1)
  have node: "HttpIn3xx sloppyRecord = []"
    by blast
  from completes_iff_read_values_typed [of exampleDigest id sloppyHeap sloppyMap plainOpts] sloppyEdge_built src odd(2)
  have edge: "ResponseTime sloppyEdgeRecord = []"
    by blast
  have "NewConfig exampleDigest id garbledHeap garbledMap exOpts = Inl TypeAssertion"
    by (simp add: NewConfig_def build_defs garbledHeap_def garbledMap_def garbledNode_def)
  with completes_iff_read_values_typed [of exampleDigest id garbledHeap garbledMap exOpts]
  have aborts: "\<not> graphTypedWhereRead garbledHeap garbledMap"
    by auto
  from typed sloppyConfig_built given sloppyNode_built sloppyEdge_built node edge aborts
  show ?thesis
    by simp
qed

section \<open>Compound nodes\<close>

subsection \<open>assignMembers\<close>

lemma assignMembers_length: "length (fst (assignMembers nodeId ms nodes nd)) = length nodes"
  by (induction ms arbitrary: nodes nd) (simp_all add: Let_def)

lemma assignMembers_nth:
  assumes "i < length nodes"
  shows "fst (assignMembers nodeId ms nodes nd) ! i =
           (if i \<in> set ms then (nodes ! i)\<lparr>Parent := nodeId\<rparr> else nodes ! i)"
  using assms
proof (induction ms arbitrary: nodes nd)
  case Nil
  then show ?case by simp
next
  case (Cons j ms)
  let ?nodes = "nodes[j := (nodes ! j)\<lparr>Parent := nodeId\<rparr>]"
  have len: "i < length ?nodes"
    using Cons.prems by simp
  have "fst (assignMembers nodeId (j # ms) nodes nd) ! i =
          (if i \<in> set ms then (?nodes ! i)\<lparr>Parent := nodeId\<rparr> else ?nodes ! i)"
    using Cons.IH [OF len] by (simp add: Let_def)
  also have "\<dots> = (if i \<in> set (j # ms) then (nodes ! i)\<lparr>Parent := nodeId\<rparr> else nodes ! i)"
    using Cons.prems by (cases "i = j") simp_all
  finally show ?case .
qed

lemma assignMembers_group:
  "NodeData.Id (snd (assignMembers nodeId ms nodes nd)) = NodeData.Id nd \<and>
   IsGroup (snd (assignMembers nodeId ms nodes nd)) = IsGroup nd \<and>
   NodeData.Namespace (snd (assignMembers nodeId ms nodes nd)) = NodeData.Namespace nd \<and>
   NodeData.App (snd (assignMembers nodeId ms nodes nd)) = NodeData.App nd \<and>
   NodeData.Version (snd (assignMembers nodeId ms nodes nd)) = NodeData.Version nd \<and>
   NodeData.Service (snd (assignMembers nodeId ms nodes nd)) = NodeData.Service nd \<and>
   NodeData.Workload (snd (assignMembers nodeId ms nodes nd)) = NodeData.Workload nd \<and>
   NodeData.NodeType (snd (assignMembers nodeId ms nodes nd)) = NodeData.NodeType nd \<and>
   Parent (snd (assignMembers nodeId ms nodes nd)) = Parent nd"
  by (induction ms arbitrary: nodes nd) (simp_all add: Let_def)

subsection \<open>The loop of generateGroupCompoundNodes\<close>

lemma generateGroupCompoundNodes_Cons:
  "generateGroupCompoundNodes md5 ((k, ms) # appBox) nodes groupBy =
     generateGroupCompoundNodes md5 appBox
       (if 1 < length ms
        then fst (compound md5 groupBy k ms nodes) @ [snd (compound md5 groupBy k ms nodes)]
        else nodes) groupBy"
  by (simp add: compound_def Let_def split_beta)

lemma compound_length: "length (fst (compound md5 groupBy k ms nodes)) = length nodes"
  by (simp add: compound_def assignMembers_length)

lemma compound_nth:
  "i < length nodes \<Longrightarrow>
     fst (compound md5 groupBy k ms nodes) ! i =
       (if i \<in> set ms then (nodes ! i)\<lparr>Parent := nodeHash md5 k\<rparr> else nodes ! i)"
  by (simp add: compound_def assignMembers_nth)

lemma compound_group:
  "NodeData.Id (snd (compound md5 groupBy k ms nodes)) = nodeHash md5 k"
  "IsGroup (snd (compound md5 groupBy k ms nodes)) = groupBy"
  "NodeData.Namespace (snd (compound md5 groupBy k ms nodes)) = NodeData.Namespace (nodes ! (ms ! 0))"
  "NodeData.App (snd (compound md5 groupBy k ms nodes)) = NodeData.App (nodes ! (ms ! 0))"
  "NodeData.Version (snd (compound md5 groupBy k ms nodes)) = []"
  "NodeData.Service (snd (compound md5 groupBy k ms nodes)) = []"
  "NodeData.Workload (snd (compound md5 groupBy k ms nodes)) = []"
  "NodeData.NodeType (snd (compound md5 groupBy k ms nodes)) = NodeTypeApp"
  "Parent (snd (compound md5 groupBy k ms nodes)) = []"
  by (simp_all add: compound_def assignMembers_group zeroNodeData_def)

lemma generateGroupCompoundNodes_length:
  "length nodes \<le> length (generateGroupCompoundNodes md5 appBox nodes groupBy)"
proof (induction appBox arbitrary: nodes)
  case Nil
  then show ?case by simp
next
  case (Cons entry appBox)
  obtain k ms where entry: "entry = (k, ms)" by (cases entry)
  let ?nodes = "if 1 < length ms
        then fst (compound md5 groupBy k ms nodes) @ [snd (compound md5 groupBy k ms nodes)]
        else nodes"
  have "length nodes \<le> length ?nodes"
    by (simp add: compound_length)
  also have "\<dots> \<le> length (generateGroupCompoundNodes md5 appBox ?nodes groupBy)"
    by (rule Cons.IH)
  finally show ?case
    by (simp only: entry generateGroupCompoundNodes_Cons)
qed

lemma generateGroupCompoundNodes_untouched:
  assumes "i < length nodes"
    and "\<forall>(k, ms) \<in> set appBox. 1 < length ms \<longrightarrow> i \<notin> set ms"
  shows "generateGroupCompoundNodes md5 appBox nodes groupBy ! i = nodes ! i"
  using assms
proof (induction appBox arbitrary: nodes)
  case Nil
  then show ?case by simp
next
  case (Cons entry appBox)
  obtain k ms where entry: "entry = (k, ms)" by (cases entry)
  let ?nodes = "if 1 < length ms
        then fst (compound md5 groupBy k ms nodes) @ [snd (compound md5 groupBy k ms nodes)]
        else nodes"
  have len: "i < length ?nodes"
    using Cons.prems(1) by (simp add: compound_length)
  have rest: "\<forall>(k, ms) \<in> set appBox. 1 < length ms \<longrightarrow> i \<notin> set ms"
    using Cons.prems(2) by simp
  have "1 < length ms \<longrightarrow> i \<notin> set ms"
    using Cons.prems(2) entry by simp
  then have same: "?nodes ! i = nodes ! i"
    using Cons.prems(1) by (simp add: nth_append compound_length compound_nth)
  from Cons.IH [OF len rest] same show ?case
    by (simp only: entry generateGroupCompoundNodes_Cons)
qed

lemma generateGroupCompoundNodes_member:
  assumes "i < length nodes"
    and "(k, ms) \<in> set appBox" and "1 < length ms" and "i \<in> set ms"
    and "\<forall>(k', ms') \<in> set appBox. 1 < length ms' \<longrightarrow> i \<in> set ms' \<longrightarrow> k' = k"
  shows "generateGroupCompoundNodes md5 appBox nodes groupBy ! i =
           (nodes ! i)\<lparr>Parent := nodeHash md5 k\<rparr>"
  using assms
proof (induction appBox arbitrary: nodes ms)
  case Nil
  then show ?case by simp
next
  case (Cons entry appBox)
  obtain k0 ms0 where entry: "entry = (k0, ms0)" by (cases entry)
  let ?nodes = "if 1 < length ms0
        then fst (compound md5 groupBy k0 ms0 nodes) @ [snd (compound md5 groupBy k0 ms0 nodes)]
        else nodes"
  have len: "i < length ?nodes"
    using Cons.prems(1) by (simp add: compound_length)
  have rest: "\<forall>(k', ms') \<in> set appBox. 1 < length ms' \<longrightarrow> i \<in> set ms' \<longrightarrow> k' = k"
    using Cons.prems(5) by simp
  have first: "1 < length ms0 \<Longrightarrow> i \<in> set ms0 \<Longrightarrow> k0 = k"
    using Cons.prems(5) entry by simp
  have step: "(?nodes ! i)\<lparr>Parent := nodeHash md5 k\<rparr> = (nodes ! i)\<lparr>Parent := nodeHash md5 k\<rparr>"
    using Cons.prems(1) by (simp add: nth_append compound_length compound_nth)
  show ?case
  proof (cases "\<exists>(k', ms') \<in> set appBox. 1 < length ms' \<and> i \<in> set ms'")
    case True
    then obtain k' ms' where other: "(k', ms') \<in> set appBox" "1 < length ms'" "i \<in> set ms'"
      by blast
    with rest have "k' = k" by blast
    with other have "(k, ms') \<in> set appBox" by simp
    from Cons.IH [OF len this other(2,3) rest] step show ?thesis
      by (simp only: entry generateGroupCompoundNodes_Cons)
  next
    case False
    then have none: "\<forall>(k', ms') \<in> set appBox. 1 < length ms' \<longrightarrow> i \<notin> set ms'"
      by blast
    with Cons.prems(2,3,4) entry have eq: "k0 = k" "ms0 = ms"
      by auto
    have "?nodes ! i = (nodes ! i)\<lparr>Parent := nodeHash md5 k\<rparr>"
      using Cons.prems(1,3,4) eq by (simp add: nth_append compound_length compound_nth)
    with generateGroupCompoundNodes_untouched [OF len none] show ?thesis
      by (simp only: entry generateGroupCompoundNodes_Cons)
  qed
qed

lemma generateGroupCompoundNodes_appended:
  assumes "n \<le> length nodes"
    and "\<forall>(k, ms) \<in> set appBox. \<forall>j \<in> set ms. j < n"
  shows "list_all2 (\<lambda>e g.
            NodeData.Id g = nodeHash md5 (fst e) \<and> IsGroup g = groupBy \<and>
            (snd e ! 0 < n \<longrightarrow>
               NodeData.Namespace g = NodeData.Namespace (nodes ! (snd e ! 0)) \<and>
               NodeData.App g = NodeData.App (nodes ! (snd e ! 0))))
          (filter (\<lambda>(k, ms). 1 < length ms) appBox)
          (drop (length nodes) (generateGroupCompoundNodes md5 appBox nodes groupBy))"
  using assms
proof (induction appBox arbitrary: nodes)
  case Nil
  then show ?case by simp
next
  case (Cons entry appBox)
  obtain k ms where entry: "entry = (k, ms)" by (cases entry)
  have rest: "\<forall>(k, ms) \<in> set appBox. \<forall>j \<in> set ms. j < n"
    using Cons.prems(2) by simp
  show ?case
  proof (cases "1 < length ms")
    case False
    with Cons.IH [OF Cons.prems(1) rest] show ?thesis
      by (simp add: entry)
  next
    case True
    let ?c = "compound md5 groupBy k ms nodes"
    let ?nodes = "fst ?c @ [snd ?c]"
    let ?out = "generateGroupCompoundNodes md5 appBox ?nodes groupBy"
    have out: "generateGroupCompoundNodes md5 (entry # appBox) nodes groupBy = ?out"
      using True by (simp only: entry generateGroupCompoundNodes_Cons if_True)
    have len: "length ?nodes = Suc (length nodes)"
      by (simp add: compound_length)
    have n': "n \<le> length ?nodes"
      using Cons.prems(1) len by simp
    have fields: "NodeData.Namespace (?nodes ! j) = NodeData.Namespace (nodes ! j) \<and>
                  NodeData.App (?nodes ! j) = NodeData.App (nodes ! j)" if "j < n" for j
      using that Cons.prems(1) by (simp add: nth_append compound_length compound_nth)
    have tail: "list_all2 (\<lambda>e g.
            NodeData.Id g = nodeHash md5 (fst e) \<and> IsGroup g = groupBy \<and>
            (snd e ! 0 < n \<longrightarrow>
               NodeData.Namespace g = NodeData.Namespace (nodes ! (snd e ! 0)) \<and>
               NodeData.App g = NodeData.App (nodes ! (snd e ! 0))))
          (filter (\<lambda>(k, ms). 1 < length ms) appBox) (drop (length ?nodes) ?out)"
      using Cons.IH [OF n' rest]
      by (rule list_all2_mono) (auto simp: fields)
    have pos: "length nodes < length ?nodes"
      using len by simp
    have "\<forall>(k', ms') \<in> set appBox. 1 < length ms' \<longrightarrow> length nodes \<notin> set ms'"
      using rest Cons.prems(1) by fastforce
    from generateGroupCompoundNodes_untouched [OF pos this]
    have head: "?out ! length nodes = snd ?c"
      by (simp add: nth_append compound_length)
    have "length nodes < length ?out"
      using generateGroupCompoundNodes_length [of ?nodes md5 appBox groupBy] len by simp
    then have "drop (length nodes) ?out = ?out ! length nodes # drop (Suc (length nodes)) ?out"
      by (simp add: Cons_nth_drop_Suc)
    with head len have split: "drop (length nodes) ?out = snd ?c # drop (length ?nodes) ?out"
      by simp
    have boxes: "filter (\<lambda>(k, ms). 1 < length ms) (entry # appBox) =
                   (k, ms) # filter (\<lambda>(k, ms). 1 < length ms) appBox"
      using True by (simp add: entry)
    have groups: "drop (length nodes) (generateGroupCompoundNodes md5 (entry # appBox) nodes groupBy) =
                    snd ?c # drop (length ?nodes) ?out"
      by (simp only: out split)
    show ?thesis
      unfolding boxes groups using tail by (simp add: compound_group)
  qed
qed

subsection \<open>The box that the grouping passes fill\<close>

lemma appendMember_keys:
  "fst ` set (appendMember k i appBox) = insert k (fst ` set appBox)"
proof (induction appBox)
  case Nil
  then show ?case by simp
next
  case (Cons entry appBox)
  obtain k' ms where entry: "entry = (k', ms)" by (cases entry)
  from Cons show ?case
    by (cases "k' = k") (simp_all add: entry insert_commute)
qed

lemma appendMember_distinct:
  "distinct (map fst appBox) \<Longrightarrow> distinct (map fst (appendMember k i appBox))"
proof (induction appBox)
  case Nil
  then show ?case by simp
next
  case (Cons entry appBox)
  obtain k' ms where entry: "entry = (k', ms)" by (cases entry)
  from Cons entry appendMember_keys [of k i appBox] show ?case
    by auto
qed

lemma appendMember_map_of:
  "map_of (appendMember k i appBox) =
     (map_of appBox)(k \<mapsto> (case map_of appBox k of None \<Rightarrow> [i] | Some ms \<Rightarrow> ms @ [i]))"
proof (induction appBox)
  case Nil
  then show ?case by simp
next
  case (Cons entry appBox)
  obtain k' ms where entry: "entry = (k', ms)" by (cases entry)
  show ?case
  proof (cases "k' = k")
    case True
    then show ?thesis by (auto simp: entry)
  next
    case False
    with Cons show ?thesis
      by (auto simp: entry)
  qed
qed

lemma collectBoxes_snoc:
  "collectBoxes candidate (nodes @ [nw]) =
     (if candidate nw then appendMember (boxKey nw) (length nodes) (collectBoxes candidate nodes)
      else collectBoxes candidate nodes)"
  by (simp add: collectBoxes_def enumerate_append_eq)

lemma members_snoc:
  "boxMembers candidate (nodes @ [nw]) k =
     boxMembers candidate nodes k @ (if candidate nw \<and> boxKey nw = k then [length nodes] else [])"
proof -
  have "filter (\<lambda>i. candidate ((nodes @ [nw]) ! i) \<and> boxKey ((nodes @ [nw]) ! i) = k) [0..<length nodes] =
        filter (\<lambda>i. candidate (nodes ! i) \<and> boxKey (nodes ! i) = k) [0..<length nodes]"
    by (rule filter_cong) (simp_all add: nth_append)
  then show ?thesis
    by (simp add: boxMembers_def)
qed

lemma collectBoxes_map_of:
  "distinct (map fst (collectBoxes candidate nodes)) \<and>
   (\<forall>k. map_of (collectBoxes candidate nodes) k =
         (if boxMembers candidate nodes k = [] then None else Some (boxMembers candidate nodes k)))"
proof (induction nodes rule: rev_induct)
  case Nil
  then show ?case by (simp add: collectBoxes_def boxMembers_def)
next
  case (snoc nw nodes)
  show ?case
  proof (cases "candidate nw")
    case False
    with snoc show ?thesis
      by (simp add: collectBoxes_snoc members_snoc)
  next
    case True
    with snoc show ?thesis
      by (simp add: collectBoxes_snoc members_snoc appendMember_distinct appendMember_map_of)
  qed
qed

lemma members_iff:
  "i \<in> set (boxMembers candidate nodes k) \<longleftrightarrow>
     i < length nodes \<and> candidate (nodes ! i) \<and> boxKey (nodes ! i) = k"
  by (auto simp: boxMembers_def)

text \<open>The entries of the box, in whatever order the loop visits them.\<close>

lemma visited_boxes:
  assumes "mset visited = mset (collectBoxes candidate nodes)"
  shows "distinct (map fst visited)"
    and "(k, ms) \<in> set visited \<longleftrightarrow> ms = boxMembers candidate nodes k \<and> ms \<noteq> []"
proof -
  let ?box = "collectBoxes candidate nodes"
  have "mset (map fst visited) = mset (map fst ?box)"
    using assms by (metis mset_map)
  then show d: "distinct (map fst visited)"
    using collectBoxes_map_of [of candidate nodes] by (metis mset_eq_imp_distinct_iff)
  have d0: "distinct (map fst ?box)"
    and m0: "map_of ?box k = (if boxMembers candidate nodes k = [] then None
                             else Some (boxMembers candidate nodes k))"
    using collectBoxes_map_of [of candidate nodes] by simp_all
  have "set visited = set ?box"
    using assms by (metis set_mset_mset)
  then have "(k, ms) \<in> set visited \<longleftrightarrow> map_of ?box k = Some ms"
    using map_of_eq_Some_iff [OF d0] by simp
  also have "\<dots> \<longleftrightarrow> ms = boxMembers candidate nodes k \<and> ms \<noteq> []"
    unfolding m0 by auto
  finally show "(k, ms) \<in> set visited \<longleftrightarrow> ms = boxMembers candidate nodes k \<and> ms \<noteq> []" .
qed

lemma filter_key_length:
  assumes "distinct (map fst es)"
  shows "length (filter (\<lambda>e. fst e = k) es) = (if k \<in> fst ` set es then 1 else 0)"
  using assms by (induction es) (auto simp: image_iff)

lemma list_all2_filter_key_length:
  assumes "list_all2 (\<lambda>e g. key g = fst e) es gs"
  shows "length (filter (\<lambda>g. key g = k) gs) = length (filter (\<lambda>e. fst e = k) es)"
  using assms by (induction es gs rule: list_all2_induct) simp_all

lemma list_all2_right:
  "list_all2 P xs ys \<Longrightarrow> y \<in> set ys \<Longrightarrow> \<exists>x \<in> set xs. P x y"
  by (induction rule: list_all2_induct) auto

lemma generateGroupCompoundNodes_boxesGrouped:
  assumes visited: "mset visited = mset (collectBoxes candidate nodes)"
  shows "boxesGrouped md5 candidate groupBy nodes (generateGroupCompoundNodes md5 visited nodes groupBy)"
proof -
  let ?out = "generateGroupCompoundNodes md5 visited nodes groupBy"
  let ?big = "\<lambda>(k, ms). 1 < length (ms :: nat list)"
  note entries = visited_boxes(2) [OF visited]
  have len: "length nodes \<le> length ?out"
    by (rule generateGroupCompoundNodes_length)
  have nth: "?out ! i =
        (if candidate (nodes ! i) \<and> 2 \<le> length (boxMembers candidate nodes (boxKey (nodes ! i)))
         then (nodes ! i)\<lparr>Parent := nodeHash md5 (boxKey (nodes ! i))\<rparr> else nodes ! i)"
    if i: "i < length nodes" for i
  proof (cases "candidate (nodes ! i) \<and> 2 \<le> length (boxMembers candidate nodes (boxKey (nodes ! i)))")
    case True
    let ?k = "boxKey (nodes ! i)"
    let ?ms = "boxMembers candidate nodes ?k"
    from True i have "i \<in> set ?ms"
      by (simp add: members_iff)
    moreover from True have "1 < length ?ms" and "?ms \<noteq> []"
      by auto
    moreover from \<open>?ms \<noteq> []\<close> have "(?k, ?ms) \<in> set visited"
      by (simp add: entries)
    moreover have "\<forall>(k', ms') \<in> set visited. 1 < length ms' \<longrightarrow> i \<in> set ms' \<longrightarrow> k' = ?k"
      by (auto simp: entries members_iff)
    ultimately have "?out ! i = (nodes ! i)\<lparr>Parent := nodeHash md5 ?k\<rparr>"
      using i by (intro generateGroupCompoundNodes_member) auto
    with True show ?thesis by simp
  next
    case False
    have "\<forall>(k', ms') \<in> set visited. 1 < length ms' \<longrightarrow> i \<notin> set ms'"
      using False by (auto simp: entries members_iff)
    from generateGroupCompoundNodes_untouched [OF i this] False show ?thesis
      by auto
  qed
  have valid: "\<forall>(k, ms) \<in> set visited. \<forall>j \<in> set ms. j < length nodes"
    by (auto simp: entries members_iff)
  have "list_all2 (\<lambda>e g.
            NodeData.Id g = nodeHash md5 (fst e) \<and> IsGroup g = groupBy \<and>
            (snd e ! 0 < length nodes \<longrightarrow>
               NodeData.Namespace g = NodeData.Namespace (nodes ! (snd e ! 0)) \<and>
               NodeData.App g = NodeData.App (nodes ! (snd e ! 0))))
          (filter ?big visited) (drop (length nodes) ?out)"
    by (rule generateGroupCompoundNodes_appended [OF order_refl valid])
  then have groups: "list_all2 (\<lambda>e g.
            NodeData.Id g = nodeHash md5 (fst e) \<and> IsGroup g = groupBy \<and> boxKey g = fst e)
          (filter ?big visited) (drop (length nodes) ?out)"
  proof (rule list.rel_mono_strong)
    fix e :: "string \<times> nat list" and g :: NodeData
    assume e: "e \<in> set (filter ?big visited)"
      and "g \<in> set (drop (length nodes) ?out)"
      and g: "NodeData.Id g = nodeHash md5 (fst e) \<and> IsGroup g = groupBy \<and>
            (snd e ! 0 < length nodes \<longrightarrow>
               NodeData.Namespace g = NodeData.Namespace (nodes ! (snd e ! 0)) \<and>
               NodeData.App g = NodeData.App (nodes ! (snd e ! 0)))"
    obtain k ms where [simp]: "e = (k, ms)" by (cases e)
    from e have "(k, ms) \<in> set visited"
      by simp
    then have ms: "ms = boxMembers candidate nodes k" "ms \<noteq> []"
      unfolding entries by blast+
    then have "ms ! 0 \<in> set (boxMembers candidate nodes k)"
      by (metis length_greater_0_conv nth_mem)
    then have "ms ! 0 < length nodes" and "boxKey (nodes ! (ms ! 0)) = k"
      by (simp_all add: members_iff)
    with g show "NodeData.Id g = nodeHash md5 (fst e) \<and> IsGroup g = groupBy \<and> boxKey g = fst e"
      by (simp add: boxKey_def)
  qed
  have appended: "\<forall>g \<in> set (drop (length nodes) ?out).
        IsGroup g = groupBy \<and> NodeData.Id g = nodeHash md5 (boxKey g)"
  proof
    fix g
    assume "g \<in> set (drop (length nodes) ?out)"
    from list_all2_right [OF groups this]
    show "IsGroup g = groupBy \<and> NodeData.Id g = nodeHash md5 (boxKey g)"
      by auto
  qed
  have count: "length (filter (\<lambda>g. boxKey g = k) (drop (length nodes) ?out)) =
            (if 2 \<le> length (boxMembers candidate nodes k) then 1 else 0)" for k
  proof -
    from groups have "list_all2 (\<lambda>e g. boxKey g = fst e)
          (filter ?big visited) (drop (length nodes) ?out)"
      by (rule list_all2_mono) simp
    then have "length (filter (\<lambda>g. boxKey g = k) (drop (length nodes) ?out)) =
               length (filter (\<lambda>e. fst e = k) (filter ?big visited))"
      by (rule list_all2_filter_key_length)
    also have "\<dots> = (if k \<in> fst ` set (filter ?big visited) then 1 else 0)"
      using visited_boxes(1) [OF visited] by (intro filter_key_length) (simp add: distinct_map_filter)
    also have "k \<in> fst ` set (filter ?big visited) \<longleftrightarrow> 2 \<le> length (boxMembers candidate nodes k)"
      by (force simp: entries image_iff)
    finally show ?thesis .
  qed
  from len nth appended count show ?thesis
    unfolding boxesGrouped_def by blast
qed

lemma groupByApp_collectBoxes:
  "groupByApp md5 rangeOrder nodes =
     generateGroupCompoundNodes md5 (rangeOrder (collectBoxes candidateApp nodes)) nodes GroupByApp"
  by (simp add: groupByApp_def collectBoxes_def candidateApp_def)

lemma groupByVersion_collectBoxes:
  "groupByVersion md5 rangeOrder nodes =
     generateGroupCompoundNodes md5 (rangeOrder (collectBoxes candidateVersion nodes)) nodes GroupByVersion"
  by (simp add: groupByVersion_def collectBoxes_def candidateVersion_def)

lemma groupByApp_boxesGrouped:
  assumes "\<forall>appBox. mset (rangeOrder appBox) = mset appBox"
  shows "boxesGrouped md5 candidateApp GroupByApp nodes (groupByApp md5 rangeOrder nodes)"
  unfolding groupByApp_collectBoxes
  using assms by (intro generateGroupCompoundNodes_boxesGrouped) simp

lemma groupByVersion_boxesGrouped:
  assumes "\<forall>appBox. mset (rangeOrder appBox) = mset appBox"
  shows "boxesGrouped md5 candidateVersion GroupByVersion nodes (groupByVersion md5 rangeOrder nodes)"
  unfolding groupByVersion_collectBoxes
  using assms by (intro generateGroupCompoundNodes_boxesGrouped) simp

section \<open>The document on example graphs\<close>

lemmas example_defs = exampleDigest_def exOpts_def serviceOpts_def plainOpts_def Seconds_minute
  idleNode_def idleRecord_def v1Node_def v2Node_def v1Record_def v2Record_def groupRecord_def
  pairHeap_def pairMap_def leftNode_def rightNode_def leftRecord_def rightRecord_def tieHeap_def
  underNode_def overNode_def underRecord_def overRecord_def clashGroup_def clashHeap_def clashMap_def
  versionOpts_def shopNode_def cartNode_def shopHeap_def shopMap_def shopRecord_def cartRecord_def
  shopGroup_def

lemma ungroupedConfig_built:
  "NewConfig exampleDigest id pairHeap pairMap serviceOpts = Inr ungroupedConfig"
  by (simp add: NewConfig_def build_defs group_defs sort_defs example_defs ungroupedConfig_def)

lemma groupedConfig_built:
  "NewConfig exampleDigest id pairHeap pairMap exOpts = Inr groupedConfig"
  by (simp add: NewConfig_def build_defs group_defs sort_defs example_defs groupedConfig_def)

text \<open>
  C3 as stated fails: with group-by = app and the service graph, the two nodes that
  share ns1 and svcA get no parent and the document holds no group node.
\<close>

theorem app_grouping_skipped_for_service_graph:
  "GroupBy serviceOpts = GroupByApp
   \<and> NewConfig exampleDigest id pairHeap pairMap serviceOpts = Inr ungroupedConfig
   \<and> Nodes (Elements ungroupedConfig) = [v1Record, v2Record, idleRecord]
   \<and> NodeData.Namespace v1Record = NodeData.Namespace v2Record
   \<and> NodeData.App v1Record = NodeData.App v2Record
   \<and> NodeData.App v1Record = ''svcA''
   \<and> map Parent [v1Record, v2Record, idleRecord] = [[], [], []]
   \<and> map IsGroup [v1Record, v2Record, idleRecord] = [[], [], []]"
  by (simp add: ungroupedConfig_built)
     (simp add: ungroupedConfig_def serviceOpts_def GroupByApp_def v1Record_def v2Record_def
        idleRecord_def zeroNodeData_def)

text \<open>
  C1. Two invocations on one traffic graph and one configuration: the map holds the
  entries l and r, and the two runs of \<^verbatim>\<open>range\<close> visit them in the two possible orders.
  The two nodes compare equal under the sort, and the documents differ in the order of
  their node records.
\<close>

theorem node_order_follows_map_iteration:
  "mset [(''l'', 1), (''r'', 2)] = mset [(''r'', 2), (''l'', 1 :: addr)]
   \<and> NewConfig exampleDigest id tieHeap [(''l'', 1), (''r'', 2)] plainOpts = Inr leftFirstConfig
   \<and> NewConfig exampleDigest id tieHeap [(''r'', 2), (''l'', 1)] plainOpts = Inr rightFirstConfig
   \<and> leftFirstConfig \<noteq> rightFirstConfig"
  by (simp add: NewConfig_def build_defs group_defs sort_defs example_defs
        leftFirstConfig_def rightFirstConfig_def)

text \<open>
  C5. The keys of the nodes c (namespace a_b, app c) and d (namespace a, app b_c) are
  both box_a_b_c, so they become members of one group node, which takes the namespace of
  c; d, in the namespace a, sorts before it: the record at position 0 names as parent the
  record at position 1.
\<close>

theorem child_emitted_before_parent:
  "NewConfig exampleDigest id clashHeap clashMap exOpts = Inr clashConfig
   \<and> Nodes (Elements clashConfig) = [overRecord, clashGroup, underRecord]
   \<and> Parent overRecord = NodeData.Id clashGroup
   \<and> IsGroup clashGroup = GroupByApp"
  by (simp add: NewConfig_def build_defs group_defs sort_defs example_defs clashConfig_def)

text \<open>
  C2. With group-by = version, the nodes s (namespace shop_eu, app cart) and t (namespace
  shop, app eu_cart) are each the only node of their candidate key, shop_eu/cart and
  shop/eu_cart. The pass forms the one string box_shop_eu_cart for both, appends a group
  node for it, with the namespace and the app of s, and sets the parent of both.
\<close>

theorem singleton_keys_share_group_node:
  "NewConfig exampleDigest id shopHeap shopMap versionOpts = Inr shopConfig
   \<and> Nodes (Elements shopConfig) = [cartRecord, shopGroup, shopRecord]
   \<and> map candidateVersion [cartRecord, shopRecord] = [True, True]
   \<and> map candidateKey [cartRecord, shopRecord] = [''shop/eu_cart'', ''shop_eu/cart'']
   \<and> map boxKey [cartRecord, shopRecord] = [''box_shop_eu_cart'', ''box_shop_eu_cart'']
   \<and> IsGroup shopGroup = GroupByVersion
   \<and> candidateKey shopGroup = ''shop_eu/cart''
   \<and> map Parent [cartRecord, shopRecord] = [NodeData.Id shopGroup, NodeData.Id shopGroup]"
  by (simp add: NewConfig_def build_defs group_defs sort_defs example_defs shopConfig_def
        candidateVersion_def candidateKey_def)

section \<open>App grouping and the graph type\<close>

lemma list_all2_filter_length:
  assumes "list_all2 (\<lambda>x y. P x \<longleftrightarrow> Q y) xs ys"
  shows "length (filter P xs) = length (filter Q ys)"
  using assms by (induction xs ys rule: list_all2_induct) simp_all

lemma length_filter_nth: "length (filter (\<lambda>i. P (xs ! i)) [0..<length xs]) = length (filter P xs)"
proof -
  have "filter P xs = filter P (map ((!) xs) [0..<length xs])"
    by (simp add: map_nth)
  also have "\<dots> = map ((!) xs) (filter (\<lambda>i. P (xs ! i)) [0..<length xs])"
    by (simp add: filter_map comp_def)
  finally show ?thesis
    by simp
qed

lemma length_filter_mono:
  assumes "\<And>x. x \<in> set xs \<Longrightarrow> P x \<Longrightarrow> Q x"
  shows "length (filter P xs) \<le> length (filter Q xs)"
  using assms by (induction xs) auto

lemma length_filter_mset:
  "mset xs = mset ys \<Longrightarrow> length (filter P xs) = length (filter P ys)"
  by (metis mset_filter size_mset)

lemma built_nodes:
  assumes "buildConfig md5 h trafficMap [] [] opts = Inr (nodes, edges)"
  shows "list_all2 (\<lambda>(ident, a) nw. \<exists>n. h a = Some n \<and> buildNode md5 ident n = Inr nw) trafficMap nodes"
  using buildConfig_result [OF assms] by auto

text \<open>
  C3 (amended). When the caller configures group-by = app and the graph type is not the
  service graph, every set of two or more nodes that share a namespace and an app that
  is neither empty nor "unknown" is grouped under a compound node: the document holds a
  group node with the hash of their key as id, and each of their records names it as
  parent.
\<close>

theorem app_grouping_unless_service_graph:
  assumes perm: "\<forall>appBox. mset (rangeOrder appBox) = mset appBox"
    and cfg: "NewConfig md5 rangeOrder h trafficMap opts = Inr cfg"
    and by_app: "GroupBy opts = GroupByApp"
    and not_service: "VendorOptions.GraphType opts \<noteq> GraphTypeService"
    and app: "app \<noteq> []" "app \<noteq> ''unknown''"
    and two: "2 \<le> length (filter (\<lambda>(ident, a).
                  case h a of None \<Rightarrow> False
                  | Some n \<Rightarrow> Node.Namespace n = ns \<and> Node.App n = app) trafficMap)"
  shows "(\<exists>g \<in> set (Nodes (Elements cfg)).
            IsGroup g = GroupByApp \<and> NodeData.Id g = nodeHash md5 (''box_'' @ ns @ ''_'' @ app)) \<and>
         (\<forall>nd \<in> set (Nodes (Elements cfg)).
            IsGroup nd = [] \<and> NodeData.Namespace nd = ns \<and> NodeData.App nd = app \<longrightarrow>
            Parent nd = nodeHash md5 (''box_'' @ ns @ ''_'' @ app)) \<and>
         length (filter (\<lambda>nd. IsGroup nd = [] \<and> NodeData.Namespace nd = ns \<and> NodeData.App nd = app)
                   (Nodes (Elements cfg))) =
         length (filter (\<lambda>(ident, a).
                  case h a of None \<Rightarrow> False
                  | Some n \<Rightarrow> Node.Namespace n = ns \<and> Node.App n = app) trafficMap)"
proof -
  let ?key = "''box_'' @ ns @ ''_'' @ app"
  let ?P = "\<lambda>(ident :: string, a). case h a of None \<Rightarrow> False
                  | Some n \<Rightarrow> Node.Namespace n = ns \<and> Node.App n = app"
  let ?Q = "\<lambda>nd. NodeData.Namespace nd = ns \<and> NodeData.App nd = app"
  from NewConfig_eq_Inr [OF cfg] by_app not_service obtain nodes edges where
    built: "buildConfig md5 h trafficMap [] [] opts = Inr (nodes, edges)"
    and out: "Nodes (Elements cfg) = sort_Slice nodeLess (groupByApp md5 rangeOrder nodes)"
    by auto
  let ?out = "groupByApp md5 rangeOrder nodes"
  let ?N = "length nodes"
  have set_out: "set (Nodes (Elements cfg)) = set ?out"
    by (simp add: out set_sort_Slice)
  have grouped: "boxesGrouped md5 candidateApp GroupByApp nodes ?out"
    by (rule groupByApp_boxesGrouped [OF perm])
  have fresh: "IsGroup nw = []" if "nw \<in> set nodes" for nw
    using list_all2_right [OF built_nodes [OF built] that] by (auto simp: buildNode_ident)
  have "list_all2 (\<lambda>e nw. ?P e \<longleftrightarrow> ?Q nw) trafficMap nodes"
    using built_nodes [OF built]
    by (rule list_all2_mono) (auto simp: buildNode_ident)
  then have same: "length (filter ?P trafficMap) = length (filter ?Q nodes)"
    by (rule list_all2_filter_length)
  have Q_key: "candidateApp nd \<and> boxKey nd = ?key" if "?Q nd" for nd
    using that app by (simp add: candidateApp_def boxKey_def)
  have "length (filter ?Q nodes) \<le> length (filter (\<lambda>nd. candidateApp nd \<and> boxKey nd = ?key) nodes)"
    by (rule length_filter_mono) (simp add: Q_key)
  also have "\<dots> = length (boxMembers candidateApp nodes ?key)"
    unfolding boxMembers_def
    by (rule length_filter_nth [where P = "\<lambda>nd. candidateApp nd \<and> boxKey nd = ?key", symmetric])
  finally have big: "2 \<le> length (boxMembers candidateApp nodes ?key)"
    using two same by simp
  from grouped have len: "?N \<le> length ?out"
    and nth: "\<And>i. i < ?N \<Longrightarrow> ?out ! i =
        (if candidateApp (nodes ! i) \<and> 2 \<le> length (boxMembers candidateApp nodes (boxKey (nodes ! i)))
         then (nodes ! i)\<lparr>Parent := nodeHash md5 (boxKey (nodes ! i))\<rparr> else nodes ! i)"
    and groups: "\<And>g. g \<in> set (drop ?N ?out) \<Longrightarrow>
        IsGroup g = GroupByApp \<and> NodeData.Id g = nodeHash md5 (boxKey g)"
    and count: "\<And>k. length (filter (\<lambda>g. boxKey g = k) (drop ?N ?out)) =
            (if 2 \<le> length (boxMembers candidateApp nodes k) then 1 else 0)"
    unfolding boxesGrouped_def by blast+
  have "length (filter (\<lambda>g. boxKey g = ?key) (drop ?N ?out)) = 1"
    unfolding count using big by (simp only: if_True)
  then obtain g gs where "filter (\<lambda>g. boxKey g = ?key) (drop ?N ?out) = g # gs"
    by (cases "filter (\<lambda>g. boxKey g = ?key) (drop ?N ?out)") simp_all
  then have "g \<in> set (filter (\<lambda>g. boxKey g = ?key) (drop ?N ?out))"
    by (simp only: list.set_intros(1))
  then have g: "g \<in> set (drop ?N ?out)" "boxKey g = ?key"
    by (simp_all only: set_filter mem_Collect_eq)
  then have "g \<in> set ?out"
    by (meson in_set_dropD)
  with g groups [OF g(1)] have part1: "\<exists>g \<in> set (Nodes (Elements cfg)).
            IsGroup g = GroupByApp \<and> NodeData.Id g = nodeHash md5 ?key"
    unfolding set_out by auto
  have member: "?Q (nodes ! i) \<Longrightarrow> ?out ! i = (nodes ! i)\<lparr>Parent := nodeHash md5 ?key\<rparr>"
    and keeps: "IsGroup (?out ! i) = [] \<and> (?Q (?out ! i) \<longleftrightarrow> ?Q (nodes ! i))"
    if i: "i < ?N" for i
    using nth [OF i] Q_key [of "nodes ! i"] big fresh [of "nodes ! i"] i
    by (auto split: if_splits)
  have first: "take ?N ?out = map (\<lambda>i. ?out ! i) [0..<?N]"
    using len by (metis (no_types) map_nth min.absorb2 length_take nth_take take_all_iff
        list.map_cong0 atLeastLessThan_iff set_upt)
  have part2: "\<forall>nd \<in> set (Nodes (Elements cfg)). IsGroup nd = [] \<and> ?Q nd \<longrightarrow>
            Parent nd = nodeHash md5 ?key"
  proof (intro ballI impI)
    fix nd
    assume "nd \<in> set (Nodes (Elements cfg))" and nd: "IsGroup nd = [] \<and> ?Q nd"
    then have "nd \<in> set (take ?N ?out) \<union> set (drop ?N ?out)"
      unfolding set_out by (metis append_take_drop_id set_append)
    moreover have "nd \<notin> set (drop ?N ?out)"
      using groups [of nd] nd by (auto simp: GroupByApp_def)
    ultimately obtain i where i: "i < ?N" "nd = ?out ! i"
      unfolding first by auto
    with keeps [OF i(1)] nd have "?Q (nodes ! i)"
      by simp
    from member [OF i(1) this] i show "Parent nd = nodeHash md5 ?key"
      by simp
  qed
  have "mset (Nodes (Elements cfg)) = mset (take ?N ?out @ drop ?N ?out)"
    unfolding out mset_sort_Slice by simp
  then have "length (filter (\<lambda>nd. IsGroup nd = [] \<and> ?Q nd) (Nodes (Elements cfg))) =
        length (filter (\<lambda>nd. IsGroup nd = [] \<and> ?Q nd) (take ?N ?out @ drop ?N ?out))"
    by (rule length_filter_mset)
  also have "\<dots> = length (filter (\<lambda>nd. IsGroup nd = [] \<and> ?Q nd) (take ?N ?out)) +
        length (filter (\<lambda>nd. IsGroup nd = [] \<and> ?Q nd) (drop ?N ?out))"
    by (simp only: filter_append length_append)
  also have "filter (\<lambda>nd. IsGroup nd = [] \<and> ?Q nd) (drop ?N ?out) = []"
    using groups by (auto simp: filter_empty_conv GroupByApp_def)
  also have "length (filter (\<lambda>nd. IsGroup nd = [] \<and> ?Q nd) (take ?N ?out)) =
             length (filter (\<lambda>i. ?Q (nodes ! i)) [0..<?N])"
    unfolding first filter_map comp_def length_map
    by (rule arg_cong [where f = length], rule filter_cong) (simp_all add: keeps)
  also have "\<dots> = length (filter ?Q nodes)"
    by (rule length_filter_nth)
  finally have part3: "length (filter (\<lambda>nd. IsGroup nd = [] \<and> ?Q nd) (Nodes (Elements cfg))) =
        length (filter ?P trafficMap)"
    using same by simp
  from part1 part2 part3 show ?thesis
    by simp
qed

theorem app_grouping_unless_service_graph_witness:
  "NewConfig exampleDigest id pairHeap pairMap exOpts = Inr groupedConfig
   \<and> GroupBy exOpts = GroupByApp \<and> VendorOptions.GraphType exOpts \<noteq> GraphTypeService
   \<and> length (filter (\<lambda>(ident, a).
                  case pairHeap a of None \<Rightarrow> False
                  | Some n \<Rightarrow> Node.Namespace n = ''ns1'' \<and> Node.App n = ''svcA'') pairMap) = 2
   \<and> length (filter (\<lambda>nd. IsGroup nd = [] \<and> NodeData.Namespace nd = ''ns1'' \<and> NodeData.App nd = ''svcA'')
                (Nodes (Elements groupedConfig))) = 2"
proof -
  have perm: "\<forall>appBox :: appBox. mset (id appBox) = mset appBox"
    by simp
  have by_app: "GroupBy exOpts = GroupByApp"
    and not_service: "VendorOptions.GraphType exOpts \<noteq> GraphTypeService"
    by (simp_all add: exOpts_def GroupByApp_def GraphTypeService_def)
  have app: "''svcA'' \<noteq> []" "''svcA'' \<noteq> ''unknown''"
    by simp_all
  have two: "length (filter (\<lambda>(ident, a).
                  case pairHeap a of None \<Rightarrow> False
                  | Some n \<Rightarrow> Node.Namespace n = ''ns1'' \<and> Node.App n = ''svcA'') pairMap) = 2"
    by (simp add: pairMap_def pairHeap_def v1Node_def v2Node_def idleNode_def)
  then have "2 \<le> length (filter (\<lambda>(ident, a).
                  case pairHeap a of None \<Rightarrow> False
                  | Some n \<Rightarrow> Node.Namespace n = ''ns1'' \<and> Node.App n = ''svcA'') pairMap)"
    by (simp only: order_refl)
  from app_grouping_unless_service_graph [OF perm groupedConfig_built by_app not_service app this]
  have "length (filter (\<lambda>nd. IsGroup nd = [] \<and> NodeData.Namespace nd = ''ns1'' \<and> NodeData.App nd = ''svcA'')
                (Nodes (Elements groupedConfig))) = 2"
    by (simp only: two)
  with groupedConfig_built by_app not_service two show ?thesis
    by (simp only: simp_thms)
qed

section \<open>The order and the origin of the records\<close>

subsection \<open>What sort.Slice guarantees\<close>

lemma insertion_sorted:
  assumes asym: "\<And>x y. lessFn x y \<Longrightarrow> \<not> lessFn y x"
    and cotrans: "\<And>x y z. lessFn x z \<Longrightarrow> lessFn x y \<or> lessFn y z"
    and "sorted_wrt (\<lambda>later earlier. \<not> lessFn later earlier) placed"
  shows "sorted_wrt (\<lambda>later earlier. \<not> lessFn later earlier) (insertion lessFn placed x)"
  using assms(3)
proof (induction placed)
  case Nil
  then show ?case by simp
next
  case (Cons y placed)
  show ?case
  proof (cases "lessFn x y")
    case True
    have "\<not> lessFn y z" if "z \<in> set (insertion lessFn placed x)" for z
    proof -
      from that have "z = x \<or> z \<in> set placed"
        by (metis mset_insertion set_mset_mset set_mset_add_mset_insert insertE)
      with Cons.prems True asym show ?thesis
        by auto
    qed
    with Cons True show ?thesis
      by simp
  next
    case False
    have "\<not> lessFn x z" if "z \<in> set placed" for z
      using that Cons.prems False cotrans [of x z y] by auto
    with Cons.prems False show ?thesis
      by simp
  qed
qed

lemma sort_Slice_sorted:
  assumes asym: "\<And>x y. lessFn x y \<Longrightarrow> \<not> lessFn y x"
    and cotrans: "\<And>x y z. lessFn x z \<Longrightarrow> lessFn x y \<or> lessFn y z"
  shows "sorted_wrt (\<lambda>earlier later. \<not> lessFn later earlier) (sort_Slice lessFn xs)"
proof -
  have "sorted_wrt (\<lambda>later earlier. \<not> lessFn later earlier) (foldl (insertion lessFn) placed xs)"
    if "sorted_wrt (\<lambda>later earlier. \<not> lessFn later earlier) placed" for placed
    using that
  proof (induction xs arbitrary: placed)
    case Nil
    then show ?case by simp
  next
    case (Cons x xs)
    from insertion_sorted [OF asym cotrans Cons.prems] Cons.IH show ?case
      by simp
  qed
  from this [of "[]"] show ?thesis
    by (simp add: sort_Slice_def sorted_wrt_rev)
qed

lemma strictWeak_less:
  fixes f :: "'a \<Rightarrow> 'k :: linorder"
  shows "strictWeak (\<lambda>a b. f a < f b)"
  unfolding strictWeak_def by auto

lemma strictWeak_lex:
  fixes f :: "'a \<Rightarrow> 'k :: linorder"
  assumes "strictWeak rest"
  shows "strictWeak (\<lambda>a b. if f a \<noteq> f b then f a < f b else rest a b)"
proof -
  from assms have asym: "rest a b \<Longrightarrow> \<not> rest b a" for a b
    unfolding strictWeak_def by blast
  from assms have cotrans: "rest a c \<Longrightarrow> rest a b \<or> rest b c" for a b c
    unfolding strictWeak_def by blast
  show ?thesis
    unfolding strictWeak_def
  proof (intro conjI allI impI)
    fix a b
    assume "if f a \<noteq> f b then f a < f b else rest a b"
    then show "\<not> (if f b \<noteq> f a then f b < f a else rest b a)"
      using asym [of a b] by (auto split: if_splits)
  next
    fix a b c
    assume "if f a \<noteq> f c then f a < f c else rest a c"
    then show "(if f a \<noteq> f b then f a < f b else rest a b) \<or>
               (if f b \<noteq> f c then f b < f c else rest b c)"
      using cotrans [of a c b] by (cases "f a = f b"; cases "f b = f c") (auto split: if_splits)
  qed
qed

lemma strictWeak_lex_desc:
  fixes f :: "'a \<Rightarrow> 'k :: linorder"
  assumes "strictWeak rest"
  shows "strictWeak (\<lambda>a b. if f a \<noteq> f b then f b < f a else rest a b)"
proof -
  from assms have asym: "rest a b \<Longrightarrow> \<not> rest b a" for a b
    unfolding strictWeak_def by blast
  from assms have cotrans: "rest a c \<Longrightarrow> rest a b \<or> rest b c" for a b c
    unfolding strictWeak_def by blast
  show ?thesis
    unfolding strictWeak_def
  proof (intro conjI allI impI)
    fix a b
    assume "if f a \<noteq> f b then f b < f a else rest a b"
    then show "\<not> (if f b \<noteq> f a then f a < f b else rest b a)"
      using asym [of a b] by (auto split: if_splits)
  next
    fix a b c
    assume "if f a \<noteq> f c then f c < f a else rest a c"
    then show "(if f a \<noteq> f b then f b < f a else rest a b) \<or>
               (if f b \<noteq> f c then f c < f b else rest b c)"
      using cotrans [of a c b] by (cases "f a = f b"; cases "f b = f c") (auto split: if_splits)
  qed
qed

lemma strictWeak_nodeLess: "strictWeak nodeLess"
  unfolding nodeLess_def [abs_def]
  by (intro strictWeak_lex strictWeak_lex_desc strictWeak_less)

lemma strictWeak_edgeLess: "strictWeak edgeLess"
proof -
  have eq: "edgeLess = (\<lambda>a b. if EdgeData.Source a \<noteq> EdgeData.Source b
                           then EdgeData.Source a < EdgeData.Source b else Target a < Target b)"
    by (auto simp: edgeLess_def fun_eq_iff)
  show ?thesis
    unfolding eq by (intro strictWeak_lex strictWeak_less)
qed

lemma sort_Slice_strictWeak:
  assumes "strictWeak lessFn"
  shows "sorted_wrt (\<lambda>earlier later. \<not> lessFn later earlier) (sort_Slice lessFn xs)"
  using assms unfolding strictWeak_def by (intro sort_Slice_sorted) blast+

text \<open>
  The node records of the document are in the order of the comparator, and within a
  namespace no record that is not a group node comes before a group node.
\<close>

lemma document_sorted:
  assumes "NewConfig md5 rangeOrder h trafficMap opts = Inr cfg"
  shows "sorted_wrt (\<lambda>earlier later. \<not> nodeLess later earlier) (Nodes (Elements cfg))"
    and "sorted_wrt (\<lambda>earlier later. \<not> edgeLess later earlier) (Edges (Elements cfg))"
  using NewConfig_eq_Inr [OF assms]
  by (auto intro!: sort_Slice_strictWeak strictWeak_nodeLess strictWeak_edgeLess)

lemma group_nodes_first:
  assumes "NewConfig md5 rangeOrder h trafficMap opts = Inr cfg"
    and "i < j" and "j < length (Nodes (Elements cfg))"
    and "NodeData.Namespace (Nodes (Elements cfg) ! i) = NodeData.Namespace (Nodes (Elements cfg) ! j)"
    and "IsGroup (Nodes (Elements cfg) ! j) \<noteq> []"
  shows "IsGroup (Nodes (Elements cfg) ! i) \<noteq> []"
proof
  assume plain: "IsGroup (Nodes (Elements cfg) ! i) = []"
  from document_sorted(1) [OF assms(1)] assms(2,3)
  have "\<not> nodeLess (Nodes (Elements cfg) ! j) (Nodes (Elements cfg) ! i)"
    by (simp add: sorted_wrt_iff_nth_less)
  moreover have "[] < IsGroup (Nodes (Elements cfg) ! j)"
    using assms(5) by (cases "IsGroup (Nodes (Elements cfg) ! j)") simp_all
  ultimately show False
    using assms(4,5) plain by (simp add: nodeLess_def)
qed

text \<open>
  The records of the document are those that buildNode and buildEdge return for the nodes
  and edges of the graph, with the group nodes and parents that the grouping pass adds.
\<close>

lemma document_edges:
  assumes "NewConfig md5 rangeOrder h trafficMap opts = Inr cfg"
  shows "\<exists>ewss. mset (Edges (Elements cfg)) = mset (concat ewss) \<and>
           list_all2 (\<lambda>(ident, a) ews. \<exists>n. h a = Some n \<and>
              list_all2 (\<lambda>e ew. \<exists>edge. e = Some edge \<and> buildEdge md5 h n edge opts = Inr ew)
                (Node.Edges n) ews) trafficMap ewss"
proof -
  from NewConfig_eq_Inr [OF assms] obtain nodes edges where
    built: "buildConfig md5 h trafficMap [] [] opts = Inr (nodes, edges)"
    and out: "Edges (Elements cfg) = sort_Slice edgeLess edges"
    by auto
  from buildConfig_result [OF built] out show ?thesis
    by (auto simp: mset_sort_Slice)
qed

lemma document_nodes_ungrouped:
  assumes "NewConfig md5 rangeOrder h trafficMap opts = Inr cfg"
    and "GroupBy opts \<noteq> GroupByApp" and "GroupBy opts \<noteq> GroupByVersion"
  shows "\<exists>nodes. mset (Nodes (Elements cfg)) = mset nodes \<and>
           list_all2 (\<lambda>(ident, a) nw. \<exists>n. h a = Some n \<and> buildNode md5 ident n = Inr nw)
             trafficMap nodes"
proof -
  from NewConfig_eq_Inr [OF assms(1)] assms(2,3) obtain nodes edges where
    built: "buildConfig md5 h trafficMap [] [] opts = Inr (nodes, edges)"
    and out: "Nodes (Elements cfg) = sort_Slice nodeLess nodes"
    by auto
  from built_nodes [OF built] out show ?thesis
    by (auto simp: mset_sort_Slice)
qed

end
